(* ===== verification/Psx_Prelude.thy ===== *)
theory Psx_Prelude
  imports Main "HOL-Library.Word"
begin

text \<open>
  Shared vocabulary of the development: the C integer types as words, the casts the sources
  use, little-endian byte access to the host arrays, and the generic word facts that the component
  theories share. The collections \<open>mask_simps\<close> (a test against a one-bit mask is a test of one
  bit) and \<open>frame_simps\<close> (which fields an operation leaves alone) are filled by the theories
  that define the operations concerned.
\<close>

unbundle bit_operations_syntax

named_theorems mask_simps "a test against a one-bit mask as a test of one bit"
named_theorems frame_simps "the fields an operation leaves unchanged"
named_theorems ops_simps "an operation only schedules and cancels events"
named_theorems state_simps "the value of the fields an operation writes"

section \<open>C integers\<close>

type_synonym u8 = "8 word"
type_synonym u16 = "16 word"
type_synonym u32 = "32 word"
type_synonym u64 = "64 word"

text \<open>A C truth value stored in an unsigned word.\<close>

definition u32_of_bool :: "bool \<Rightarrow> u32" where
  "u32_of_bool b = (if b then 1 else 0)"

text \<open>\<^verbatim>\<open>(int32_t)(int16_t)x\<close> and \<^verbatim>\<open>(int32_t)(int8_t)x\<close>, kept as a 32-bit pattern.\<close>

definition sext16 :: "u16 \<Rightarrow> u32" where
  "sext16 x = scast x"

definition sext8 :: "u8 \<Rightarrow> u32" where
  "sext8 x = scast x"

text \<open>\<^verbatim>\<open>UINT64_MAX\<close>.\<close>

definition UINT64_MAX :: u64 where
  "UINT64_MAX = - 1"

lemma le_UINT64_MAX [simp]: "(x :: u64) \<le> UINT64_MAX"
  by (simp add: UINT64_MAX_def)

section \<open>Tests against masks\<close>

lemma and_exp_iff_bit:
  "((w :: 'a :: len word) AND 2 ^ n \<noteq> 0) \<longleftrightarrow> bit w n"
  by (simp add: and_exp_eq_0_iff_not_bit)

lemma mask_u32 [mask_simps]:
  fixes w :: u32
  shows "w AND 1 = 0 \<longleftrightarrow> \<not> bit w 0" and "w AND 2 = 0 \<longleftrightarrow> \<not> bit w 1"
    and "w AND 0x40 = 0 \<longleftrightarrow> \<not> bit w 6" and "w AND 0x10 = 0 \<longleftrightarrow> \<not> bit w 4"
    and "w AND 0x20 = 0 \<longleftrightarrow> \<not> bit w 5" and "w AND 8 = 0 \<longleftrightarrow> \<not> bit w 3"
    and "w AND 0x400 = 0 \<longleftrightarrow> \<not> bit w 10" and "w AND 0x10000 = 0 \<longleftrightarrow> \<not> bit w 16"
    and "w AND 0x400000 = 0 \<longleftrightarrow> \<not> bit w 22" and "w AND 0x800000 = 0 \<longleftrightarrow> \<not> bit w 23"
    and "w AND 0x1000000 = 0 \<longleftrightarrow> \<not> bit w 24" and "w AND 0x80000000 = 0 \<longleftrightarrow> \<not> bit w 31"
  using and_exp_eq_0_iff_not_bit [of w 0] and_exp_eq_0_iff_not_bit [of w 1]
    and_exp_eq_0_iff_not_bit [of w 6] and_exp_eq_0_iff_not_bit [of w 4]
    and_exp_eq_0_iff_not_bit [of w 5] and_exp_eq_0_iff_not_bit [of w 3]
    and_exp_eq_0_iff_not_bit [of w 10] and_exp_eq_0_iff_not_bit [of w 16]
    and_exp_eq_0_iff_not_bit [of w 22] and_exp_eq_0_iff_not_bit [of w 23]
    and_exp_eq_0_iff_not_bit [of w 24] and_exp_eq_0_iff_not_bit [of w 31]
  by simp_all

lemma bit_31_sint: "bit (w :: u32) 31 \<longleftrightarrow> sint w < 0"
  using bit_last_iff [of w] by simp

text \<open>
  Equality of words bit by bit, with the bit numbers as numerals, so that \<open>simp\<close> evaluates the bits
  of every constant mask. The case split goes with it.
\<close>

lemma u32_eq_bits:
  "(x :: u32) = y \<longleftrightarrow> list_all (\<lambda>n. bit x n = bit y n)
     [0, 1, 2, 3, 4, 5, 6, 7, 8, 9, 10, 11, 12, 13, 14, 15, 16, 17, 18, 19, 20, 21, 22, 23, 24, 25, 26,
      27, 28, 29, 30, 31]" (is "_ \<longleftrightarrow> list_all ?P ?ns")
proof -
  have "?ns = [0..<32]" by (simp add: upt_rec)
  moreover have "x = y \<longleftrightarrow> list_all ?P [0..<32]"
    by (auto simp: list_all_iff intro: bit_word_eqI)
  ultimately show ?thesis by simp
qed

lemma u8_eq_bits:
  "(x :: u8) = y \<longleftrightarrow> list_all (\<lambda>n. bit x n = bit y n) [0, 1, 2, 3, 4, 5, 6, 7]" (is "_ \<longleftrightarrow> list_all ?P ?ns")
proof -
  have "?ns = [0..<8]" by (simp add: upt_rec)
  moreover have "x = y \<longleftrightarrow> list_all ?P [0..<8]"
    by (auto simp: list_all_iff intro: bit_word_eqI)
  ultimately show ?thesis by simp
qed

lemma bit_beyond [simp]:
  "8 \<le> n \<Longrightarrow> \<not> bit (x :: u8) n" "16 \<le> n \<Longrightarrow> \<not> bit (y :: u16) n" "32 \<le> n \<Longrightarrow> \<not> bit (z :: u32) n"
  by (auto dest: bit_imp_le_length)

section \<open>Little-endian access to the host arrays\<close>

text \<open>
  The host is little-endian, so \<^verbatim>\<open>*(uint32_t *)(p + a)\<close> is the four bytes at \<open>a\<close> to
  \<open>a + 3\<close>, least significant first.
\<close>

type_synonym bytes = "u32 \<Rightarrow> u8"

definition load16 :: "bytes \<Rightarrow> u32 \<Rightarrow> u16" where
  "load16 m a = ucast (m a) OR push_bit 8 (ucast (m (a + 1)))"

definition load32 :: "bytes \<Rightarrow> u32 \<Rightarrow> u32" where
  "load32 m a = ucast (m a) OR push_bit 8 (ucast (m (a + 1)))
     OR push_bit 16 (ucast (m (a + 2))) OR push_bit 24 (ucast (m (a + 3)))"

definition store16 :: "bytes \<Rightarrow> u32 \<Rightarrow> u16 \<Rightarrow> bytes" where
  "store16 m a v = m(a := ucast v, a + 1 := ucast (drop_bit 8 v))"

definition store32 :: "bytes \<Rightarrow> u32 \<Rightarrow> u32 \<Rightarrow> bytes" where
  "store32 m a v = m(a := ucast v, a + 1 := ucast (drop_bit 8 v),
     a + 2 := ucast (drop_bit 16 v), a + 3 := ucast (drop_bit 24 v))"

lemma load16_store16 [simp]: "load16 (store16 m a v) a = v"
  by (rule bit_word_eqI) (auto simp: load16_def store16_def bit_simps)

lemma load32_store32 [simp]: "load32 (store32 m a v) a = v"
proof (rule bit_word_eqI)
  fix n assume "n < LENGTH(32)"
  then consider "n < 8" | "8 \<le> n" "n < 16" | "16 \<le> n" "n < 24" | "24 \<le> n" "n < 32"
    by (simp, linarith)
  then show "bit (load32 (store32 m a v) a) n = bit v n"
    by cases (auto simp: load32_def store32_def bit_simps)
qed

lemma store32_other:
  assumes "b \<noteq> a" "b \<noteq> a + 1" "b \<noteq> a + 2" "b \<noteq> a + 3"
  shows "store32 m a v b = m b"
  using assms by (simp add: store32_def)

section \<open>Between the widths\<close>

lemma unat_ucast_u32: "x < 2 ^ 32 \<Longrightarrow> unat (ucast (x :: u64) :: u32) = unat x"
  by (simp add: unsigned_ucast_eq word_less_nat_alt take_bit_eq_mod)

lemma unat_u32_less: "unat (x :: u32) < 2 ^ 32"
  by (rule order_less_le_trans [OF unsigned_less]) simp

lemma unat_ucast_u64 [simp]: "unat (ucast (x :: u32) :: u64) = unat x"
  using unat_u32_less [of x] by (simp add: unsigned_ucast_eq take_bit_eq_mod)

section \<open>Aligned addresses\<close>

lemma drop_bit_and_1: "drop_bit n (w :: u32) AND 1 \<noteq> 0 \<longleftrightarrow> bit w n"
  by (simp add: bit_iff_and_drop_bit_eq_1 and.commute one_and_eq mod_2_eq_odd)

lemma unat_add_of_nat: "unat (a :: u32) + k < 2 ^ 32 \<Longrightarrow> unat (a + of_nat k) = unat a + k"
  using unat_add_lem [of a "of_nat k"] by (simp add: unsigned_of_nat take_bit_eq_mod)

lemma take_bit_add_u32:
  fixes x y :: u32
  assumes "n \<le> 32"
  shows "take_bit n (x + y) = take_bit n (take_bit n x + take_bit n y)"
proof -
  have "(2 :: nat) ^ n dvd 2 ^ 32" using assms by (rule le_imp_power_dvd)
  then have "z mod 4294967296 mod 2 ^ n = z mod (2 :: nat) ^ n" for z
    using mod_mod_cancel [of "2 ^ n" "2 ^ 32" z] by simp
  moreover have "unat (take_bit n w) = unat w mod 2 ^ n" for w :: u32
    by (simp only: unsigned_take_bit_eq) (simp add: take_bit_eq_mod)
  ultimately show ?thesis by (simp add: word_unat_eq_iff unat_word_ariths mod_simps)
qed

lemma aligned_mod_4: "(a :: u32) AND 3 = 0 \<longleftrightarrow> unat a mod 4 = 0"
proof -
  have "a AND 3 = take_bit 2 a" by (simp add: take_bit_eq_mask mask_eq_exp_minus_1)
  moreover have "unat (take_bit 2 a) = unat a mod 4" by (simp add: take_bit_eq_mod unat_mod)
  ultimately show ?thesis by (simp add: word_unat_eq_iff)
qed

lemma aligned_sub: "(a :: u32) AND 3 = 0 \<Longrightarrow> (a - 4 * w) AND 3 = 0"
proof -
  assume a: "a AND 3 = 0"
  have m: "x AND 3 = take_bit 2 x" for x :: u32 by (simp add: take_bit_eq_mask mask_eq_exp_minus_1)
  have "take_bit 2 (- w * 4) = 0"
    using take_bit_push_bit [of 2 2 "- w"] by (simp add: push_bit_eq_mult)
  then show ?thesis using a take_bit_add_u32 [of 2 a "- w * 4"] by (simp add: m algebra_simps)
qed

lemma aligned_apart:
  assumes "(a :: u32) AND 3 = 0" "b AND 3 = 0" "a \<noteq> b" "i < 4" "j < 4"
  shows "a + of_nat i \<noteq> b + of_nat j"
proof -
  have u: "unat (x + of_nat k) = unat x + k" if "x AND 3 = 0" "k < 4" for x :: u32 and k
  proof -
    have "unat x + k < 2 ^ 32" using that unat_u32_less [of x] by (simp add: aligned_mod_4) presburger
    moreover have "unat (of_nat k :: u32) = k" using that by (simp add: unsigned_of_nat take_bit_nat_eq_self_iff)
    ultimately show ?thesis using unat_add_lem [of x "of_nat k"] by simp
  qed
  have "unat a \<noteq> unat b" using assms(3) by (simp add: word_unat_eq_iff)
  moreover have "x = y" if "x + i = y + j" "x mod 4 = 0" "y mod 4 = 0" for x y :: nat
    using that assms(4,5) by presburger
  ultimately have "unat a + i \<noteq> unat b + j" using assms(1,2) by (auto simp: aligned_mod_4)
  then show ?thesis using u assms by metis
qed

lemma load32_store32_aligned:
  assumes "a AND 3 = 0" "b AND 3 = 0"
  shows "load32 (store32 m a v) b = (if b = a then v else load32 m b)"
proof (cases "b = a")
  case False
  have "store32 m a v (b + of_nat i) = m (b + of_nat i)" if "i < 4" for i
  proof -
    have "b + of_nat i \<noteq> a + of_nat j" if "j < 4" for j
      using aligned_apart [OF assms(2,1) False \<open>i < 4\<close> that] .
    from this [of 0] this [of 1] this [of 2] this [of 3] show ?thesis by (simp add: store32_other)
  qed
  from this [of 0] this [of 1] this [of 2] this [of 3] show ?thesis
    using False by (simp add: load32_def)
qed simp

end
