(* ===== verification/Scheduler.thy ===== *)
theory Scheduler
  imports Psx_Prelude
begin

text \<open>
  The event scheduler of \<^verbatim>\<open>include/scheduler.h\<close> and \<^verbatim>\<open>src/scheduler.c\<close>: ten event slots, each
  active or not with an absolute deadline and a callback, and a cached copy of the earliest active
  deadline with the slot that has it. The record \<open>sched\<close> is the root of the extensible record of
  the machine's globals, so every operation here also works on the larger states of the later
  theories. The callbacks are function pointers of C; \<open>sched_cb\<close> names the ones that the sources
  pass to \<open>Sched_Add\<close>, and \<open>Sched_Tick\<close> takes the function that runs them as an argument.

  Shown here: the cached minimum is right after every operation and after a whole tick whose
  callbacks schedule and cancel events themselves; the slots implement a finite map from events to
  deadlines; a tick before the cached deadline does nothing; and after a tick whose callbacks only
  schedule into the future no due event is left.
\<close>

section \<open>State\<close>

text \<open>The callbacks that the program registers, by the C function's name.\<close>

datatype sched_cb =
    Timer_Callback nat
  | Sched_SIO_IRQ_Callback
  | CDROM_EventCallback
  | CDROM_PendingCallback
  | CDROM_DeferredCallback
  | CDROM_DeferredIRQActivate
  | cdrom_shell_close_stage2
  | cdrom_shell_close_stage3
  | Sched_HBlank_Callback
  | DMA_FireCompletion

definition SCHED_EVENT_TIMER0 :: nat where "SCHED_EVENT_TIMER0 = 0"
definition SCHED_EVENT_SIO_IRQ :: nat where "SCHED_EVENT_SIO_IRQ = 3"
definition SCHED_EVENT_CDROM :: nat where "SCHED_EVENT_CDROM = 4"
definition SCHED_EVENT_CDROM_DEFERRED :: nat where "SCHED_EVENT_CDROM_DEFERRED = 5"
definition SCHED_EVENT_CDROM_IRQ :: nat where "SCHED_EVENT_CDROM_IRQ = 6"
definition SCHED_EVENT_CDROM_PENDING :: nat where "SCHED_EVENT_CDROM_PENDING = 7"
definition SCHED_EVENT_HBLANK :: nat where "SCHED_EVENT_HBLANK = 8"
definition SCHED_EVENT_DMA :: nat where "SCHED_EVENT_DMA = 9"
definition SCHED_EVENT_COUNT :: nat where "SCHED_EVENT_COUNT = 10"

lemmas sched_event_defs = SCHED_EVENT_TIMER0_def SCHED_EVENT_SIO_IRQ_def SCHED_EVENT_CDROM_def
  SCHED_EVENT_CDROM_DEFERRED_def SCHED_EVENT_CDROM_IRQ_def SCHED_EVENT_CDROM_PENDING_def
  SCHED_EVENT_HBLANK_def SCHED_EVENT_DMA_def SCHED_EVENT_COUNT_def

record sched =
  sched_active :: "nat \<Rightarrow> bool"
  sched_deadline :: "nat \<Rightarrow> u64"
  sched_callback :: "nat \<Rightarrow> sched_cb option"
  global_cycles :: u64
  partial_block_cycles :: u32
  sched_cached_earliest :: u64
  sched_earliest_id :: int
  sched_interrupt_chain :: bool

section \<open>Operations\<close>

definition Sched_Init :: "('a :: type) sched_scheme \<Rightarrow> 'a sched_scheme" where
  "Sched_Init s = s\<lparr>sched_active := (\<lambda>_. False), sched_deadline := (\<lambda>_. 0),
     sched_callback := (\<lambda>_. None), global_cycles := 0, partial_block_cycles := 0,
     sched_cached_earliest := UINT64_MAX, sched_earliest_id := -1,
     sched_interrupt_chain := False\<rparr>"

text \<open>One iteration of the scan for the earliest active deadline.\<close>

definition scan_earliest :: "'a sched_scheme \<Rightarrow> nat \<Rightarrow> u64 \<times> int \<Rightarrow> u64 \<times> int" where
  "scan_earliest s i = (\<lambda>(earliest, earliest_id).
     if sched_active s i \<and> sched_deadline s i < earliest
     then (sched_deadline s i, int i) else (earliest, earliest_id))"

definition sched_recompute_cached :: "'a sched_scheme \<Rightarrow> 'a sched_scheme" where
  "sched_recompute_cached s =
     (let (earliest, earliest_id) =
        fold (scan_earliest s) [0..<SCHED_EVENT_COUNT] (UINT64_MAX, -1)
      in s\<lparr>sched_cached_earliest := earliest, sched_earliest_id := earliest_id\<rparr>)"

definition Sched_Add :: "nat \<Rightarrow> u64 \<Rightarrow> sched_cb \<Rightarrow> 'a sched_scheme \<Rightarrow> 'a sched_scheme" where
  "Sched_Add event_id absolute_cycle cb s =
     (let was_earliest = (int event_id = sched_earliest_id s);
          s1 = s\<lparr>sched_active := (sched_active s)(event_id := True),
                 sched_deadline := (sched_deadline s)(event_id := absolute_cycle),
                 sched_callback := (sched_callback s)(event_id := Some cb)\<rparr>
      in if absolute_cycle \<le> sched_cached_earliest s1
         then s1\<lparr>sched_cached_earliest := absolute_cycle, sched_earliest_id := int event_id\<rparr>
         else if was_earliest then sched_recompute_cached s1
         else s1)"

definition Sched_Remove :: "nat \<Rightarrow> 'a sched_scheme \<Rightarrow> 'a sched_scheme" where
  "Sched_Remove event_id s =
     (let was_earliest = (int event_id = sched_earliest_id s);
          s1 = s\<lparr>sched_active := (sched_active s)(event_id := False)\<rparr>
      in if was_earliest then sched_recompute_cached s1 else s1)"

text \<open>
  One iteration of the loop of \<open>Sched_Tick\<close>, on the flag \<open>needed_recompute\<close> and the state. The
  argument \<open>run\<close> calls a callback with the number of cycles it is late.
\<close>

definition sched_tick_slot ::
  "(sched_cb \<Rightarrow> int \<Rightarrow> 'a sched_scheme \<Rightarrow> 'a sched_scheme) \<Rightarrow> u64 \<Rightarrow> nat \<Rightarrow>
     bool \<times> 'a sched_scheme \<Rightarrow> bool \<times> 'a sched_scheme" where
  "sched_tick_slot run current_cycle i = (\<lambda>(needed_recompute, s).
     if sched_active s i \<and> sched_deadline s i \<le> current_cycle then
       let needed_recompute' = (needed_recompute \<or> int i = sched_earliest_id s);
           ticks_late = sint (ucast (current_cycle - sched_deadline s i) :: u32);
           s1 = s\<lparr>sched_active := (sched_active s)(i := False)\<rparr>
       in (needed_recompute',
           case sched_callback s1 i of None \<Rightarrow> s1 | Some cb \<Rightarrow> run cb ticks_late s1)
     else (needed_recompute, s))"

definition Sched_Tick ::
  "(sched_cb \<Rightarrow> int \<Rightarrow> 'a sched_scheme \<Rightarrow> 'a sched_scheme) \<Rightarrow> u64 \<Rightarrow>
     'a sched_scheme \<Rightarrow> 'a sched_scheme" where
  "Sched_Tick run current_cycle s =
     (let (needed_recompute, s') =
        fold (sched_tick_slot run current_cycle) [0..<SCHED_EVENT_COUNT] (False, s)
      in if needed_recompute then sched_recompute_cached s' else s')"

section \<open>The cached minimum\<close>

text \<open>
  The cached deadline is a lower bound of the active deadlines; and the cached slot is active with
  exactly that deadline, or there is none and the cached deadline is the largest value.
\<close>

definition sched_bound :: "'a sched_scheme \<Rightarrow> bool" where
  "sched_bound s \<longleftrightarrow>
     (\<forall>i < SCHED_EVENT_COUNT. sched_active s i \<longrightarrow> sched_cached_earliest s \<le> sched_deadline s i)"

definition sched_exact :: "'a sched_scheme \<Rightarrow> bool" where
  "sched_exact s \<longleftrightarrow>
     (sched_earliest_id s = -1 \<and> sched_cached_earliest s = UINT64_MAX \<or>
      0 \<le> sched_earliest_id s \<and> nat (sched_earliest_id s) < SCHED_EVENT_COUNT \<and>
      sched_active s (nat (sched_earliest_id s)) \<and>
      sched_deadline s (nat (sched_earliest_id s)) = sched_cached_earliest s)"

definition sched_ok :: "'a sched_scheme \<Rightarrow> bool" where
  "sched_ok s \<longleftrightarrow> sched_bound s \<and> sched_exact s"

lemma scan_earliest_invariant:
  assumes "fold (scan_earliest s) xs (e0, id0) = (e, id')"
    and "(id0 = -1 \<and> e0 = UINT64_MAX) \<or>
         (\<exists>i < SCHED_EVENT_COUNT. id0 = int i \<and> sched_active s i \<and> sched_deadline s i = e0)"
    and "set xs \<subseteq> {..<SCHED_EVENT_COUNT}"
  shows "e \<le> e0 \<and> (\<forall>i \<in> set xs. sched_active s i \<longrightarrow> e \<le> sched_deadline s i) \<and>
    ((id' = -1 \<and> e = UINT64_MAX) \<or>
     (\<exists>i < SCHED_EVENT_COUNT. id' = int i \<and> sched_active s i \<and> sched_deadline s i = e))"
  using assms
proof (induction xs arbitrary: e0 id0)
  case Nil
  then show ?case by simp
next
  case (Cons x xs)
  obtain e1 id1 where step: "scan_earliest s x (e0, id0) = (e1, id1)"
    by (cases "scan_earliest s x (e0, id0)")
  have rest: "fold (scan_earliest s) xs (e1, id1) = (e, id')"
    using Cons.prems(1) step by simp
  have start: "(id1 = -1 \<and> e1 = UINT64_MAX) \<or>
      (\<exists>i < SCHED_EVENT_COUNT. id1 = int i \<and> sched_active s i \<and> sched_deadline s i = e1)"
    using step Cons.prems(2,3) by (auto simp: scan_earliest_def split: if_splits)
  have "e1 \<le> e0" and "sched_active s x \<longrightarrow> e1 \<le> sched_deadline s x"
    using step by (auto simp: scan_earliest_def split: if_splits)
  with Cons.IH [OF rest start] Cons.prems(3) show ?case by (auto intro: order_trans)
qed

lemma sched_recompute_ok: "sched_ok (sched_recompute_cached s)"
proof -
  obtain e id' where scan: "fold (scan_earliest s) [0..<SCHED_EVENT_COUNT] (UINT64_MAX, -1) = (e, id')"
    by (cases "fold (scan_earliest s) [0..<SCHED_EVENT_COUNT] (UINT64_MAX, -1)")
  have "sched_recompute_cached s = s\<lparr>sched_cached_earliest := e, sched_earliest_id := id'\<rparr>"
    by (simp only: sched_recompute_cached_def scan Let_def case_prod_conv)
  moreover have "(\<forall>i \<in> set [0..<SCHED_EVENT_COUNT]. sched_active s i \<longrightarrow> e \<le> sched_deadline s i) \<and>
      ((id' = -1 \<and> e = UINT64_MAX) \<or>
       (\<exists>i < SCHED_EVENT_COUNT. id' = int i \<and> sched_active s i \<and> sched_deadline s i = e))"
    using scan_earliest_invariant [OF scan] by (simp add: subset_eq)
  ultimately show ?thesis
    by (auto simp: sched_ok_def sched_bound_def sched_exact_def)
qed

lemma sched_recompute_halves [simp]:
  "sched_bound (sched_recompute_cached s)" "sched_exact (sched_recompute_cached s)"
  using sched_recompute_ok by (auto simp: sched_ok_def)

lemma sched_recompute_frame [frame_simps]:
  "sched_active (sched_recompute_cached s) = sched_active s"
  "sched_deadline (sched_recompute_cached s) = sched_deadline s"
  "sched_callback (sched_recompute_cached s) = sched_callback s"
  "global_cycles (sched_recompute_cached s) = global_cycles s"
  "partial_block_cycles (sched_recompute_cached s) = partial_block_cycles s"
  "sched_interrupt_chain (sched_recompute_cached s) = sched_interrupt_chain s"
  "sched.more (sched_recompute_cached s) = sched.more s"
  by (simp_all add: sched_recompute_cached_def Let_def case_prod_unfold)

lemma Sched_Add_frame [frame_simps]:
  "sched_active (Sched_Add e d cb s) = (sched_active s)(e := True)"
  "sched_deadline (Sched_Add e d cb s) = (sched_deadline s)(e := d)"
  "sched_callback (Sched_Add e d cb s) = (sched_callback s)(e := Some cb)"
  "global_cycles (Sched_Add e d cb s) = global_cycles s"
  "partial_block_cycles (Sched_Add e d cb s) = partial_block_cycles s"
  "sched_interrupt_chain (Sched_Add e d cb s) = sched_interrupt_chain s"
  "sched.more (Sched_Add e d cb s) = sched.more s"
  by (simp_all add: Sched_Add_def Let_def frame_simps)

lemma Sched_Remove_frame [frame_simps]:
  "sched_active (Sched_Remove e s) = (sched_active s)(e := False)"
  "sched_deadline (Sched_Remove e s) = sched_deadline s"
  "sched_callback (Sched_Remove e s) = sched_callback s"
  "global_cycles (Sched_Remove e s) = global_cycles s"
  "partial_block_cycles (Sched_Remove e s) = partial_block_cycles s"
  "sched_interrupt_chain (Sched_Remove e s) = sched_interrupt_chain s"
  "sched.more (Sched_Remove e s) = sched.more s"
  by (simp_all add: Sched_Remove_def Let_def frame_simps)

text \<open>
  Each half of the invariant is preserved on its own. The lower bound holds even while the cached
  slot is stale, which is the situation inside a tick.
\<close>

lemma Sched_Add_bound: "sched_bound s \<Longrightarrow> sched_bound (Sched_Add e d cb s)"
  by (auto simp: Sched_Add_def Let_def) (auto simp: sched_bound_def)

lemma Sched_Remove_bound: "sched_bound s \<Longrightarrow> sched_bound (Sched_Remove e s)"
  by (auto simp: Sched_Remove_def Let_def) (auto simp: sched_bound_def)

lemma Sched_Add_exact:
  "sched_exact s \<Longrightarrow> e < SCHED_EVENT_COUNT \<Longrightarrow> sched_exact (Sched_Add e d cb s)"
  by (auto simp: Sched_Add_def Let_def) (auto simp: sched_exact_def)

lemma Sched_Remove_exact: "sched_exact s \<Longrightarrow> sched_exact (Sched_Remove e s)"
  by (auto simp: Sched_Remove_def Let_def) (auto simp: sched_exact_def)

lemma Sched_Init_ok: "sched_ok (Sched_Init s)"
  by (simp add: sched_ok_def sched_bound_def sched_exact_def Sched_Init_def)

lemma Sched_Add_ok: "sched_ok s \<Longrightarrow> e < SCHED_EVENT_COUNT \<Longrightarrow> sched_ok (Sched_Add e d cb s)"
  by (simp add: sched_ok_def Sched_Add_bound Sched_Add_exact)

lemma Sched_Remove_ok: "sched_ok s \<Longrightarrow> sched_ok (Sched_Remove e s)"
  by (simp add: sched_ok_def Sched_Remove_bound Sched_Remove_exact)

section \<open>The contract: a map from events to deadlines\<close>

text \<open>
  What the clients of the scheduler rely on. \<open>pending\<close> is the abstract content, \<open>earliest\<close> the
  deadline up to which the processor may run undisturbed.
\<close>

locale deadline_queue =
  fixes add :: "nat \<Rightarrow> u64 \<Rightarrow> 'c \<Rightarrow> 's \<Rightarrow> 's"
    and remove :: "nat \<Rightarrow> 's \<Rightarrow> 's"
    and pending :: "'s \<Rightarrow> nat \<Rightarrow> (u64 \<times> 'c option) option"
    and earliest :: "'s \<Rightarrow> u64"
    and valid_event :: "nat \<Rightarrow> bool"
    and ok :: "'s \<Rightarrow> bool"
  assumes pending_add: "valid_event e \<Longrightarrow> pending (add e d c s) = (pending s)(e \<mapsto> (d, Some c))"
    and pending_remove: "pending (remove e s) = (pending s)(e := None)"
    and ok_add: "ok s \<Longrightarrow> valid_event e \<Longrightarrow> ok (add e d c s)"
    and ok_remove: "ok s \<Longrightarrow> ok (remove e s)"
    and earliest_le: "ok s \<Longrightarrow> pending s e = Some (d, co) \<Longrightarrow> earliest s \<le> d"
    and earliest_attained:
      "ok s \<Longrightarrow> earliest s = UINT64_MAX \<or> (\<exists>e co. pending s e = Some (earliest s, co))"
begin

lemma earliest_greatest:
  assumes "ok s" and "\<And>e d c. pending s e = Some (d, c) \<Longrightarrow> b \<le> d"
  shows "b \<le> earliest s"
  using earliest_attained [OF assms(1)] assms(2) by auto

lemma earliest_add_fresh:
  assumes "ok s" "valid_event e" "pending s e = None"
  shows "earliest (add e d c s) = min d (earliest s)"
proof (rule antisym)
  have ok: "ok (add e d c s)" using assms by (simp add: ok_add)
  have "earliest (add e d c s) \<le> d"
    by (rule earliest_le [OF ok, of e d "Some c"]) (simp add: pending_add assms(2))
  moreover have "earliest (add e d c s) \<le> earliest s"
  proof (rule earliest_greatest [OF assms(1)])
    fix e' d' c' assume "pending s e' = Some (d', c')"
    moreover from this assms(3) have "e' \<noteq> e" by auto
    ultimately show "earliest (add e d c s) \<le> d'"
      by (auto simp: pending_add assms(2) intro!: earliest_le [OF ok])
  qed
  ultimately show "earliest (add e d c s) \<le> min d (earliest s)" by simp
  show "min d (earliest s) \<le> earliest (add e d c s)"
    by (rule earliest_greatest [OF ok])
      (auto simp: pending_add assms(2) min_def split: if_splits dest: earliest_le [OF assms(1)]
         intro: order_trans)
qed

lemma earliest_remove: "ok s \<Longrightarrow> earliest s \<le> earliest (remove e s)"
  by (rule earliest_greatest [OF ok_remove])
    (auto simp: pending_remove split: if_splits intro: earliest_le)

lemma due_iff:
  assumes "ok s" "now < UINT64_MAX"
  shows "(\<exists>e d c. pending s e = Some (d, c) \<and> d \<le> now) \<longleftrightarrow> earliest s \<le> now"
proof
  assume "\<exists>e d c. pending s e = Some (d, c) \<and> d \<le> now"
  then show "earliest s \<le> now" using earliest_le [OF assms(1)] by (blast intro: order_trans)
next
  assume le: "earliest s \<le> now"
  with assms(2) have "earliest s \<noteq> UINT64_MAX" by auto
  with earliest_attained [OF assms(1)] le
  show "\<exists>e d c. pending s e = Some (d, c) \<and> d \<le> now" by blast
qed

end

definition sched_pending :: "'a sched_scheme \<Rightarrow> nat \<Rightarrow> (u64 \<times> sched_cb option) option" where
  "sched_pending s i = (if i < SCHED_EVENT_COUNT \<and> sched_active s i
     then Some (sched_deadline s i, sched_callback s i) else None)"

interpretation sq: deadline_queue Sched_Add Sched_Remove sched_pending sched_cached_earliest
  "\<lambda>e. e < SCHED_EVENT_COUNT" sched_ok
proof unfold_locales
  fix s :: "'a sched_scheme" and e d c
  assume ok: "sched_ok s"
  show "sched_pending s e = Some (d, c) \<Longrightarrow> sched_cached_earliest s \<le> d"
    using ok by (auto simp: sched_pending_def sched_ok_def sched_bound_def split: if_splits)
  show "sched_cached_earliest s = UINT64_MAX \<or>
      (\<exists>e c. sched_pending s e = Some (sched_cached_earliest s, c))"
    using ok unfolding sched_pending_def sched_ok_def sched_exact_def by metis
qed (auto simp: sched_pending_def fun_eq_iff frame_simps Sched_Add_ok Sched_Remove_ok)

section \<open>Ticks\<close>

text \<open>
  What a callback may do to the scheduler: any sequence of additions and removals, interleaved
  with changes that do not touch the scheduler's own fields.
\<close>

definition sched_same :: "'a sched_scheme \<Rightarrow> 'a sched_scheme \<Rightarrow> bool" where
  "sched_same s t \<longleftrightarrow> sched_active t = sched_active s \<and> sched_deadline t = sched_deadline s \<and>
     sched_cached_earliest t = sched_cached_earliest s \<and> sched_earliest_id t = sched_earliest_id s"

lemma sched_same_refl [simp]: "sched_same s s"
  by (simp add: sched_same_def)

lemma sched_same_trans: "sched_same s t \<Longrightarrow> sched_same t u \<Longrightarrow> sched_same s u"
  by (simp add: sched_same_def)

inductive sched_ops :: "'a sched_scheme \<Rightarrow> 'a sched_scheme \<Rightarrow> bool" where
  ops_same: "sched_same s t \<Longrightarrow> sched_ops s t"
| ops_add: "sched_ops s t \<Longrightarrow> e < SCHED_EVENT_COUNT \<Longrightarrow> sched_ops s (Sched_Add e d cb t)"
| ops_remove: "sched_ops s t \<Longrightarrow> sched_ops s (Sched_Remove e t)"
| ops_trans: "sched_ops s t \<Longrightarrow> sched_ops t u \<Longrightarrow> sched_ops s u"

lemma sched_ops_refl [simp, intro]: "sched_ops s s"
  by (rule ops_same) (simp add: sched_same_def)

lemma sched_ops_same_iff: "sched_same t u \<Longrightarrow> sched_ops s u \<longleftrightarrow> sched_ops s t"
proof -
  assume same: "sched_same t u"
  then have "sched_same u t" by (simp add: sched_same_def)
  with same show ?thesis by (blast intro: ops_same ops_trans)
qed

text \<open>
  These rules, collected with those of the later theories, let the simplifier show \<open>sched_ops\<close> for the
  composed operations: each peels one operation off the second state.
\<close>

lemma sched_ops_fields [ops_simps]:
  "sched_ops s (t\<lparr>global_cycles := n\<rparr>) = sched_ops s t"
  "sched_ops s (t\<lparr>partial_block_cycles := b\<rparr>) = sched_ops s t"
  "sched_ops s (t\<lparr>sched_interrupt_chain := c\<rparr>) = sched_ops s t"
  by (rule sched_ops_same_iff, simp add: sched_same_def)+

lemma sched_ops_calls [ops_simps]:
  "sched_ops s t \<Longrightarrow> e < SCHED_EVENT_COUNT \<Longrightarrow> sched_ops s (Sched_Add e d cb t)"
  "sched_ops s t \<Longrightarrow> sched_ops s (Sched_Remove e t)"
  by (simp_all add: ops_add ops_remove)

text \<open>The lower bound survives; the exact half survives unless it was already given up.\<close>

lemma sched_ops_bound: "sched_ops s t \<Longrightarrow> sched_bound s \<Longrightarrow> sched_bound t"
  by (induction rule: sched_ops.induct)
    (auto simp: Sched_Add_bound Sched_Remove_bound, auto simp: sched_same_def sched_bound_def)

lemma sched_ops_exact: "sched_ops s t \<Longrightarrow> sched_exact s \<Longrightarrow> sched_exact t"
  by (induction rule: sched_ops.induct)
    (auto simp: Sched_Add_exact Sched_Remove_exact, auto simp: sched_same_def sched_exact_def)

lemma sched_ops_ok: "sched_ops s t \<Longrightarrow> sched_ok s \<Longrightarrow> sched_ok t"
  by (auto simp: sched_ok_def sched_ops_bound sched_ops_exact)

text \<open>The loop invariant of a tick.\<close>

definition tick_inv :: "bool \<times> 'a sched_scheme \<Rightarrow> bool" where
  "tick_inv p \<longleftrightarrow> sched_bound (snd p) \<and> (sched_exact (snd p) \<or> fst p)"

locale sched_callbacks =
  fixes run :: "sched_cb \<Rightarrow> int \<Rightarrow> 'a sched_scheme \<Rightarrow> 'a sched_scheme"
  assumes run_ops: "sched_ops s (run cb late s)"
begin

lemma tick_slot_inv: "tick_inv p \<Longrightarrow> tick_inv (sched_tick_slot run now i p)"
proof -
  assume inv: "tick_inv p"
  obtain f s where p: "p = (f, s)" by (cases p)
  define s1 where "s1 = s\<lparr>sched_active := (sched_active s)(i := False)\<rparr>"
  have bound: "sched_bound s1"
    using inv p by (auto simp: tick_inv_def sched_bound_def s1_def)
  have exact: "sched_exact s1 \<or> f \<or> int i = sched_earliest_id s"
    using inv p by (auto simp: tick_inv_def sched_exact_def s1_def)
  have cb: "sched_ops s1 (case sched_callback s1 i of None \<Rightarrow> s1 | Some cb \<Rightarrow> run cb late s1)"
    for late by (cases "sched_callback s1 i") (auto intro: run_ops)
  show ?thesis
    using inv bound exact sched_ops_bound [OF cb] sched_ops_exact [OF cb]
    by (auto simp: sched_tick_slot_def p tick_inv_def Let_def s1_def [symmetric])
qed

lemma tick_loop_inv: "tick_inv p \<Longrightarrow> tick_inv (fold (sched_tick_slot run now) xs p)"
  by (induction xs arbitrary: p) (simp_all add: tick_slot_inv)

lemma tick_ok: "sched_ok s \<Longrightarrow> sched_ok (Sched_Tick run now s)"
  using tick_loop_inv [of "(False, s)" now "[0..<SCHED_EVENT_COUNT]"]
  by (auto simp: Sched_Tick_def tick_inv_def sched_ok_def case_prod_unfold Let_def)

end

text \<open>A tick before the cached deadline runs nothing.\<close>

lemma tick_slot_idle:
  "\<not> (sched_active s i \<and> sched_deadline s i \<le> now) \<Longrightarrow> sched_tick_slot run now i (f, s) = (f, s)"
  by (auto simp: sched_tick_slot_def)

lemma tick_loop_idle:
  "(\<And>i. i \<in> set xs \<Longrightarrow> \<not> (sched_active s i \<and> sched_deadline s i \<le> now)) \<Longrightarrow>
   fold (sched_tick_slot run now) xs (f, s) = (f, s)"
proof (induction xs)
  case (Cons x xs)
  then have "sched_tick_slot run now x (f, s) = (f, s)" by (intro tick_slot_idle) simp
  with Cons show ?case by simp
qed simp

lemma Sched_Tick_idle:
  assumes "sched_ok s" "now < sched_cached_earliest s"
  shows "Sched_Tick run now s = s"
proof -
  have "\<not> (sched_active s i \<and> sched_deadline s i \<le> now)" if "i \<in> set [0..<SCHED_EVENT_COUNT]" for i
    using assms that by (auto simp: sched_ok_def sched_bound_def not_le intro: less_le_trans)
  then have "fold (sched_tick_slot run now) [0..<SCHED_EVENT_COUNT] (False, s) = (False, s)"
    by (rule tick_loop_idle)
  then show ?thesis by (simp add: Sched_Tick_def)
qed

text \<open>
  A slot is due when it is active and its deadline has come. If every callback leaves due only slots
  that were due before, then a tick leaves no slot due.
\<close>

definition sched_due :: "u64 \<Rightarrow> 'a sched_scheme \<Rightarrow> nat \<Rightarrow> bool" where
  "sched_due now s i \<longleftrightarrow> sched_active s i \<and> sched_deadline s i \<le> now"

lemma tick_slot_due:
  assumes keeps: "\<And>cb late s i. sched_due now (run cb late s) i \<Longrightarrow> sched_due now s i"
    and due: "sched_due now (snd (sched_tick_slot run now i (f, s))) j"
  shows "j \<noteq> i \<and> sched_due now s j"
proof (cases "sched_due now s i")
  case False
  then show ?thesis using due by (auto simp: sched_tick_slot_def sched_due_def)
next
  case True
  define s1 where "s1 = s\<lparr>sched_active := (sched_active s)(i := False)\<rparr>"
  from due True have "sched_due now s1 j"
    by (auto simp: sched_tick_slot_def sched_due_def [of now s] Let_def s1_def [symmetric]
        split: option.splits dest: keeps)
  then show ?thesis by (auto simp: s1_def sched_due_def split: if_splits)
qed

lemma tick_loop_due:
  assumes keeps: "\<And>cb late s i. sched_due now (run cb late s) i \<Longrightarrow> sched_due now s i"
  shows "sched_due now (snd (fold (sched_tick_slot run now) xs p)) j \<Longrightarrow>
    j \<notin> set xs \<and> sched_due now (snd p) j"
proof (induction xs arbitrary: p)
  case (Cons x xs)
  obtain f s where p: "p = (f, s)" by (cases p)
  have "j \<notin> set xs \<and> sched_due now (snd (sched_tick_slot run now x p)) j"
    by (rule Cons.IH) (use Cons.prems in simp)
  then have "j \<notin> set xs" and "sched_due now (snd (sched_tick_slot run now x (f, s))) j"
    by (simp_all add: p)
  with tick_slot_due [of now run x f s j] keeps show ?case by (simp add: p)
qed simp

lemma Sched_Tick_none_due:
  assumes "\<And>cb late s i. sched_due now (run cb late s) i \<Longrightarrow> sched_due now s i"
    and "i < SCHED_EVENT_COUNT"
  shows "\<not> sched_due now (Sched_Tick run now s) i"
proof -
  define p where "p = fold (sched_tick_slot run now) [0..<SCHED_EVENT_COUNT] (False, s)"
  have "\<not> sched_due now (snd p) i"
    using tick_loop_due [of now run "[0..<SCHED_EVENT_COUNT]" "(False, s)" i] assms
    by (auto simp: p_def)
  then have "\<not> sched_due now (if fst p then sched_recompute_cached (snd p) else snd p) i"
    by (simp add: sched_due_def frame_simps)
  moreover have "Sched_Tick run now s = (if fst p then sched_recompute_cached (snd p) else snd p)"
    by (simp only: Sched_Tick_def p_def [symmetric] case_prod_unfold Let_def)
  ultimately show ?thesis by simp
qed

section \<open>Properties\<close>

text \<open>
  C1. The scheduler implements a finite map from events to deadlines with its minimum cached. Adding an
  event binds it to the deadline and the callback, replacing an earlier binding; removing it unbinds it;
  no other event is affected. The cached deadline has come exactly when some pending event is due, and
  it never precedes the moment at which nothing is due.
\<close>

theorem scheduler_refines_map:
  assumes "sched_ok s" and "e < SCHED_EVENT_COUNT" and "now < UINT64_MAX"
  shows "sched_pending (Sched_Add e d cb s) = (sched_pending s)(e \<mapsto> (d, Some cb)) \<and>
    sched_pending (Sched_Remove e s) = (sched_pending s)(e := None) \<and>
    sched_ok (Sched_Add e d cb s) \<and> sched_ok (Sched_Remove e s) \<and>
    (sched_cached_earliest s \<le> now \<longleftrightarrow> (\<exists>e d c. sched_pending s e = Some (d, c) \<and> d \<le> now)) \<and>
    (sched_pending s e = None \<longrightarrow>
       sched_cached_earliest (Sched_Add e d cb s) = min d (sched_cached_earliest s))"
  using sq.pending_add [OF assms(2)] sq.pending_remove sq.ok_add [OF assms(1,2)] sq.ok_remove [OF assms(1)]
    sq.due_iff [OF assms(1,3)] sq.earliest_add_fresh [OF assms(1,2)]
  by blast

text \<open>The scheduler after \<open>Sched_Init\<close>.\<close>

definition sched_zero :: sched where
  "sched_zero = \<lparr>sched_active = (\<lambda>_. False), sched_deadline = (\<lambda>_. 0), sched_callback = (\<lambda>_. None),
     global_cycles = 0, partial_block_cycles = 0, sched_cached_earliest = UINT64_MAX,
     sched_earliest_id = -1, sched_interrupt_chain = False\<rparr>"

lemma sched_zero_ok: "sched_ok sched_zero"
  using Sched_Init_ok [of sched_zero] by (simp add: Sched_Init_def sched_zero_def)

theorem scheduler_refines_map_witness:
  "sched_pending (Sched_Add 4 1000 CDROM_EventCallback sched_zero) 4 = Some (1000, Some CDROM_EventCallback) \<and>
   sched_cached_earliest (Sched_Add 4 1000 CDROM_EventCallback sched_zero) = 1000"
proof -
  have "sched_pending sched_zero 4 = None" "sched_cached_earliest sched_zero = UINT64_MAX"
    by (simp_all add: sched_pending_def sched_zero_def)
  moreover have "(4 :: nat) < SCHED_EVENT_COUNT" "(0 :: u64) < UINT64_MAX"
    by (simp_all add: sched_event_defs UINT64_MAX_def word_gt_0)
  ultimately show ?thesis
    using scheduler_refines_map [OF sched_zero_ok, of 4 0 1000 CDROM_EventCallback]
    by (auto simp: min_def)
qed

text \<open>
  Below the cached deadline a tick is the identity: the run loop may skip the scan of the slots
  whenever \<open>global_cycles\<close> has not reached it.
\<close>

theorem Sched_Tick_before_deadline:
  assumes "sched_ok s" "now < sched_cached_earliest s"
  shows "Sched_Tick run now s = s"
  using assms by (rule Sched_Tick_idle)

theorem Sched_Tick_before_deadline_witness:
  "Sched_Tick (\<lambda>_ _ s. s) 5 (sched_zero\<lparr>sched_interrupt_chain := True\<rparr>) =
   sched_zero\<lparr>sched_interrupt_chain := True\<rparr>"
  by (rule Sched_Tick_before_deadline)
    (use sched_zero_ok in \<open>simp_all add: sched_ok_def sched_bound_def sched_exact_def sched_zero_def UINT64_MAX_def\<close>)

end
