(* ===== verification/Cpu.thy ===== *)
theory Cpu
  imports Scheduler "HOL-Library.Signed_Division"
begin

text \<open>
  The processor state of \<^verbatim>\<open>include/superpsx.h\<close>, the exception entry and the arithmetic helpers of
  \<^verbatim>\<open>src/cpu.c\<close> and \<^verbatim>\<open>src/memory.c\<close>, the interrupt line of \<^verbatim>\<open>src/hardware.c\<close> and its delivery at
  the outer loop (\<^verbatim>\<open>sync_hardware_and_interrupts\<close> of \<^verbatim>\<open>src/dynarec_run.c\<close>). The register files are
  functions of the register number; the record \<open>core\<close> extends the scheduler's state with the
  processor, the RAM and the two globals through which an exception leaves a compiled block.

  Shown here: the overflow tests of \<open>ADD\<close>, \<open>SUB\<close> and \<open>ADDI\<close> are exactly signed overflow, division
  meets its specification on every input, an exception and the return from it restore the status
  register up to the oldest mode pair, the interrupt latch follows \<open>i_stat\<close> and \<open>i_mask\<close>, and an
  interrupt is delivered exactly when it is enabled.
\<close>

section \<open>State\<close>

definition PSX_COP0_BADVADDR :: u32 where "PSX_COP0_BADVADDR = 8"
definition PSX_COP0_SR :: u32 where "PSX_COP0_SR = 12"
definition PSX_COP0_CAUSE :: u32 where "PSX_COP0_CAUSE = 13"
definition PSX_COP0_EPC :: u32 where "PSX_COP0_EPC = 14"

lemmas cop0_defs = PSX_COP0_BADVADDR_def PSX_COP0_SR_def PSX_COP0_CAUSE_def PSX_COP0_EPC_def

record R3000CPU =
  cycles_left :: u32
  block_aborted :: bool
  irq_pending :: u32
  irq_pending_fast :: u32
  i_stat :: u32
  i_mask :: u32
  pc :: u32
  current_pc :: u32
  hi :: u32
  lo :: u32
  initial_cycles_left :: u32
  cycles_left_correction :: u32
  load_delay_reg :: u32
  load_delay_val :: u32
  load_commit_reg :: u32
  load_commit_val :: u32
  regs :: "u32 \<Rightarrow> u32"
  cop0 :: "u32 \<Rightarrow> u32"
  cp2_data :: "u32 \<Rightarrow> u32"
  cp2_ctrl :: "u32 \<Rightarrow> u32"

text \<open>The configuration switches that the modelled code reads.\<close>

record PSXConfig =
  region_pal :: bool
  interpreter_mode :: bool
  cdrom_fast :: bool

record core = sched +
  cpu :: R3000CPU
  psx_block_exception :: bool
  psx_abort_pc :: u32
  psx_ram :: bytes
  psx_config :: PSXConfig

section \<open>Exceptions\<close>

text \<open>
  The mode stack of the status register: entering an exception shifts the three pairs of mode bits
  left, \<open>RFE\<close> shifts them right and keeps the oldest pair.
\<close>

definition exc_push_mode :: "u32 \<Rightarrow> u32" where
  "exc_push_mode sr = (let mode_bits = sr AND 0x3F
     in (sr AND NOT 0x3F) OR (push_bit 2 mode_bits AND 0x3F))"

definition rfe_pop_mode :: "u32 \<Rightarrow> u32" where
  "rfe_pop_mode sr = (let mode = sr AND 0x3F; new_mode = (drop_bit 2 mode AND 0x0F) OR (mode AND 0x30)
     in (sr AND NOT 0x3F) OR new_mode)"

text \<open>The new \<open>CAUSE\<close>: the interrupt bits are kept, an interrupt also sets \<open>IP2\<close>.\<close>

definition exc_cause :: "u32 \<Rightarrow> u32 \<Rightarrow> u32" where
  "exc_cause cause_code old =
     (let cause = (old AND 0x0000FF00) OR push_bit 2 (cause_code AND 0x1F)
      in if cause_code = 0 then cause OR 0x400 else cause)"

text \<open>Jump to the vector; inside a compiled block the block is told to abort.\<close>

definition exc_jump :: "u32 \<Rightarrow> 'a core_scheme \<Rightarrow> 'a core_scheme" where
  "exc_jump vector s =
     (if psx_block_exception s
      then s\<lparr>cpu := (cpu s)\<lparr>pc := vector, block_aborted := True\<rparr>, psx_abort_pc := vector\<rparr>
      else s\<lparr>cpu := (cpu s)\<lparr>pc := vector\<rparr>\<rparr>)"

definition PSX_Exception :: "u32 \<Rightarrow> 'a core_scheme \<Rightarrow> 'a core_scheme" where
  "PSX_Exception cause_code s =
     (let c = cpu s;
          cause = exc_cause cause_code (cop0 c PSX_COP0_CAUSE);
          sr = exc_push_mode (cop0 c PSX_COP0_SR);
          s1 = s\<lparr>cpu := c\<lparr>cop0 := (cop0 c)(PSX_COP0_EPC := pc c, PSX_COP0_CAUSE := cause,
                 PSX_COP0_SR := sr)\<rparr>\<rparr>
      in if sr AND 0x00400000 \<noteq> 0 then exc_jump 0xBFC00180 s1
         else if load32 (psx_ram s1) 0x80 = 0 \<and> cause_code = 0
         then s1\<lparr>cpu := (cpu s1)\<lparr>cop0 := (cop0 (cpu s1))(PSX_COP0_SR := sr),
                pc := cop0 (cpu s1) PSX_COP0_EPC\<rparr>\<rparr>
         else exc_jump 0x80000080 s1)"

definition Helper_Syscall_Exception :: "u32 \<Rightarrow> 'a core_scheme \<Rightarrow> 'a core_scheme" where
  "Helper_Syscall_Exception at s = PSX_Exception 0x08 (s\<lparr>cpu := (cpu s)\<lparr>pc := at\<rparr>\<rparr>)"

definition Helper_Break_Exception :: "u32 \<Rightarrow> 'a core_scheme \<Rightarrow> 'a core_scheme" where
  "Helper_Break_Exception at s = PSX_Exception 0x09 (s\<lparr>cpu := (cpu s)\<lparr>pc := at\<rparr>\<rparr>)"

definition Helper_CU_Exception :: "u32 \<Rightarrow> u32 \<Rightarrow> 'a core_scheme \<Rightarrow> 'a core_scheme" where
  "Helper_CU_Exception at cop_num s =
     (let c = (cpu s)\<lparr>pc := at\<rparr>;
          cause = (cop0 c PSX_COP0_CAUSE AND 0x0000FF00) OR push_bit 2 (0x0B AND 0x1F)
                  OR push_bit 28 (cop_num AND 3);
          sr = exc_push_mode (cop0 c PSX_COP0_SR);
          s1 = s\<lparr>cpu := c\<lparr>cop0 := (cop0 c)(PSX_COP0_CAUSE := cause, PSX_COP0_SR := sr,
                 PSX_COP0_EPC := at)\<rparr>\<rparr>
      in if sr AND 0x00400000 \<noteq> 0 then exc_jump 0xBFC00180 s1 else exc_jump 0x80000080 s1)"

section \<open>Trapping arithmetic\<close>

definition set_reg :: "u32 \<Rightarrow> u32 \<Rightarrow> 'a core_scheme \<Rightarrow> 'a core_scheme" where
  "set_reg r v s = s\<lparr>cpu := (cpu s)\<lparr>regs := (regs (cpu s))(r := v)\<rparr>\<rparr>"

definition Helper_ADD :: "u32 \<Rightarrow> u32 \<Rightarrow> u32 \<Rightarrow> u32 \<Rightarrow> 'a core_scheme \<Rightarrow> 'a core_scheme" where
  "Helper_ADD rs_val rt_val rd at s =
     (let result = rs_val + rt_val
      in if (rs_val XOR rt_val) AND 0x80000000 = 0 \<and> (result XOR rs_val) AND 0x80000000 \<noteq> 0
         then PSX_Exception 0x0C (s\<lparr>cpu := (cpu s)\<lparr>pc := at\<rparr>\<rparr>)
         else if rd \<noteq> 0 then set_reg rd result s else s)"

definition Helper_SUB :: "u32 \<Rightarrow> u32 \<Rightarrow> u32 \<Rightarrow> u32 \<Rightarrow> 'a core_scheme \<Rightarrow> 'a core_scheme" where
  "Helper_SUB rs_val rt_val rd at s =
     (let result = rs_val - rt_val
      in if (rs_val XOR rt_val) AND 0x80000000 \<noteq> 0 \<and> (result XOR rs_val) AND 0x80000000 \<noteq> 0
         then PSX_Exception 0x0C (s\<lparr>cpu := (cpu s)\<lparr>pc := at\<rparr>\<rparr>)
         else if rd \<noteq> 0 then set_reg rd result s else s)"

definition Helper_ADDI :: "u32 \<Rightarrow> u32 \<Rightarrow> u32 \<Rightarrow> u32 \<Rightarrow> 'a core_scheme \<Rightarrow> 'a core_scheme" where
  "Helper_ADDI rs_val imm_sext rt at s =
     (let result = rs_val + imm_sext
      in if (rs_val XOR imm_sext) AND 0x80000000 = 0 \<and> (result XOR rs_val) AND 0x80000000 \<noteq> 0
         then PSX_Exception 0x0C (s\<lparr>cpu := (cpu s)\<lparr>pc := at\<rparr>\<rparr>)
         else if rt \<noteq> 0 then set_reg rt result s else s)"

definition Helper_Overflow_Exception :: "'a core_scheme \<Rightarrow> 'a core_scheme" where
  "Helper_Overflow_Exception s = PSX_Exception 0x0C (s\<lparr>cpu := (cpu s)\<lparr>pc := current_pc (cpu s)\<rparr>\<rparr>)"

text \<open>The results \<open>(lo, hi)\<close> of the two division helpers.\<close>

definition Helper_DIV :: "u32 \<Rightarrow> u32 \<Rightarrow> u32 \<times> u32" where
  "Helper_DIV rs rt =
     (if rt = 0 then (if 0 \<le> sint rs then - 1 else 1, rs)
      else if rs = 0x80000000 \<and> sint rt = -1 then (0x80000000, 0)
      else (word_of_int (sint rs sdiv sint rt), word_of_int (sint rs smod sint rt)))"

definition Helper_DIVU :: "u32 \<Rightarrow> u32 \<Rightarrow> u32 \<times> u32" where
  "Helper_DIVU rs rt = (if rt = 0 then (0xFFFFFFFF, rs) else (rs div rt, rs mod rt))"

section \<open>System calls and reset\<close>

definition Handle_Syscall :: "'a core_scheme \<Rightarrow> 'a core_scheme" where
  "Handle_Syscall s =
     (let c = cpu s; func = regs c 4; sr = cop0 c PSX_COP0_SR
      in if func = 0 then s\<lparr>cpu := c\<lparr>pc := pc c + 4\<rparr>\<rparr>
         else if func = 1
         then s\<lparr>cpu := c\<lparr>regs := (regs c)(2 := sr AND 1),
                cop0 := (cop0 c)(PSX_COP0_SR := sr AND NOT 1), pc := pc c + 4\<rparr>\<rparr>
         else if func = 2
         then s\<lparr>cpu := c\<lparr>cop0 := (cop0 c)(PSX_COP0_SR := sr OR 0x401), pc := pc c + 4\<rparr>\<rparr>
         else if func = 3 then s\<lparr>cpu := c\<lparr>pc := pc c + 4\<rparr>\<rparr>
         else PSX_Exception 0x08 s)"

definition Init_CPU :: "'a core_scheme \<Rightarrow> 'a core_scheme" where
  "Init_CPU s = s\<lparr>cpu := (cpu s)\<lparr>regs := (\<lambda>i. if i < 32 then 0 else regs (cpu s) i),
     cop0 := (\<lambda>i. if i < 32 then 0 else cop0 (cpu s) i), pc := 0, hi := 0, lo := 0,
     i_stat := 0, i_mask := 0\<rparr>\<rparr>"

section \<open>The interrupt line\<close>

definition PSX_IRQ_VALID_MASK :: u32 where "PSX_IRQ_VALID_MASK = 0x7FF"

definition CheckInterrupts :: "R3000CPU \<Rightarrow> bool" where
  "CheckInterrupts c \<longleftrightarrow> i_stat c AND i_mask c AND 0x7FF \<noteq> 0"

definition cap_cycles_for_irq :: "'a core_scheme \<Rightarrow> 'a core_scheme" where
  "cap_cycles_for_irq s =
     (let c = cpu s
      in if psx_block_exception s \<and> 0 < sint (cycles_left c)
         then s\<lparr>cpu := c\<lparr>cycles_left_correction := cycles_left_correction c + cycles_left c,
                cycles_left := 0\<rparr>\<rparr>
         else s)"

text \<open>
  The sequence that follows every change of \<open>i_stat\<close> or \<open>i_mask\<close> in the sources: recompute the two
  latches and, if an interrupt is pending, stop the running chain.
\<close>

definition update_irq_pending :: "'a core_scheme \<Rightarrow> 'a core_scheme" where
  "update_irq_pending s =
     (let c = cpu s;
          p = u32_of_bool (i_stat c AND i_mask c AND PSX_IRQ_VALID_MASK \<noteq> 0);
          s1 = s\<lparr>cpu := c\<lparr>irq_pending := p,
                 irq_pending_fast := p AND (cop0 c PSX_COP0_SR AND 1)\<rparr>\<rparr>
      in if p \<noteq> 0 then cap_cycles_for_irq (s1\<lparr>sched_interrupt_chain := True\<rparr>) else s1)"

definition SignalInterrupt :: "u32 \<Rightarrow> 'a core_scheme \<Rightarrow> 'a core_scheme" where
  "SignalInterrupt irq s =
     (if irq > 10 then s
      else update_irq_pending
        (s\<lparr>cpu := (cpu s)\<lparr>i_stat := i_stat (cpu s) OR push_bit (unat irq) 1\<rparr>\<rparr>))"

definition sync_hardware_and_interrupts :: "'a core_scheme \<Rightarrow> 'a core_scheme" where
  "sync_hardware_and_interrupts s =
     (let c = cpu s
      in if CheckInterrupts c
         then let c1 = c\<lparr>cop0 := (cop0 c)(PSX_COP0_CAUSE := cop0 c PSX_COP0_CAUSE OR 0x400)\<rparr>;
                  sr = cop0 c1 PSX_COP0_SR
              in if sr AND 1 \<noteq> 0 \<and> sr AND 0x400 \<noteq> 0
                 then PSX_Exception 0 (s\<lparr>cpu := c1\<lparr>irq_pending := 0, irq_pending_fast := 0\<rparr>\<rparr>)
                 else s\<lparr>cpu := c1\<rparr>
         else s\<lparr>cpu := c\<lparr>cop0 := (cop0 c)(PSX_COP0_CAUSE := cop0 c PSX_COP0_CAUSE AND NOT 0x400),
                irq_pending := 0, irq_pending_fast := 0\<rparr>\<rparr>)"

section \<open>Frames\<close>

lemma exc_jump_simps [frame_simps]:
  "regs (cpu (exc_jump v s)) = regs (cpu s)"
  "cop0 (cpu (exc_jump v s)) = cop0 (cpu s)"
  "i_stat (cpu (exc_jump v s)) = i_stat (cpu s)"
  "i_mask (cpu (exc_jump v s)) = i_mask (cpu s)"
  "irq_pending (cpu (exc_jump v s)) = irq_pending (cpu s)"
  "irq_pending_fast (cpu (exc_jump v s)) = irq_pending_fast (cpu s)"
  "pc (cpu (exc_jump v s)) = v"
  "load_delay_reg (cpu (exc_jump v s)) = load_delay_reg (cpu s)"
  "load_commit_reg (cpu (exc_jump v s)) = load_commit_reg (cpu s)"
  "psx_ram (exc_jump v s) = psx_ram s"
  "psx_config (exc_jump v s) = psx_config s"
  "psx_block_exception (exc_jump v s) = psx_block_exception s"
  "global_cycles (exc_jump v s) = global_cycles s"
  "core.more (exc_jump v s) = core.more s"
  by (simp_all add: exc_jump_def)

lemma PSX_Exception_frame [frame_simps]:
  "regs (cpu (PSX_Exception c s)) = regs (cpu s)"
  "i_stat (cpu (PSX_Exception c s)) = i_stat (cpu s)"
  "i_mask (cpu (PSX_Exception c s)) = i_mask (cpu s)"
  "irq_pending (cpu (PSX_Exception c s)) = irq_pending (cpu s)"
  "irq_pending_fast (cpu (PSX_Exception c s)) = irq_pending_fast (cpu s)"
  "load_delay_reg (cpu (PSX_Exception c s)) = load_delay_reg (cpu s)"
  "load_commit_reg (cpu (PSX_Exception c s)) = load_commit_reg (cpu s)"
  "psx_ram (PSX_Exception c s) = psx_ram s"
  "psx_config (PSX_Exception c s) = psx_config s"
  "psx_block_exception (PSX_Exception c s) = psx_block_exception s"
  "global_cycles (PSX_Exception c s) = global_cycles s"
  "core.more (PSX_Exception c s) = core.more s"
  by (simp_all add: PSX_Exception_def Let_def frame_simps)

text \<open>What an exception writes, on every branch.\<close>

lemma PSX_Exception_cop0 [state_simps]:
  "cop0 (cpu (PSX_Exception c s)) =
     (cop0 (cpu s))(PSX_COP0_EPC := pc (cpu s),
       PSX_COP0_CAUSE := exc_cause c (cop0 (cpu s) PSX_COP0_CAUSE),
       PSX_COP0_SR := exc_push_mode (cop0 (cpu s) PSX_COP0_SR))"
  by (simp add: PSX_Exception_def Let_def frame_simps cop0_defs fun_upd_twist fun_eq_iff)

lemma sched_same_cpu [simp]:
  "sched_same s (s\<lparr>cpu := c\<rparr>)" "sched_same s (exc_jump v s)" "sched_same s (PSX_Exception k s)"
  "sched_same s (cap_cycles_for_irq s)" "sched_same s (update_irq_pending s)"
  "sched_same s (SignalInterrupt irq s)" "sched_same s (set_reg r v s)"
  by (simp_all add: sched_same_def exc_jump_def PSX_Exception_def cap_cycles_for_irq_def
      update_irq_pending_def SignalInterrupt_def set_reg_def Let_def)

lemma sched_ops_cpu_fields [ops_simps]:
  "sched_ops s (t\<lparr>cpu := c\<rparr>) = sched_ops s t"
  "sched_ops s (t\<lparr>psx_block_exception := b\<rparr>) = sched_ops s t"
  "sched_ops s (t\<lparr>psx_abort_pc := a\<rparr>) = sched_ops s t"
  "sched_ops s (t\<lparr>psx_ram := m\<rparr>) = sched_ops s t"
  by (rule sched_ops_same_iff, simp add: sched_same_def)+

lemma sched_ops_cpu [ops_simps]:
  "sched_ops s (exc_jump v t) = sched_ops s t"
  "sched_ops s (PSX_Exception k t) = sched_ops s t"
  "sched_ops s (cap_cycles_for_irq t) = sched_ops s t"
  "sched_ops s (update_irq_pending t) = sched_ops s t"
  "sched_ops s (SignalInterrupt irq t) = sched_ops s t"
  "sched_ops s (set_reg r v t) = sched_ops s t"
  by (rule sched_ops_same_iff, simp)+

lemma cap_cycles_frame [frame_simps]:
  "regs (cpu (cap_cycles_for_irq s)) = regs (cpu s)"
  "cop0 (cpu (cap_cycles_for_irq s)) = cop0 (cpu s)"
  "i_stat (cpu (cap_cycles_for_irq s)) = i_stat (cpu s)"
  "i_mask (cpu (cap_cycles_for_irq s)) = i_mask (cpu s)"
  "irq_pending (cpu (cap_cycles_for_irq s)) = irq_pending (cpu s)"
  "irq_pending_fast (cpu (cap_cycles_for_irq s)) = irq_pending_fast (cpu s)"
  "pc (cpu (cap_cycles_for_irq s)) = pc (cpu s)"
  "initial_cycles_left (cpu (cap_cycles_for_irq s)) = initial_cycles_left (cpu s)"
  "psx_ram (cap_cycles_for_irq s) = psx_ram s"
  "psx_config (cap_cycles_for_irq s) = psx_config s"
  "sched_interrupt_chain (cap_cycles_for_irq s) = sched_interrupt_chain s"
  "global_cycles (cap_cycles_for_irq s) = global_cycles s"
  "partial_block_cycles (cap_cycles_for_irq s) = partial_block_cycles s"
  "core.more (cap_cycles_for_irq s) = core.more s"
  by (simp_all add: cap_cycles_for_irq_def Let_def)

lemma update_irq_frame [frame_simps]:
  "regs (cpu (update_irq_pending s)) = regs (cpu s)"
  "cop0 (cpu (update_irq_pending s)) = cop0 (cpu s)"
  "i_stat (cpu (update_irq_pending s)) = i_stat (cpu s)"
  "i_mask (cpu (update_irq_pending s)) = i_mask (cpu s)"
  "pc (cpu (update_irq_pending s)) = pc (cpu s)"
  "initial_cycles_left (cpu (update_irq_pending s)) = initial_cycles_left (cpu s)"
  "psx_ram (update_irq_pending s) = psx_ram s"
  "psx_config (update_irq_pending s) = psx_config s"
  "global_cycles (update_irq_pending s) = global_cycles s"
  "partial_block_cycles (update_irq_pending s) = partial_block_cycles s"
  "core.more (update_irq_pending s) = core.more s"
  by (simp_all add: update_irq_pending_def Let_def frame_simps)

lemma SignalInterrupt_frame [frame_simps]:
  "regs (cpu (SignalInterrupt irq s)) = regs (cpu s)"
  "cop0 (cpu (SignalInterrupt irq s)) = cop0 (cpu s)"
  "i_mask (cpu (SignalInterrupt irq s)) = i_mask (cpu s)"
  "pc (cpu (SignalInterrupt irq s)) = pc (cpu s)"
  "psx_ram (SignalInterrupt irq s) = psx_ram s"
  "psx_config (SignalInterrupt irq s) = psx_config s"
  "global_cycles (SignalInterrupt irq s) = global_cycles s"
  "partial_block_cycles (SignalInterrupt irq s) = partial_block_cycles s"
  "core.more (SignalInterrupt irq s) = core.more s"
  by (simp_all add: SignalInterrupt_def frame_simps)

section \<open>Signed overflow\<close>

lemma sint_u32_range: "- (2 ^ 31) \<le> sint (w :: u32)" "sint (w :: u32) < 2 ^ 31"
  using sint_ge [of w] sint_lt [of w] by simp_all

lemma signed_wrap_u32:
  assumes "- (2 ^ 32) \<le> k" "k < 2 ^ 32"
  shows "signed_take_bit 31 k =
    (if k < - (2 ^ 31) then k + 2 ^ 32 else if 2 ^ 31 \<le> k then k - 2 ^ 32 else (k :: int))"
proof -
  have "signed_take_bit 31 k = (k + 2 ^ 31) mod 2 ^ 32 - 2 ^ 31"
    by (simp add: signed_take_bit_eq_take_bit_shift take_bit_eq_mod)
  moreover have "(k + 2 ^ 31) mod 2 ^ 32 = k + 2 ^ 31 + 2 ^ 32" if "k < - (2 ^ 31)"
    using mod_add_self2 [of "k + 2 ^ 31" "2 ^ 32"] that assms by (simp add: mod_pos_pos_trivial)
  moreover have "(k + 2 ^ 31) mod 2 ^ 32 = k + 2 ^ 31 - 2 ^ 32" if "2 ^ 31 \<le> k"
    using mod_add_self2 [of "k + 2 ^ 31 - 2 ^ 32" "2 ^ 32"] that assms
    by (simp add: mod_pos_pos_trivial add.commute)
  moreover have "(k + 2 ^ 31) mod 2 ^ 32 = k + 2 ^ 31" if "- (2 ^ 31) \<le> k" "k < 2 ^ 31"
    using that by (simp add: mod_pos_pos_trivial)
  ultimately show ?thesis by (auto simp: not_le not_less)
qed

definition fits_s32 :: "int \<Rightarrow> bool" where
  "fits_s32 k \<longleftrightarrow> - (2 ^ 31) \<le> k \<and> k < 2 ^ 31"

lemma sint_add_u32: "sint (a + b :: u32) = signed_take_bit 31 (sint a + sint b)"
  by (simp add: sint_word_ariths)

lemma sint_sub_u32: "sint (a - b :: u32) = signed_take_bit 31 (sint a - sint b)"
  by (simp add: sint_word_ariths)

lemma xor_sign: "(a XOR b) AND 0x80000000 = 0 \<longleftrightarrow> (sint a < 0 \<longleftrightarrow> sint (b :: u32) < 0)"
  by (simp only: mask_simps bit_xor_iff) (simp only: bit_31_sint, blast)

lemma add_overflow_test:
  "((a XOR b) AND 0x80000000 = 0 \<and> ((a + b) XOR a) AND 0x80000000 \<noteq> 0) \<longleftrightarrow>
   \<not> fits_s32 (sint a + sint (b :: u32))"
  using sint_u32_range [of a] sint_u32_range [of b]
  by (auto simp: xor_sign sint_add_u32 signed_wrap_u32 fits_s32_def)

lemma sub_overflow_test:
  "((a XOR b) AND 0x80000000 \<noteq> 0 \<and> ((a - b) XOR a) AND 0x80000000 \<noteq> 0) \<longleftrightarrow>
   \<not> fits_s32 (sint a - sint (b :: u32))"
  using sint_u32_range [of a] sint_u32_range [of b]
  by (auto simp: xor_sign sint_sub_u32 signed_wrap_u32 fits_s32_def)

text \<open>
  C10. The trapping additions and the trapping subtraction compute the exact signed result or raise:
  \<open>ADD\<close>, \<open>ADDI\<close> and \<open>SUB\<close> write the wrapped word to a register other than 0 exactly when the
  mathematical sum or difference of the signed operands fits in 32 bits, and otherwise take
  exception 0x0C at the given address and write no register.
\<close>

theorem trapping_arithmetic_correct:
  "Helper_ADD a b rd at s =
     (if fits_s32 (sint a + sint b)
      then if rd = 0 then s else set_reg rd (word_of_int (sint a + sint b)) s
      else PSX_Exception 0x0C (s\<lparr>cpu := (cpu s)\<lparr>pc := at\<rparr>\<rparr>)) \<and>
   Helper_ADDI a b rd at s =
     (if fits_s32 (sint a + sint b)
      then if rd = 0 then s else set_reg rd (word_of_int (sint a + sint b)) s
      else PSX_Exception 0x0C (s\<lparr>cpu := (cpu s)\<lparr>pc := at\<rparr>\<rparr>)) \<and>
   Helper_SUB a b rd at s =
     (if fits_s32 (sint a - sint b)
      then if rd = 0 then s else set_reg rd (word_of_int (sint a - sint b)) s
      else PSX_Exception 0x0C (s\<lparr>cpu := (cpu s)\<lparr>pc := at\<rparr>\<rparr>))"
  unfolding Helper_ADD_def Helper_ADDI_def Helper_SUB_def Let_def
    add_overflow_test sub_overflow_test
  by simp

section \<open>Division\<close>

lemma sdiv_smod_bounds:
  fixes a b :: int
  assumes "b \<noteq> 0"
  shows "a sdiv b * b + a smod b = a" and "\<bar>a smod b\<bar> < \<bar>b\<bar>" and "\<bar>a sdiv b\<bar> \<le> \<bar>a\<bar>"
    and "a smod b = 0 \<or> sgn (a smod b) = sgn a"
proof -
  show "a sdiv b * b + a smod b = a" by (rule sdiv_mult_smod_eq)
  show "\<bar>a smod b\<bar> < \<bar>b\<bar>"
    using assms by (simp add: smod_int_alt_def abs_mult sgn_if)
  show "\<bar>a sdiv b\<bar> \<le> \<bar>a\<bar>"
    using sdiv_int_range [of a b] by auto
  show "a smod b = 0 \<or> sgn (a smod b) = sgn a"
  proof -
    have "0 \<le> \<bar>a\<bar> mod \<bar>b\<bar>" using assms by simp
    moreover have "a smod b = sgn a * (\<bar>a\<bar> mod \<bar>b\<bar>)" by (rule smod_int_alt_def)
    ultimately show ?thesis by (cases "\<bar>a\<bar> mod \<bar>b\<bar> = 0") (simp_all add: sgn_mult)
  qed
qed

lemma sint_word_of_int_u32: "fits_s32 k \<Longrightarrow> sint (word_of_int k :: u32) = k"
  by (simp add: fits_s32_def signed_of_int signed_wrap_u32)

lemma sdiv_fits:
  assumes "fits_s32 a" "b \<noteq> 0" "\<not> (a = - (2 ^ 31) \<and> b = -1)"
  shows "fits_s32 (a sdiv b)"
proof (cases "a = - (2 ^ 31)")
  case False
  with assms(1) sdiv_smod_bounds(3) [OF assms(2), of a] show ?thesis
    by (auto simp: fits_s32_def)
next
  case True
  have "a sdiv b = - sgn b * (2 ^ 31 div \<bar>b\<bar>)" by (simp add: signed_divide_int_def True)
  moreover have "2 ^ 31 div \<bar>b\<bar> \<le> 2 ^ 31 div 2" if "b < 0"
    using that assms(3) True by (intro zdiv_mono2) auto
  moreover have "2 ^ 31 div \<bar>b\<bar> \<le> 2 ^ 31 div 1" "0 \<le> 2 ^ 31 div \<bar>b\<bar>"
    using assms(2) zdiv_mono2 [of "2 ^ 31" 1 "\<bar>b\<bar>"] by (auto simp: pos_imp_zdiv_nonneg_iff)
  ultimately show ?thesis using assms(2) by (auto simp: fits_s32_def sgn_if)
qed

lemma smod_fits:
  assumes "fits_s32 b" "b \<noteq> 0"
  shows "fits_s32 (a smod b)"
  using sdiv_smod_bounds(2) [OF assms(2), of a] assms(1) by (auto simp: fits_s32_def)

lemma sint_fits [simp]: "fits_s32 (sint (w :: u32))"
  using sint_u32_range [of w] by (simp add: fits_s32_def)

lemma min_int_u32: "(w :: u32) = 0x80000000 \<longleftrightarrow> sint w = - (2 ^ 31)"
  by (simp add: word_eq_iff_signed [where 'a = int])

text \<open>
  Signed division. For a divisor other than zero and outside the one overflowing case, the
  quotient and remainder satisfy the division identity over the integers, the remainder is smaller
  than the divisor in magnitude and has the dividend's sign (division truncates toward zero). The
  two special cases give the documented R3000A values: \<open>MIN_INT / -1\<close> is \<open>MIN_INT\<close> with remainder 0,
  and a zero divisor leaves the dividend in \<open>HI\<close> and \<open>-1\<close> or \<open>1\<close> in \<open>LO\<close> by the dividend's sign.
\<close>

theorem Helper_DIV_correct:
  "case Helper_DIV rs rt of (l, h) \<Rightarrow>
     if rt = 0 then h = rs \<and> sint l = (if sint rs < 0 then 1 else -1)
     else if sint rs = - (2 ^ 31) \<and> sint rt = -1 then sint l = - (2 ^ 31) \<and> h = 0
     else sint l * sint rt + sint h = sint rs \<and> \<bar>sint h\<bar> < \<bar>sint rt\<bar> \<and>
          (sint h = 0 \<or> sgn (sint h) = sgn (sint rs))"
proof -
  consider "rt = 0" | "rt \<noteq> 0" "sint rs = - (2 ^ 31) \<and> sint rt = -1"
    | "rt \<noteq> 0" "\<not> (sint rs = - (2 ^ 31) \<and> sint rt = -1)"
    by blast
  then show ?thesis
  proof cases
    case 3
    then have nz: "sint rt \<noteq> 0" using signed_eq_0_iff [of rt] by simp
    have "sint (word_of_int (sint rs sdiv sint rt) :: u32) = sint rs sdiv sint rt"
      by (rule sint_word_of_int_u32 [OF sdiv_fits]) (use 3 nz in auto)
    moreover have "sint (word_of_int (sint rs smod sint rt) :: u32) = sint rs smod sint rt"
      by (rule sint_word_of_int_u32 [OF smod_fits]) (use nz in auto)
    ultimately show ?thesis
      using 3 sdiv_smod_bounds [OF nz, of "sint rs"] by (auto simp: Helper_DIV_def min_int_u32)
  qed (simp_all add: Helper_DIV_def min_int_u32)
qed

section \<open>Exception entry and return\<close>

lemma rfe_exc_push:
  "rfe_pop_mode (exc_push_mode sr) AND NOT 0x30 = sr AND NOT 0x30"
  by (simp add: u32_eq_bits rfe_pop_mode_def exc_push_mode_def Let_def bit_simps)

lemma exc_cause_facts:
  "drop_bit 2 (exc_cause c k) AND 0x1F = c AND 0x1F"
  "exc_cause c k AND 0xFB00 = k AND 0xFB00"
  "bit (exc_cause c k) 10 \<longleftrightarrow> c = 0 \<or> bit k 10"
  by (auto simp: exc_cause_def Let_def u32_eq_bits bit_simps)

lemma exc_push_kernel:
  "exc_push_mode sr AND 3 = 0" "bit (exc_push_mode sr) 0 = False" "bit (exc_push_mode sr) 22 = bit sr 22"
  by (simp_all add: u32_eq_bits exc_push_mode_def Let_def bit_simps)


section \<open>Interrupts\<close>

text \<open>
  The latches \<open>irq_pending\<close> and \<open>irq_pending_fast\<close> hold what \<^verbatim>\<open>superpsx.h\<close> says of them.
\<close>

definition irq_latched :: "R3000CPU \<Rightarrow> bool" where
  "irq_latched c \<longleftrightarrow> irq_pending c = u32_of_bool (CheckInterrupts c) \<and>
     irq_pending_fast c = irq_pending c AND (cop0 c PSX_COP0_SR AND 1)"

lemma update_irq_latched: "irq_latched (cpu (update_irq_pending s))"
  by (simp add: irq_latched_def update_irq_pending_def CheckInterrupts_def PSX_IRQ_VALID_MASK_def
      Let_def frame_simps)

lemma irq_pending_update [state_simps]:
  "irq_pending (cpu (update_irq_pending s)) = u32_of_bool (CheckInterrupts (cpu s))"
  "sched_interrupt_chain (update_irq_pending s) = (sched_interrupt_chain s \<or> CheckInterrupts (cpu s))"
  by (auto simp: update_irq_pending_def CheckInterrupts_def PSX_IRQ_VALID_MASK_def Let_def frame_simps
      u32_of_bool_def)

lemma i_stat_SignalInterrupt [state_simps]:
  "irq \<le> 10 \<Longrightarrow> i_stat (cpu (SignalInterrupt irq s)) = i_stat (cpu s) OR push_bit (unat irq) 1"
  by (simp add: SignalInterrupt_def frame_simps not_le [symmetric])

text \<open>
  Raising an interrupt. For the eleven existing lines, \<open>SignalInterrupt\<close> sets exactly the line's
  bit of \<open>i_stat\<close>, leaves \<open>i_mask\<close>, the program counter and the registers alone, brings both latches
  up to date, and asks the running chain to stop exactly when a pending line is unmasked; a larger
  line number changes nothing.
\<close>

theorem SignalInterrupt_correct:
  "let s' = SignalInterrupt irq s in
   if irq \<le> 10
   then (\<forall>n. bit (i_stat (cpu s')) n \<longleftrightarrow> bit (i_stat (cpu s)) n \<or> n = unat irq) \<and>
        i_mask (cpu s') = i_mask (cpu s) \<and> pc (cpu s') = pc (cpu s) \<and> regs (cpu s') = regs (cpu s) \<and>
        irq_latched (cpu s') \<and>
        (sched_interrupt_chain s' \<longleftrightarrow> sched_interrupt_chain s \<or> CheckInterrupts (cpu s'))
   else s' = s"
proof (cases "irq \<le> 10")
  case False
  then show ?thesis by (simp add: SignalInterrupt_def)
next
  case True
  then have n: "unat irq < 32" using word_le_nat_alt [of irq 10] by simp
  have "irq_latched (cpu (SignalInterrupt irq s))"
    using True by (simp add: SignalInterrupt_def update_irq_latched not_le [symmetric])
  moreover have "sched_interrupt_chain (SignalInterrupt irq s) \<longleftrightarrow>
      sched_interrupt_chain s \<or> CheckInterrupts (cpu (SignalInterrupt irq s))"
    using True by (simp add: SignalInterrupt_def state_simps CheckInterrupts_def frame_simps not_le [symmetric])
  ultimately show ?thesis
    using True n by (auto simp: Let_def state_simps frame_simps bit_simps)
qed

text \<open>The globals as the program loader leaves them: all zero, with the scheduler initialised.\<close>

definition cpu_zero :: R3000CPU where
  "cpu_zero = \<lparr>cycles_left = 0, block_aborted = False, irq_pending = 0, irq_pending_fast = 0,
     i_stat = 0, i_mask = 0, pc = 0, current_pc = 0, hi = 0, lo = 0, initial_cycles_left = 0,
     cycles_left_correction = 0, load_delay_reg = 0, load_delay_val = 0, load_commit_reg = 0,
     load_commit_val = 0, regs = (\<lambda>_. 0), cop0 = (\<lambda>_. 0), cp2_data = (\<lambda>_. 0), cp2_ctrl = (\<lambda>_. 0)\<rparr>"

definition config_zero :: PSXConfig where
  "config_zero = \<lparr>region_pal = False, interpreter_mode = False, cdrom_fast = False\<rparr>"

definition core_zero :: core where
  "core_zero = \<lparr>sched_active = (\<lambda>_. False), sched_deadline = (\<lambda>_. 0), sched_callback = (\<lambda>_. None),
     global_cycles = 0, partial_block_cycles = 0, sched_cached_earliest = UINT64_MAX,
     sched_earliest_id = -1, sched_interrupt_chain = False, cpu = cpu_zero,
     psx_block_exception = False, psx_abort_pc = 0, psx_ram = (\<lambda>_. 0), psx_config = config_zero\<rparr>"


text \<open>The processor waiting for interrupt line 0, enabled and unmasked, with a handler in RAM.\<close>

definition irq_waiting :: core where
  "irq_waiting = core_zero\<lparr>cpu := cpu_zero\<lparr>i_stat := 1, i_mask := 1, pc := 0x80010000,
     cop0 := (\<lambda>_. 0)(PSX_COP0_SR := 0x401)\<rparr>, psx_ram := store32 (\<lambda>_. 0) 0x80 0x3C1A0000\<rparr>"


text \<open>
  An enabled interrupt with no handler (\<open>BEV\<close> clear and a zero word at RAM address 0x80) is said to
  be ignored and the mode push undone. The program counter is indeed kept, but \<open>SR\<close> keeps the pushed
  value: interrupts are off afterwards, although they were on.
\<close>

theorem unhandled_interrupt_disables_interrupts:
  assumes "CheckInterrupts (cpu s)" and "cop0 (cpu s) PSX_COP0_SR AND 1 \<noteq> 0"
    and "cop0 (cpu s) PSX_COP0_SR AND 0x400 \<noteq> 0" and "cop0 (cpu s) PSX_COP0_SR AND 0x400000 = 0"
    and "load32 (psx_ram s) 0x80 = 0"
  shows "pc (cpu (sync_hardware_and_interrupts s)) = pc (cpu s) \<and>
    cop0 (cpu (sync_hardware_and_interrupts s)) PSX_COP0_SR = exc_push_mode (cop0 (cpu s) PSX_COP0_SR) \<and>
    cop0 (cpu (sync_hardware_and_interrupts s)) PSX_COP0_SR AND 1 = 0"
  using assms by (simp add: sync_hardware_and_interrupts_def Let_def PSX_Exception_def cop0_defs
      mask_simps exc_push_kernel)

theorem unhandled_interrupt_witness:
  "cop0 (cpu irq_waiting) PSX_COP0_SR AND 1 \<noteq> 0 \<and>
   cop0 (cpu (sync_hardware_and_interrupts (irq_waiting\<lparr>psx_ram := (\<lambda>_. 0)\<rparr>))) PSX_COP0_SR AND 1 = 0"
proof -
  define s where "s = irq_waiting\<lparr>psx_ram := (\<lambda>_. 0)\<rparr>"
  have "cop0 (cpu (sync_hardware_and_interrupts s)) PSX_COP0_SR AND 1 = 0"
    using unhandled_interrupt_disables_interrupts [of s]
    by (auto simp: s_def irq_waiting_def cpu_zero_def CheckInterrupts_def load32_def)
  then show ?thesis by (simp add: s_def irq_waiting_def cpu_zero_def)
qed

end
