(* ===== verification/Timers.thy ===== *)
theory Timers
  imports Cpu
begin

text \<open>
  The three root counters of \<^verbatim>\<open>src/timers.c\<close>. A counter is not advanced cycle by cycle:
  \<open>Timer_SyncValue\<close> brings it up to the present when it is read, written or when its scheduled event
  fires. The model keeps the C integer widths, so the casts and wrap-arounds are the code's own.

  Shown here: the closed-form count of visible cycles is the number of cycles whose phase in the
  scanline is visible; synchronising twice gives the counter, the time stamp and the fractional
  dot-clock residue of synchronising once, so reading a counter does not disturb it; the counter stays
  in its range; and the event scheduled for a target is late enough for the interrupt to be raised.
\<close>

section \<open>State\<close>

definition CYCLES_PER_HBLANK_NTSC :: u32 where "CYCLES_PER_HBLANK_NTSC = 2173"
definition CYCLES_PER_HBLANK_PAL :: u32 where "CYCLES_PER_HBLANK_PAL = 2168"
definition SCANLINES_PER_FRAME :: u32 where "SCANLINES_PER_FRAME = 263"
definition SCANLINES_PER_FRAME_PAL :: u32 where "SCANLINES_PER_FRAME_PAL = 314"
definition VBLANK_START_SCANLINE_NTSC :: u32 where "VBLANK_START_SCANLINE_NTSC = 240"
definition VBLANK_START_SCANLINE_PAL :: u32 where "VBLANK_START_SCANLINE_PAL = 288"

lemmas timing_defs = CYCLES_PER_HBLANK_NTSC_def CYCLES_PER_HBLANK_PAL_def SCANLINES_PER_FRAME_def
  SCANLINES_PER_FRAME_PAL_def VBLANK_START_SCANLINE_NTSC_def VBLANK_START_SCANLINE_PAL_def

record PsxTimer =
  tvalue :: u32
  tmode :: u32
  ttarget :: u32
  last_sync_cycle :: u64

record timer_globals =
  timers :: "nat \<Rightarrow> PsxTimer"
  timer_stopped_cache :: "nat \<Rightarrow> bool"
  timer_divider_cache :: "nat \<Rightarrow> u32"
  timer_irq_fired :: "nat \<Rightarrow> bool"
  timer_mode_set_cycle :: "nat \<Rightarrow> u64"
  timer0_dotclock_num :: u32
  timer0_dotclock_residue :: u32
  hblank_visible_cycles :: u32
  timer_sync_mode3_freed :: "nat \<Rightarrow> bool"

text \<open>
  The counters also read the start of the current frame, which the scanline event keeps, and the
  horizontal resolution in the status word of the graphics chip.
\<close>

record tmachine = core +
  tmr :: timer_globals
  hblank_frame_start_cycle :: u64
  gpu_stat :: u32

definition EFFECTIVE_CYCLES :: "'a core_scheme \<Rightarrow> u64" where
  "EFFECTIVE_CYCLES s = global_cycles s + ucast (initial_cycles_left (cpu s) - cycles_left (cpu s)) +
     ucast (partial_block_cycles s)"

definition cycles_per_hblank :: "PSXConfig \<Rightarrow> u32" where
  "cycles_per_hblank c = (if region_pal c then CYCLES_PER_HBLANK_PAL else CYCLES_PER_HBLANK_NTSC)"

definition set_timer :: "nat \<Rightarrow> PsxTimer \<Rightarrow> timer_globals \<Rightarrow> timer_globals" where
  "set_timer t x g = g\<lparr>timers := (timers g)(t := x)\<rparr>"

section \<open>Visible cycles\<close>

definition count_active_cycles_hblank :: "u32 \<Rightarrow> u32 \<Rightarrow> u64 \<Rightarrow> u64 \<Rightarrow> u64 \<Rightarrow> u32" where
  "count_active_cycles_hblank cps vis frame_start from to =
     (let elapsed = to - from
      in if elapsed = 0 \<or> cps = 0 then 0
         else let phase = (ucast ((from - frame_start) mod ucast cps) :: u32);
                  remaining = (ucast elapsed :: u32);
                  scanline_remaining = cps - phase
              in if remaining \<le> scanline_remaining
                 then if phase < vis
                      then let vis_remain = vis - phase
                           in if remaining < vis_remain then remaining else vis_remain
                      else 0
                 else let active = (if phase < vis then vis - phase else 0);
                          remaining1 = remaining - scanline_remaining;
                          full_scanlines = remaining1 div cps;
                          active1 = active + full_scanlines * vis;
                          remaining2 = remaining1 - full_scanlines * cps
                      in active1 + (if remaining2 < vis then remaining2 else vis))"

section \<open>Caches of the mode register\<close>

definition disp_hres368 :: "u32 \<Rightarrow> u32" where "disp_hres368 stat = drop_bit 16 stat AND 1"
definition disp_hres :: "u32 \<Rightarrow> u32" where "disp_hres stat = drop_bit 17 stat AND 3"

text \<open>The divider and the numerator of the dot clock, by resolution.\<close>

definition dotclock_of :: "u32 \<Rightarrow> u32 \<times> u32" where
  "dotclock_of stat =
     (if disp_hres368 stat \<noteq> 0 then (4, 49)
      else if disp_hres stat = 0 then (7, 70)
      else if disp_hres stat = 1 then (5, 56)
      else if disp_hres stat = 2 then (3, 35)
      else if disp_hres stat = 3 then (3, 28)
      else (5, 56))"

definition timer_update_divider_cache :: "nat \<Rightarrow> 'a tmachine_scheme \<Rightarrow> 'a tmachine_scheme" where
  "timer_update_divider_cache t s =
     (if t > 2 then s
      else let g = tmr s; src = drop_bit 8 (tmode (timers g t)) AND 3
           in if t = 0 \<and> (src = 1 \<or> src = 3)
              then let (div0, num) = dotclock_of (gpu_stat s)
                   in s\<lparr>tmr := g\<lparr>timer_divider_cache := (timer_divider_cache g)(0 := div0),
                        timer0_dotclock_num := num, timer0_dotclock_residue := 0\<rparr>\<rparr>
              else let g1 = (if t = 0 then g\<lparr>timer0_dotclock_num := 0\<rparr> else g);
                       d = (if t = 1 \<and> (src = 1 \<or> src = 3) then cycles_per_hblank (psx_config s) - 1
                            else if t = 2 \<and> (src = 2 \<or> src = 3) then 8
                            else 1)
                   in s\<lparr>tmr := g1\<lparr>timer_divider_cache := (timer_divider_cache g1)(t := d)\<rparr>\<rparr>)"

definition timer_update_stopped_cache :: "nat \<Rightarrow> 'a tmachine_scheme \<Rightarrow> 'a tmachine_scheme" where
  "timer_update_stopped_cache t s =
     (if t > 2 then s
      else let g = tmr s; mode = tmode (timers g t); sync_mode = drop_bit 1 mode AND 3;
               st = (mode AND 1 \<noteq> 0 \<and> t = 2 \<and> (sync_mode = 0 \<or> sync_mode = 3))
           in s\<lparr>tmr := g\<lparr>timer_stopped_cache := (timer_stopped_cache g)(t := st)\<rparr>\<rparr>)"

section \<open>Synchronisation\<close>

text \<open>
  The sync-mode preludes. The result is \<open>None\<close> when the C function returns at once, otherwise the
  cycles that the rest of the function is to count.
\<close>

text \<open>Counter 0 restarted: its value and the fractional residue are cleared.\<close>

definition timer0_restart :: "timer_globals \<Rightarrow> timer_globals" where
  "timer0_restart g =
     (let g1 = set_timer 0 ((timers g 0)\<lparr>tvalue := 0\<rparr>) g
      in if timer0_dotclock_num g1 > 0 then g1\<lparr>timer0_dotclock_residue := 0\<rparr> else g1)"

definition timer0_hblank_sync :: "u32 \<Rightarrow> u64 \<Rightarrow> u64 \<Rightarrow> timer_globals \<Rightarrow> u64 option \<times> timer_globals" where
  "timer0_hblank_sync cps frame_start now g =
     (let x = timers g 0;
          elapsed = now - last_sync_cycle x;
          sync_mode = drop_bit 1 (tmode x) AND 3;
          vis = hblank_visible_cycles g;
          frame_offs_from = last_sync_cycle x - frame_start;
          frame_offs_to = now - frame_start;
          phase_from = (ucast (frame_offs_from mod ucast cps) :: u32);
          phase_to = (ucast (frame_offs_to mod ucast cps) :: u32);
          scan_from = (ucast (frame_offs_from div ucast cps) :: u32);
          scan_to = (ucast (frame_offs_to div ucast cps) :: u32);
          hblank_crossed = (scan_to > scan_from \<or> scan_to = scan_from \<and> phase_from < vis \<and> phase_to \<ge> vis)
      in if sync_mode = 0
         then (Some (ucast (count_active_cycles_hblank cps vis frame_start (last_sync_cycle x) now)), g)
         else if sync_mode = 1
         then if hblank_crossed
              then let last_hblank =
                     (if phase_to \<ge> vis then frame_start + ucast scan_to * ucast cps + ucast vis
                      else if scan_to > 0 then frame_start + ucast (scan_to - 1) * ucast cps + ucast vis
                      else last_sync_cycle x)
                   in (Some (now - last_hblank), timer0_restart g)
              else (Some elapsed, g)
         else if sync_mode = 2
         then let g1 = timer0_restart g
              in if phase_to \<ge> vis
                 then (Some (now - (frame_start + ucast scan_to * ucast cps + ucast vis)), g1)
                 else (None, set_timer 0 ((timers g1 0)\<lparr>last_sync_cycle := now\<rparr>) g1)
         else if timer_sync_mode3_freed g 0 then (Some elapsed, g)
         else if hblank_crossed
         then let first_hblank =
                (if phase_from < vis then frame_start + ucast scan_from * ucast cps + ucast vis
                 else frame_start + ucast (scan_from + 1) * ucast cps + ucast vis)
              in (Some (now - first_hblank),
                  timer0_restart (g\<lparr>timer_sync_mode3_freed := (timer_sync_mode3_freed g)(0 := True)\<rparr>))
         else (None, set_timer 0 (x\<lparr>last_sync_cycle := now\<rparr>) g))"

definition timer1_vblank_sync :: "PSXConfig \<Rightarrow> u64 \<Rightarrow> u64 \<Rightarrow> timer_globals \<Rightarrow> u64 option \<times> timer_globals" where
  "timer1_vblank_sync cfg frame_start now g =
     (let x = timers g 1;
          elapsed = now - last_sync_cycle x;
          sync_mode = drop_bit 1 (tmode x) AND 3;
          cps = cycles_per_hblank cfg;
          vblank_sl = (if region_pal cfg then VBLANK_START_SCANLINE_PAL else VBLANK_START_SCANLINE_NTSC);
          scanlines = (if region_pal cfg then SCANLINES_PER_FRAME_PAL else SCANLINES_PER_FRAME);
          cpf = scanlines * cps;
          frame_offset = now - frame_start;
          frame_phase = (ucast (frame_offset mod ucast cpf) :: u32);
          vblank_start_cycle = vblank_sl * cps;
          in_vblank = (frame_phase \<ge> vblank_start_cycle)
      in if sync_mode = 0
         then if in_vblank then (None, set_timer 1 (x\<lparr>last_sync_cycle := now\<rparr>) g) else (Some elapsed, g)
         else if sync_mode = 1
         then let from_frame = last_sync_cycle x - frame_start;
                  from_phase = (ucast (from_frame mod ucast cpf) :: u32);
                  vblank_crossed = (elapsed \<ge> ucast cpf \<or>
                    from_phase < vblank_start_cycle \<and> frame_phase \<ge> vblank_start_cycle \<or>
                    frame_phase < from_phase)
              in if vblank_crossed
                 then let frames_elapsed = frame_offset div ucast cpf;
                          vb = frame_start + frames_elapsed * ucast cpf + ucast vblank_start_cycle;
                          vb_start = (if vb > now then vb - ucast cpf else vb)
                      in (Some (now - vb_start), set_timer 1 (x\<lparr>tvalue := 0\<rparr>) g)
                 else (Some elapsed, g)
         else if sync_mode = 2
         then if \<not> in_vblank then (None, set_timer 1 (x\<lparr>tvalue := 0, last_sync_cycle := now\<rparr>) g)
              else (Some elapsed, g)
         else if timer_sync_mode3_freed g 1 then (Some elapsed, g)
         else if in_vblank \<or> now - timer_mode_set_cycle g 1 \<ge> ucast cpf
         then (Some elapsed, set_timer 1 (x\<lparr>tvalue := 0, last_sync_cycle := now\<rparr>)
                 (g\<lparr>timer_sync_mode3_freed := (timer_sync_mode3_freed g)(1 := True)\<rparr>))
         else (None, set_timer 1 (x\<lparr>last_sync_cycle := now\<rparr>) g))"

text \<open>The ticks in the elapsed cycles, and the new time stamp and residue.\<close>

definition timer_take_ticks :: "nat \<Rightarrow> u64 \<Rightarrow> u64 \<Rightarrow> timer_globals \<Rightarrow> u32 \<times> timer_globals" where
  "timer_take_ticks t now elapsed g =
     (if t = 0 \<and> timer0_dotclock_num g > 0
      then let sub11 = elapsed * 11 + ucast (timer0_dotclock_residue g);
               num = timer0_dotclock_num g;
               ticks = (ucast (sub11 div ucast num) :: u32);
               consumed_sub11 = ucast ticks * ucast num;
               remaining_sub11 = (ucast (sub11 - consumed_sub11) :: u32)
           in (ticks,
               (set_timer 0 ((timers g 0)\<lparr>last_sync_cycle := now - ucast (remaining_sub11 div 11)\<rparr>) g)
                 \<lparr>timer0_dotclock_residue := remaining_sub11 mod 11\<rparr>)
      else let divider = timer_divider_cache g t;
               ticks = (ucast (elapsed div ucast divider) :: u32)
           in (ticks,
               set_timer t ((timers g t)\<lparr>last_sync_cycle :=
                 last_sync_cycle (timers g t) + ucast ticks * ucast divider\<rparr>) g))"

text \<open>The counter after \<open>ticks > 0\<close> ticks: the timer, whether it met its target, whether it overflowed.\<close>

definition timer_count :: "u32 \<Rightarrow> PsxTimer \<Rightarrow> PsxTimer \<times> bool \<times> bool" where
  "timer_count ticks x =
     (let mode = tmode x;
          val = tvalue x AND 0xFFFF;
          target = ttarget x AND 0xFFFF;
          new_val = val + ticks
      in if mode AND 8 \<noteq> 0 \<and> target > 0
         then let wrapped_target = (val < target \<and> new_val \<ge> target \<or> val = target + 1 \<and> ticks > target);
                  wrapped_overflow = (new_val > target \<and> target \<ge> 0xFFFF \<and> new_val > 0xFFFF);
                  m1 = (if wrapped_target then mode OR 0x800 else mode);
                  m2 = (if wrapped_overflow then m1 OR 0x1000 else m1)
              in (x\<lparr>tvalue := (if new_val > target then new_val mod (target + 2) else new_val), tmode := m2\<rparr>,
                  wrapped_target, wrapped_overflow)
         else let wrapped_target = (target > 0 \<and> val < target \<and> new_val \<ge> target);
                  wrapped_overflow = (new_val > 0xFFFF);
                  m1 = (if wrapped_target then mode OR 0x800 else mode);
                  m2 = (if wrapped_overflow then m1 OR 0x1000 else m1);
                  new_val1 = (if wrapped_overflow then new_val - 0x10000 else new_val)
              in (x\<lparr>tvalue := new_val1 AND 0xFFFF, tmode := m2\<rparr>, wrapped_target, wrapped_overflow))"

definition timer_fire :: "nat \<Rightarrow> 'a tmachine_scheme \<Rightarrow> 'a tmachine_scheme" where
  "timer_fire t s = (SignalInterrupt (4 + of_nat t) s)
     \<lparr>tmr := (tmr s)\<lparr>timer_irq_fired := (timer_irq_fired (tmr s))(t := True)\<rparr>\<rparr>"

text \<open>The tail of the C function, with the mode register read at its start.\<close>

definition timer_apply_ticks :: "nat \<Rightarrow> u32 \<Rightarrow> u32 \<Rightarrow> 'a tmachine_scheme \<Rightarrow> 'a tmachine_scheme" where
  "timer_apply_ticks t mode ticks s =
     (if ticks = 0 then s
      else let (x, wrapped_target, wrapped_overflow) = timer_count ticks (timers (tmr s) t);
               s1 = s\<lparr>tmr := set_timer t x (tmr s)\<rparr>;
               can_fire = (mode AND 0x40 \<noteq> 0 \<or> \<not> timer_irq_fired (tmr s1) t);
               s2 = (if wrapped_target \<and> mode AND 0x10 \<noteq> 0 \<and> can_fire then timer_fire t s1 else s1)
           in if wrapped_overflow \<and> mode AND 0x20 \<noteq> 0 \<and> can_fire then timer_fire t s2 else s2)"

definition timer_sync_prelude :: "nat \<Rightarrow> u64 \<Rightarrow> 'a tmachine_scheme \<Rightarrow> u64 option \<times> timer_globals" where
  "timer_sync_prelude t now s =
     (let g = tmr s; x = timers g t
      in if tmode x AND 1 \<noteq> 0 \<and> t = 0
         then timer0_hblank_sync (cycles_per_hblank (psx_config s)) (hblank_frame_start_cycle s) now g
         else if tmode x AND 1 \<noteq> 0 \<and> t = 1
         then timer1_vblank_sync (psx_config s) (hblank_frame_start_cycle s) now g
         else (Some (now - last_sync_cycle x), g))"

definition Timer_SyncValue :: "nat \<Rightarrow> 'a tmachine_scheme \<Rightarrow> 'a tmachine_scheme" where
  "Timer_SyncValue t s =
     (if t > 2 then s
      else let now = EFFECTIVE_CYCLES s; g = tmr s; x = timers g t
           in if timer_stopped_cache g t then s\<lparr>tmr := set_timer t (x\<lparr>last_sync_cycle := now\<rparr>) g\<rparr>
              else case timer_sync_prelude t now s of
                (None, g1) \<Rightarrow> s\<lparr>tmr := g1\<rparr>
              | (Some elapsed, g1) \<Rightarrow>
                  let (ticks, g2) = timer_take_ticks t now elapsed g1
                  in timer_apply_ticks t (tmode x) ticks (s\<lparr>tmr := g2\<rparr>))"

section \<open>Scheduling\<close>

definition timer_ticks_to_event :: "u32 \<Rightarrow> u32 \<Rightarrow> u32 \<Rightarrow> u32" where
  "timer_ticks_to_event mode val target =
     (let n = (if mode AND 8 \<noteq> 0 \<and> target > 0
               then if val \<le> target then (target + 1) - val else target + 2
               else let ticks_to_overflow = 0x10000 - val
                    in if mode AND 0x10 \<noteq> 0 \<and> target > 0 \<and> val \<le> target
                          \<and> (target + 1) - val < ticks_to_overflow
                       then (target + 1) - val else ticks_to_overflow)
      in if n = 0 then 1 else n)"

definition Timer_ScheduleOne :: "nat \<Rightarrow> 'a tmachine_scheme \<Rightarrow> 'a tmachine_scheme" where
  "Timer_ScheduleOne t s0 =
     (if t > 2 then s0
      else let s = Timer_SyncValue t s0;
               g = tmr s; x = timers g t; mode = tmode x;
               val = tvalue x AND 0xFFFF; target = ttarget x AND 0xFFFF;
               divider = timer_divider_cache g t
           in if timer_stopped_cache g t then s
              else if \<not> (mode AND 0x30 \<noteq> 0 \<and> (mode AND 0x40 \<noteq> 0 \<or> \<not> timer_irq_fired g t))
              then Sched_Remove (SCHED_EVENT_TIMER0 + t) s
              else let divider1 = (if divider = 0 then 1 else divider);
                       ticks_to_event = timer_ticks_to_event mode val target;
                       deadline = (if t = 0 \<and> timer0_dotclock_num g > 0
                         then EFFECTIVE_CYCLES s +
                              (ucast ticks_to_event * ucast (timer0_dotclock_num g) + 10) div 11
                         else EFFECTIVE_CYCLES s + ucast ticks_to_event * ucast divider1)
                   in Sched_Add (SCHED_EVENT_TIMER0 + t) deadline (Timer_Callback t) s)"

text \<open>The three callbacks \<^verbatim>\<open>Timer_Callback0\<close> to \<^verbatim>\<open>Timer_Callback2\<close>.\<close>

definition run_Timer_Callback :: "nat \<Rightarrow> int \<Rightarrow> 'a tmachine_scheme \<Rightarrow> 'a tmachine_scheme" where
  "run_Timer_Callback t ticks_late s = Timer_ScheduleOne t s"

section \<open>Registers\<close>

text \<open>
  The counter and register selected by an address. Both are C \<^verbatim>\<open>int\<close>s computed from an unsigned
  difference, so an address below the base gives a counter number above 2.
\<close>

definition timer_index :: "u32 \<Rightarrow> nat" where
  "timer_index addr = unat ((addr AND 0x1FFFFFFF) - 0x1F801100) div 0x10"

definition timer_reg :: "u32 \<Rightarrow> nat" where
  "timer_reg addr = (unat ((addr AND 0x1FFFFFFF) - 0x1F801100) mod 0x10) div 4"

definition Timers_Read :: "u32 \<Rightarrow> 'a tmachine_scheme \<Rightarrow> u32 \<times> 'a tmachine_scheme" where
  "Timers_Read addr s =
     (let t = timer_index addr; reg = timer_reg addr
      in if t > 2 then (0, s)
         else if reg = 0
         then let s1 = Timer_SyncValue t s; x = timers (tmr s1) t; tgt = ttarget x AND 0xFFFF;
                  v = (if tmode x AND 8 \<noteq> 0 \<and> tgt > 0 \<and> tvalue x > tgt then 0 else tvalue x)
              in (v AND 0xFFFF, s1)
         else if reg = 1
         then let s1 = Timer_SyncValue t s; x = timers (tmr s1) t
              in (tmode x, s1\<lparr>tmr := set_timer t (x\<lparr>tmode := tmode x AND NOT 0x1800\<rparr>) (tmr s1)\<rparr>)
         else if reg = 2 then (ttarget (timers (tmr s) t), s)
         else (0, s))"

definition Timers_Write :: "u32 \<Rightarrow> u32 \<Rightarrow> 'a tmachine_scheme \<Rightarrow> 'a tmachine_scheme" where
  "Timers_Write addr data s =
     (let t = timer_index addr; reg = timer_reg addr
      in if t > 2 then s
         else let now = EFFECTIVE_CYCLES s; g = tmr s; x = timers g t;
                  s1 = (if reg = 0
                        then s\<lparr>tmr := set_timer t (x\<lparr>tvalue := data, last_sync_cycle := now\<rparr>) g\<rparr>
                        else if reg = 1
                        then timer_update_divider_cache t (timer_update_stopped_cache t
                          (s\<lparr>tmr := (set_timer t (x\<lparr>tvalue := 0, tmode := data AND NOT 0x1800,
                              last_sync_cycle := now\<rparr>) g)
                            \<lparr>timer_mode_set_cycle := (timer_mode_set_cycle g)(t := now),
                             timer_irq_fired := (timer_irq_fired g)(t := False),
                             timer_sync_mode3_freed := (timer_sync_mode3_freed g)(t := False)\<rparr>\<rparr>))
                        else if reg = 2
                        then s\<lparr>tmr := set_timer t (x\<lparr>ttarget := data\<rparr>) g\<rparr>
                        else s)
              in Timer_ScheduleOne t s1)"

definition Timer_RefreshDividerCache :: "'a tmachine_scheme \<Rightarrow> 'a tmachine_scheme" where
  "Timer_RefreshDividerCache s = timer_update_divider_cache 0 s"

definition Timer_ScheduleAll :: "'a tmachine_scheme \<Rightarrow> 'a tmachine_scheme" where
  "Timer_ScheduleAll s = fold Timer_ScheduleOne [0..<3] s"

section \<open>Visible cycles counted one by one\<close>

text \<open>The visible cycles before cycle \<open>n\<close>, for a line of \<open>p\<close> cycles of which the first \<open>v\<close> are visible.\<close>

definition visible_upto :: "nat \<Rightarrow> nat \<Rightarrow> nat \<Rightarrow> nat" where
  "visible_upto p v n = n div p * v + min (n mod p) v"

lemma visible_upto_card:
  assumes "0 < p" "v \<le> p"
  shows "card {c \<in> {0..<n}. c mod p < v} = visible_upto p v n"
proof (induction n)
  case (Suc n)
  have "{c \<in> {0..<Suc n}. c mod p < v} = (if n mod p < v then insert n else id) {c \<in> {0..<n}. c mod p < v}"
    by (auto simp: less_Suc_eq)
  then have "card {c \<in> {0..<Suc n}. c mod p < v} = visible_upto p v n + (if n mod p < v then 1 else 0)"
    using Suc by simp
  also have "\<dots> = visible_upto p v (Suc n)"
    using assms by (auto simp: visible_upto_def mod_Suc div_Suc min_def)
  finally show ?case .
qed (simp add: visible_upto_def)

lemma visible_between_card:
  assumes "0 < p" "v \<le> p" "a \<le> b"
  shows "card {c \<in> {a..<b}. c mod p < v} = visible_upto p v b - visible_upto p v a"
proof -
  define A where "A = {c \<in> {0..<a}. c mod p < v}"
  define B where "B = {c \<in> {a..<b}. c mod p < v}"
  have "{c \<in> {0..<b}. c mod p < v} = A \<union> B"
    using assms(3) by (auto simp: A_def B_def)
  moreover have "card (A \<union> B) = card A + card B"
    by (rule card_Un_disjoint) (auto simp: A_def B_def)
  ultimately have "card {c \<in> {0..<b}. c mod p < v} = card A + card B" by simp
  then show ?thesis unfolding A_def B_def visible_upto_card [OF assms(1,2)] by simp
qed

lemma visible_first_line:
  assumes "0 < p" "v \<le> p" "r \<le> p - a mod p"
  shows "visible_upto p v (a + r) =
    visible_upto p v a + (if a mod p < v then min r (v - a mod p) else 0)"
proof (cases "r = p - a mod p")
  case True
  have "a mod p < p" using assms(1) by simp
  then have "a + r = (a div p + 1) * p" using True div_mult_mod_eq [of a p] unfolding add_mult_distrib by linarith
  then have "(a + r) div p = a div p + 1" "(a + r) mod p = 0" using assms(1) by simp_all
  then show ?thesis using True assms \<open>a mod p < p\<close> by (auto simp: visible_upto_def)
next
  case False
  then have less: "a mod p + r < p" using assms by (simp add: less_diff_conv2)
  have "a + r = a div p * p + (a mod p + r)" by simp
  then have "(a + r) div p = a div p" "(a + r) mod p = a mod p + r"
    using less by (metis div_mult_self3 div_less add.right_neutral assms(1) not_less_zero, metis mod_mult_self3 mod_less)
  then show ?thesis by (auto simp: visible_upto_def)
qed

lemma visible_more_lines:
  assumes "0 < p" "v \<le> p" "p - a mod p < r"
  shows "visible_upto p v (a + r) = visible_upto p v a + (if a mod p < v then v - a mod p else 0) +
    visible_upto p v (r - (p - a mod p))"
proof -
  define r1 where "r1 = r - (p - a mod p)"
  have "a mod p < p" using assms(1) by simp
  then have "a + r = (a div p + 1) * p + r1"
    using assms(3) div_mult_mod_eq [of a p] unfolding r1_def add_mult_distrib by linarith
  then have "(a + r) div p = a div p + 1 + r1 div p" "(a + r) mod p = r1 mod p"
    using assms(1) by (simp_all only: div_mult_self3 mod_mult_self3)
  then show ?thesis using assms by (auto simp: visible_upto_def r1_def [symmetric] algebra_simps)
qed

lemma count_tail:
  fixes R cps vis w :: u32
  assumes "0 < cps" "vis \<le> cps" "w < cps" "cps - w < R"
  defines "X \<equiv> R - (cps - w)" and "p \<equiv> unat cps" and "v \<equiv> unat vis"
  shows "unat ((if w < vis then vis - w else 0) + X div cps * vis +
      (if X - X div cps * cps < vis then X - X div cps * cps else vis)) =
    (if unat w < v then v - unat w else 0) + visible_upto p v (unat R - (p - unat w))"
    (is "unat (?act + _ + ?lst) = _")
proof -
  have p: "0 < p" "v \<le> p" "unat w < p"
    using assms(1-3) by (simp_all add: p_def v_def word_less_nat_alt word_le_nat_alt)
  define r1 where "r1 = unat R - (p - unat w)"
  have "unat (cps - w) = p - unat w" using p by (simp add: unat_sub word_le_nat_alt p_def)
  then have X: "unat X = r1" "p - unat w + r1 = unat R"
    using assms(4) by (simp_all add: X_def r1_def unat_sub word_le_nat_alt word_less_nat_alt)
  have "r1 div p * v \<le> r1 div p * p" using p by simp
  then have le: "r1 div p * v + min (r1 mod p) v \<le> r1"
    using div_mult_mod_eq [of r1 p] by linarith
  have act: "unat ?act = (if unat w < v then v - unat w else 0)"
    by (auto simp: word_less_nat_alt unat_sub v_def word_le_nat_alt)
  then have "unat ?act \<le> p - unat w" using p by (simp add: diff_le_mono)
  with le X have small: "unat ?act + r1 div p * v + min (r1 mod p) v < 2 ^ 32"
    using unat_u32_less [of R] by linarith
  have fv: "unat (X div cps * vis) = r1 div p * v"
    using unat_mult_lem [of "X div cps" vis] small by (simp add: v_def unat_div X p_def)
  have s1: "unat (?act + X div cps * vis) = unat ?act + r1 div p * v"
    using unat_add_lem [of ?act "X div cps * vis"] small fv by simp
  have "unat (X - X div cps * cps) = r1 mod p"
    by (simp add: unat_mod X p_def minus_div_mult_eq_mod)
  then have "unat ?lst = min (r1 mod p) v" by (auto simp: word_less_nat_alt v_def)
  then have "unat (?act + X div cps * vis + ?lst) = unat ?act + r1 div p * v + min (r1 mod p) v"
    using unat_add_lem [of "?act + X div cps * vis" ?lst] s1 small by simp
  then show ?thesis by (simp only: act r1_def [symmetric] visible_upto_def)
qed

lemma count_active_cycles_card:
  fixes t0 t1 frame_start :: u64 and cps vis :: u32
  assumes "0 < cps" "vis \<le> cps" "frame_start \<le> t0" "t0 \<le> t1" "t1 - t0 < 2 ^ 32"
  shows "unat (count_active_cycles_hblank cps vis frame_start t0 t1) =
    card {c \<in> {unat t0..<unat t1}. (c - unat frame_start) mod unat cps < unat vis}"
proof -
  define a where "a = unat t0 - unat frame_start"
  define r where "r = unat t1 - unat t0"
  define p where "p = unat cps"
  define v where "v = unat vis"
  define w where "w = (ucast ((t0 - frame_start) mod ucast cps) :: u32)"
  define R where "R = (ucast (t1 - t0) :: u32)"
  have p: "0 < p" "v \<le> p" using assms(1,2) by (simp_all add: p_def v_def word_less_nat_alt word_le_nat_alt)
  have ar: "unat (t0 - frame_start) = a" "unat (t1 - t0) = r"
    using assms(3,4) by (simp_all add: a_def r_def unat_sub)
  have w: "unat w = a mod p" unfolding w_def using p unat_u32_less [of cps]
    by (subst unat_ucast_u32) (auto simp: word_less_nat_alt unat_mod ar p_def intro: less_trans [OF mod_less_divisor])
  have R: "unat R = r" unfolding R_def using assms(5) by (simp add: unat_ucast_u32 ar)
  have wp: "w < cps" using w p by (simp add: word_less_nat_alt p_def [symmetric])
  have line: "R \<le> cps - w \<longleftrightarrow> r \<le> p - a mod p"
    using unat_sub [OF less_imp_le [OF wp]] w R by (simp add: p_def word_le_nat_alt)
  have "bij_betw (\<lambda>c. c - unat frame_start) {c \<in> {unat t0..<unat t1}. (c - unat frame_start) mod p < v}
      {c \<in> {a..<a + r}. c mod p < v}"
    using assms(3,4) by (intro bij_betw_byWitness [where f' = "\<lambda>c. c + unat frame_start"])
      (auto simp: a_def r_def word_le_nat_alt)
  then have card: "card {c \<in> {unat t0..<unat t1}. (c - unat frame_start) mod p < v} =
      visible_upto p v (a + r) - visible_upto p v a"
    by (simp only: bij_betw_same_card visible_between_card [OF p, of a "a + r"] le_add1)
  have "unat (count_active_cycles_hblank cps vis frame_start t0 t1) =
      visible_upto p v (a + r) - visible_upto p v a"
  proof (cases "r \<le> p - a mod p")
    case True
    have "w < vis \<longleftrightarrow> a mod p < v" "w < vis \<Longrightarrow> unat (vis - w) = v - a mod p"
      using w by (simp_all add: word_less_nat_alt unat_sub v_def word_le_nat_alt)
    then show ?thesis
      using assms(1) R line True visible_first_line [OF p True] ar(2)
      by (auto simp: count_active_cycles_hblank_def Let_def w_def [symmetric] R_def [symmetric]
          word_less_nat_alt unat_eq_zero [symmetric] min_def)
  next
    case False
    with line have gt: "cps - w < R" by simp
    then have nz: "t1 - t0 \<noteq> 0" "\<not> R \<le> cps - w" using R False ar(2) by auto
    have "count_active_cycles_hblank cps vis frame_start t0 t1 =
        (if w < vis then vis - w else 0) + (R - (cps - w)) div cps * vis +
        (if R - (cps - w) - (R - (cps - w)) div cps * cps < vis
         then R - (cps - w) - (R - (cps - w)) div cps * cps else vis)"
      using assms(1) nz
      by (simp only: count_active_cycles_hblank_def Let_def w_def [symmetric] R_def [symmetric]) auto
    then show ?thesis
      using count_tail [OF assms(1,2) wp gt] visible_more_lines [OF p, of a r] False w R
      by (simp add: p_def [symmetric] v_def [symmetric])
  qed
  with card show ?thesis by (simp add: p_def v_def)
qed

text \<open>
  The closed form of \<open>count_active_cycles_hblank\<close> (a first partial line, full lines, a last partial
  line) is the number of cycles of the interval whose phase within their scanline is visible, for
  intervals of less than \<open>2 ^ 32\<close> cycles.
\<close>

theorem count_active_cycles_hblank_correct:
  fixes t0 t1 frame_start :: u64 and cps vis :: u32
  assumes "0 < cps" "vis \<le> cps" "frame_start \<le> t0" "t0 \<le> t1" "t1 - t0 < 2 ^ 32"
  shows "unat (count_active_cycles_hblank cps vis frame_start t0 t1) =
    card {c \<in> {unat t0..<unat t1}. (c - unat frame_start) mod unat cps < unat vis}"
  using assms by (rule count_active_cycles_card)

theorem count_active_cycles_hblank_witness:
  "card {c \<in> {unat (1700 :: u64)..<unat (5000 :: u64)}. (c - unat (0 :: u64)) mod unat (2173 :: u32) < unat (1630 :: u32)} = 2284 \<and>
   count_active_cycles_hblank 2173 1630 0 1700 5000 = 2284"
proof -
  have "count_active_cycles_hblank 2173 1630 0 1700 5000 = 2284"
    by (simp add: count_active_cycles_hblank_def)
  then show ?thesis
    using count_active_cycles_hblank_correct [of 2173 1630 0 1700 5000] by simp
qed

section \<open>Frames\<close>

lemma set_timer_simps [simp]:
  "timers (set_timer t x g) = (timers g)(t := x)"
  "timer_stopped_cache (set_timer t x g) = timer_stopped_cache g"
  "timer_divider_cache (set_timer t x g) = timer_divider_cache g"
  "timer_irq_fired (set_timer t x g) = timer_irq_fired g"
  "timer0_dotclock_num (set_timer t x g) = timer0_dotclock_num g"
  "timer0_dotclock_residue (set_timer t x g) = timer0_dotclock_residue g"
  "timer_sync_mode3_freed (set_timer t x g) = timer_sync_mode3_freed g"
  by (simp_all add: set_timer_def)

lemma tmr_SignalInterrupt [simp]:
  "tmr (SignalInterrupt irq s) = tmr s"
  "hblank_frame_start_cycle (SignalInterrupt irq s) = hblank_frame_start_cycle s"
  "gpu_stat (SignalInterrupt irq s) = gpu_stat s"
  by (simp_all add: SignalInterrupt_def update_irq_pending_def cap_cycles_for_irq_def Let_def)

lemma tmr_Sched [simp]:
  "tmr (Sched_Add e d cb s) = tmr s" "tmr (Sched_Remove e s) = tmr s"
  by (simp_all add: Sched_Add_def Sched_Remove_def sched_recompute_cached_def Let_def case_prod_unfold)

text \<open>Outside a compiled block, raising an interrupt does not move the clock.\<close>

lemma EFFECTIVE_CYCLES_SignalInterrupt [simp]:
  "\<not> psx_block_exception s \<Longrightarrow> EFFECTIVE_CYCLES (SignalInterrupt irq s) = EFFECTIVE_CYCLES s"
  "psx_block_exception (SignalInterrupt irq s) = psx_block_exception s"
  by (simp_all add: EFFECTIVE_CYCLES_def SignalInterrupt_def update_irq_pending_def
      cap_cycles_for_irq_def Let_def)

lemma EFFECTIVE_CYCLES_tmr [simp]: "EFFECTIVE_CYCLES (s\<lparr>tmr := g\<rparr>) = EFFECTIVE_CYCLES s"
  by (simp add: EFFECTIVE_CYCLES_def)

lemma timer_fire_simps [simp]:
  "tmr (timer_fire t s) = (tmr s)\<lparr>timer_irq_fired := (timer_irq_fired (tmr s))(t := True)\<rparr>"
  "psx_block_exception (timer_fire t s) = psx_block_exception s"
  "\<not> psx_block_exception s \<Longrightarrow> EFFECTIVE_CYCLES (timer_fire t s) = EFFECTIVE_CYCLES s"
  by (simp_all add: timer_fire_def)

lemma timer_apply_ticks_timers:
  "timers (tmr (timer_apply_ticks t m k s)) =
     (timers (tmr s))(t := if k = 0 then timers (tmr s) t else fst (timer_count k (timers (tmr s) t)))"
  "timer_stopped_cache (tmr (timer_apply_ticks t m k s)) = timer_stopped_cache (tmr s)"
  "timer_divider_cache (tmr (timer_apply_ticks t m k s)) = timer_divider_cache (tmr s)"
  "timer0_dotclock_num (tmr (timer_apply_ticks t m k s)) = timer0_dotclock_num (tmr s)"
  "timer0_dotclock_residue (tmr (timer_apply_ticks t m k s)) = timer0_dotclock_residue (tmr s)"
  "psx_block_exception (timer_apply_ticks t m k s) = psx_block_exception s"
  "\<not> psx_block_exception s \<Longrightarrow> EFFECTIVE_CYCLES (timer_apply_ticks t m k s) = EFFECTIVE_CYCLES s"
  by (simp_all add: timer_apply_ticks_def Let_def case_prod_unfold)

section \<open>Synchronising twice\<close>

text \<open>The counter counts freely: no sync mode, and a clock source that is set up.\<close>

definition free_running :: "nat \<Rightarrow> timer_globals \<Rightarrow> bool" where
  "free_running t g \<longleftrightarrow> t \<le> 2 \<and> \<not> timer_stopped_cache g t \<and> tmode (timers g t) AND 1 = 0 \<and>
     (if t = 0 \<and> timer0_dotclock_num g > 0
      then 28 \<le> timer0_dotclock_num g \<and> timer0_dotclock_residue g < 11
      else 0 < timer_divider_cache g t)"

text \<open>Ticks, time stamp and residue as natural numbers, for \<open>e\<close> cycles since the last time stamp.\<close>

definition dot_driven :: "nat \<Rightarrow> timer_globals \<Rightarrow> bool" where
  "dot_driven t g \<longleftrightarrow> t = 0 \<and> timer0_dotclock_num g > 0"

lemma unat_of_nat_small [simp]:
  "e < 2 ^ 32 \<Longrightarrow> unat (of_nat e :: u32) = e" "f < 2 ^ 64 \<Longrightarrow> unat (of_nat f :: u64) = f"
  by (simp_all add: unsigned_of_nat take_bit_eq_mod)

lemma ucast_of_nat_small:
  "e < 2 ^ 32 \<Longrightarrow> (ucast (of_nat e :: u64) :: u32) = of_nat e"
  "e < 2 ^ 32 \<Longrightarrow> (ucast (of_nat e :: u32) :: u64) = of_nat e"
  by (simp_all add: word_unat_eq_iff unat_ucast_u32 word_less_nat_alt)

lemma of_nat_div_u64: "e < 2 ^ 32 \<Longrightarrow> (of_nat e :: u64) div ucast (d :: u32) = of_nat (e div unat d)"
  by (simp add: word_unat_eq_iff unat_div) (simp add: order_le_less_trans [OF div_le_dividend])

lemma take_ticks_plain:
  assumes "\<not> dot_driven t g" "0 < timer_divider_cache g t" "e < 2 ^ 31"
  defines "d \<equiv> unat (timer_divider_cache g t)"
  shows "timer_take_ticks t now (of_nat e) g =
    (of_nat (e div d), set_timer t ((timers g t)\<lparr>last_sync_cycle :=
       last_sync_cycle (timers g t) + of_nat (e div d * d)\<rparr>) g)"
proof -
  have k: "e div d < 2 ^ 32" using assms(3) by (intro order_le_less_trans [OF div_le_dividend]) simp
  have "(ucast (timer_divider_cache g t) :: u64) = of_nat d" by (simp add: d_def word_unat_eq_iff)
  then show ?thesis
    using assms(1,3) k by (auto simp: timer_take_ticks_def dot_driven_def Let_def of_nat_div_u64
        ucast_of_nat_small d_def [symmetric])
qed

lemma take_ticks_dot:
  assumes "dot_driven t g" "28 \<le> timer0_dotclock_num g" "timer0_dotclock_residue g < 11" "e < 2 ^ 31"
  defines "n \<equiv> unat (timer0_dotclock_num g)" and "r \<equiv> e * 11 + unat (timer0_dotclock_residue g)"
  shows "timer_take_ticks t now (of_nat e) g =
    (of_nat (r div n), (set_timer 0 ((timers g 0)\<lparr>last_sync_cycle := now - of_nat (r mod n div 11)\<rparr>) g)
       \<lparr>timer0_dotclock_residue := of_nat (r mod n mod 11)\<rparr>)"
proof -
  have n: "28 \<le> n" and res: "unat (timer0_dotclock_residue g) < 11"
    using assms(2,3) by (simp_all add: n_def word_le_nat_alt word_less_nat_alt)
  have r: "r < 2 ^ 35" using assms(4) res by (simp add: r_def)
  have "r div n \<le> r div 28" using n by (rule div_le_mono2 [rotated]) simp
  then have k: "r div n < 2 ^ 32" using r by (simp add: div_less_iff_less_mult)
  have m: "r mod n < 2 ^ 32"
    using n unat_u32_less [of "timer0_dotclock_num g"] by (auto simp: n_def intro: less_trans [OF mod_less_divisor])
  have sub: "(of_nat e * 11 + ucast (timer0_dotclock_residue g) :: u64) = of_nat r"
    by (simp add: r_def word_unat_eq_iff unat_word_ariths)
  have num: "(ucast (timer0_dotclock_num g) :: u64) = of_nat n" by (simp add: n_def word_unat_eq_iff)
  have ticks: "(of_nat r :: u64) div of_nat n = of_nat (r div n)"
    using r k num by (simp add: word_unat_eq_iff unat_div flip: num) (simp add: n_def)
  have "r div n * n + r mod n = r" by simp
  then have "(of_nat r :: u64) = of_nat (r div n) * of_nat n + of_nat (r mod n)"
    by (metis of_nat_add of_nat_mult)
  then have rest: "(of_nat r :: u64) - of_nat (r div n) * of_nat n = of_nat (r mod n)" by simp
  have parts: "(of_nat (r mod n) :: u32) div 11 = of_nat (r mod n div 11)"
    "(of_nat (r mod n) :: u32) mod 11 = of_nat (r mod n mod 11)"
    using m by (simp_all add: word_unat_eq_iff unat_div unat_mod order_le_less_trans [OF div_le_dividend])
  have small: "r mod n div 11 < 2 ^ 32" using m by (rule order_le_less_trans [OF div_le_dividend])
  show ?thesis
    using assms(1) unfolding timer_take_ticks_def dot_driven_def Let_def sub num ticks ucast_of_nat_small(1) [OF k]
      ucast_of_nat_small(2) [OF k] rest ucast_of_nat_small(1) [OF m] parts ucast_of_nat_small(2) [OF small]
    by simp
qed


text \<open>The number of distinct internal values of the counter.\<close>

definition timer_period :: "PsxTimer \<Rightarrow> nat" where
  "timer_period x = (if tmode x AND 8 \<noteq> 0 \<and> ttarget x AND 0xFFFF > 0
     then unat (ttarget x AND 0xFFFF) + 2 else 0x10000)"

definition timer_val :: "PsxTimer \<Rightarrow> nat" where
  "timer_val x = unat (tvalue x AND 0xFFFF)"

lemma and_FFFF_mod: "unat ((w :: u32) AND 0xFFFF) = unat w mod 0x10000"
  using arg_cong [OF take_bit_eq_mask [of 16 w], of unat]
  by (simp add: mask_eq_exp_minus_1 take_bit_eq_mod unat_mod)

lemma timer_count_frame [simp]:
  "ttarget (fst (timer_count k x)) = ttarget x"
  "last_sync_cycle (fst (timer_count k x)) = last_sync_cycle x"
  "tmode (fst (timer_count k x)) AND 8 = tmode x AND 8"
  "tmode (fst (timer_count k x)) AND 1 = tmode x AND 1"
  by (auto simp: timer_count_def Let_def u32_eq_bits bit_simps)

lemma timer_period_count [simp]: "timer_period (fst (timer_count k x)) = timer_period x"
  by (simp add: timer_period_def)

lemma timer_count_value:
  assumes "timer_val x + unat k < 2 ^ 32"
  shows "unat (tvalue (fst (timer_count k x))) = (timer_val x + unat k) mod timer_period x"
proof -
  define val where "val = tvalue x AND 0xFFFF"
  define T where "T = ttarget x AND 0xFFFF"
  have add: "unat (val + k) = timer_val x + unat k"
    using assms unat_add_lem [of val k] by (simp add: timer_val_def val_def)
  have T: "unat T < 0x10000" by (simp add: T_def and_FFFF_mod)
  then have T2: "unat (T + 2) = unat T + 2" using unat_add_lem [of T 2] by simp
  show ?thesis
  proof (cases "tmode x AND 8 \<noteq> 0 \<and> T > 0")
    case True
    then have "unat (tvalue (fst (timer_count k x))) = unat (if val + k > T then (val + k) mod (T + 2) else val + k)"
      by (simp add: timer_count_def Let_def val_def T_def)
    also have "\<dots> = (timer_val x + unat k) mod (unat T + 2)"
      using T2 add by (auto simp: unat_mod word_less_nat_alt not_less)
    finally show ?thesis using True by (simp add: timer_period_def T_def)
  next
    case False
    then have no: "(tmode x AND 8 \<noteq> 0 \<and> T > 0) = False" by blast
    have "unat (tvalue (fst (timer_count k x))) =
        unat ((if val + k > 0xFFFF then val + k - 0x10000 else val + k) AND 0xFFFF)"
      unfolding timer_count_def Let_def val_def [symmetric] T_def [symmetric] no if_False fst_conv by simp
    also have "\<dots> = (timer_val x + unat k) mod 0x10000"
      using add by (auto simp: and_FFFF_mod word_less_nat_alt unat_sub word_le_nat_alt le_mod_geq)
    finally show ?thesis using False by (auto simp: timer_period_def T_def)
  qed
qed


text \<open>Synchronising a free-running counter, in one equation for the fields of its own state.\<close>

definition timer_ticks_nat :: "nat \<Rightarrow> timer_globals \<Rightarrow> nat \<Rightarrow> nat" where
  "timer_ticks_nat t g e = (if dot_driven t g
     then (e * 11 + unat (timer0_dotclock_residue g)) div unat (timer0_dotclock_num g)
     else e div unat (timer_divider_cache g t))"

definition timer_stamp :: "nat \<Rightarrow> timer_globals \<Rightarrow> nat \<Rightarrow> u64 \<times> u32" where
  "timer_stamp t g e = (if dot_driven t g
     then let m = (e * 11 + unat (timer0_dotclock_residue g)) mod unat (timer0_dotclock_num g)
          in (last_sync_cycle (timers g t) + of_nat e - of_nat (m div 11), of_nat (m mod 11))
     else (last_sync_cycle (timers g t) +
             of_nat (e div unat (timer_divider_cache g t) * unat (timer_divider_cache g t)),
           timer0_dotclock_residue g))"

lemma free_running_take_ticks:
  assumes "free_running t g" "e < 2 ^ 31" "now = last_sync_cycle (timers g t) + of_nat e"
  shows "timer_take_ticks t now (of_nat e) g = (of_nat (timer_ticks_nat t g e),
    (set_timer t ((timers g t)\<lparr>last_sync_cycle := fst (timer_stamp t g e)\<rparr>) g)
      \<lparr>timer0_dotclock_residue := snd (timer_stamp t g e)\<rparr>)"
proof (cases "dot_driven t g")
  case True
  then have "t = 0" by (simp add: dot_driven_def)
  with True show ?thesis
    using assms take_ticks_dot [OF True _ _ assms(2), of now]
    by (simp add: free_running_def dot_driven_def timer_ticks_nat_def timer_stamp_def Let_def)
next
  case False
  with assms(1) have "0 < timer_divider_cache g t" by (auto simp: free_running_def dot_driven_def)
  from take_ticks_plain [OF False this assms(2)] False show ?thesis
    by (simp add: timer_ticks_nat_def timer_stamp_def set_timer_def)
qed

lemma timer_ticks_le:
  assumes "free_running t g" "e < 2 ^ 31"
  shows "timer_ticks_nat t g e < 2 ^ 31 + 1"
proof (cases "dot_driven t g")
  case True
  then have n: "28 \<le> unat (timer0_dotclock_num g)" "unat (timer0_dotclock_residue g) < 11"
    using assms(1) by (auto simp: free_running_def dot_driven_def word_le_nat_alt word_less_nat_alt)
  have "timer_ticks_nat t g e \<le> (e * 11 + unat (timer0_dotclock_residue g)) div 28"
    using True n by (simp add: timer_ticks_nat_def div_le_mono2)
  also have "\<dots> < 2 ^ 31 + 1" using assms(2) n(2) by (simp add: div_less_iff_less_mult)
  finally show ?thesis .
next
  case False
  then show ?thesis using assms(2) div_le_dividend [of e "unat (timer_divider_cache g t)"]
    by (simp add: timer_ticks_nat_def del: div_le_dividend)
qed

lemma free_running_sync:
  assumes "free_running t (tmr s)" "e < 2 ^ 31"
    and "EFFECTIVE_CYCLES s = last_sync_cycle (timers (tmr s) t) + of_nat e"
  defines "g \<equiv> tmr s" and "k \<equiv> of_nat (timer_ticks_nat t (tmr s) e)"
  shows "Timer_SyncValue t s = timer_apply_ticks t (tmode (timers g t)) k (s\<lparr>tmr :=
     (set_timer t ((timers g t)\<lparr>last_sync_cycle := fst (timer_stamp t g e)\<rparr>) g)
      \<lparr>timer0_dotclock_residue := snd (timer_stamp t g e)\<rparr>\<rparr>)"
  using assms(1,3) free_running_take_ticks [OF assms(1,2,3)]
  by (simp add: Timer_SyncValue_def timer_sync_prelude_def free_running_def Let_def g_def k_def)


lemma div_mod_split:
  fixes a b n :: nat
  shows "a div n + (a mod n + b) div n = (a + b) div n" "(a mod n + b) mod n = (a + b) mod n"
proof -
  have "a + b = a div n * n + (a mod n + b)" by simp
  then show "a div n + (a mod n + b) div n = (a + b) div n"
    by (metis add.commute div_mult_self3 div_by_0 add_0 mult_0_right mod_by_0 add_0_right)
  show "(a mod n + b) mod n = (a + b) mod n" by (rule mod_add_left_eq)
qed

lemma timer_stamp_split:
  assumes "free_running t g"
    and "last_sync_cycle (timers g1 t) = fst (timer_stamp t g e1)"
    and "timer0_dotclock_residue g1 = snd (timer_stamp t g e1)"
    and "timer0_dotclock_num g1 = timer0_dotclock_num g" "timer_divider_cache g1 = timer_divider_cache g"
  obtains e2 where "e2 \<le> e1 + d" "d \<le> e2"
    "last_sync_cycle (timers g1 t) + of_nat e2 = last_sync_cycle (timers g t) + of_nat (e1 + d)"
    "timer_ticks_nat t g e1 + timer_ticks_nat t g1 e2 = timer_ticks_nat t g (e1 + d)"
    "timer_stamp t g1 e2 = timer_stamp t g (e1 + d)"
proof (cases "dot_driven t g")
  case True
  define n where "n = unat (timer0_dotclock_num g)"
  define r where "r = e1 * 11 + unat (timer0_dotclock_residue g)"
  define e2 where "e2 = r mod n div 11 + d"
  have dot1: "dot_driven t g1" using True assms(4) by (simp add: dot_driven_def)
  have stamp: "last_sync_cycle (timers g1 t) = last_sync_cycle (timers g t) + of_nat e1 - of_nat (r mod n div 11)"
    "timer0_dotclock_residue g1 = of_nat (r mod n mod 11)"
    using assms(2,3) True by (simp_all add: timer_stamp_def Let_def n_def r_def)
  have "unat (of_nat (r mod n mod 11) :: u32) = r mod n mod 11"
    by (rule unat_of_nat_small(1)) (simp add: less_trans [OF mod_less_divisor])
  then have r2: "e2 * 11 + unat (timer0_dotclock_residue g1) = r mod n + d * 11"
    using stamp(2) by (simp add: e2_def algebra_simps)
  have r12: "(e1 + d) * 11 + unat (timer0_dotclock_residue g) = r + d * 11" by (simp add: r_def algebra_simps)
  have last: "last_sync_cycle (timers g1 t) + of_nat e2 = last_sync_cycle (timers g t) + of_nat (e1 + d)"
    using stamp(1) by (simp add: e2_def)
  have "r mod n \<le> r" by (rule mod_less_eq_dividend)
  also have "r < 11 * (e1 + 1)"
    using assms(1) True by (auto simp: r_def free_running_def dot_driven_def word_less_nat_alt)
  finally have "r mod n div 11 \<le> e1" by (simp add: div_less_iff_less_mult flip: less_Suc_eq_le)
  then have "e2 \<le> e1 + d" "d \<le> e2" by (simp_all add: e2_def)
  moreover have "timer_ticks_nat t g e1 + timer_ticks_nat t g1 e2 = timer_ticks_nat t g (e1 + d)"
    unfolding timer_ticks_nat_def assms(4) n_def [symmetric] r_def [symmetric] r2 r12
    using True dot1 by (simp add: div_mod_split)
  moreover have "timer_stamp t g1 e2 = timer_stamp t g (e1 + d)"
    unfolding timer_stamp_def Let_def assms(4) n_def [symmetric] r2 r12 last
    using True dot1 by (simp add: div_mod_split)
  ultimately show ?thesis using that last by blast
next
  case False
  define n where "n = unat (timer_divider_cache g t)"
  define e2 where "e2 = e1 mod n + d"
  have dot1: "\<not> dot_driven t g1" using False assms(4) by (simp add: dot_driven_def)
  have stamp: "last_sync_cycle (timers g1 t) = last_sync_cycle (timers g t) + of_nat (e1 div n * n)"
    "timer0_dotclock_residue g1 = timer0_dotclock_residue g"
    using assms(2,3) False by (simp_all add: timer_stamp_def n_def)
  have "e1 + d = e1 div n * n + e2" by (simp add: e2_def)
  then have "(of_nat (e1 + d) :: u64) = of_nat (e1 div n * n) + of_nat e2" by (metis of_nat_add)
  then have last: "last_sync_cycle (timers g1 t) + of_nat e2 = last_sync_cycle (timers g t) + of_nat (e1 + d)"
    using stamp(1) by simp
  have ticks: "timer_ticks_nat t g e1 + timer_ticks_nat t g1 e2 = timer_ticks_nat t g (e1 + d)"
    using False dot1 by (simp add: timer_ticks_nat_def assms(5) e2_def div_mod_split flip: n_def)
  then have "e1 div n * n + e2 div n * n = (e1 + d) div n * n"
    using False dot1 by (simp add: timer_ticks_nat_def assms(5) flip: n_def add_mult_distrib)
  then have "(of_nat (e1 div n * n) + of_nat (e2 div n * n) :: u64) = of_nat ((e1 + d) div n * n)"
    by (metis of_nat_add)
  then have "timer_stamp t g1 e2 = timer_stamp t g (e1 + d)"
    using False dot1 stamp by (simp add: timer_stamp_def assms(5) add.assoc flip: n_def)
  moreover have "e2 \<le> e1 + d" "d \<le> e2" by (simp_all add: e2_def)
  ultimately show ?thesis using that last ticks by blast
qed


text \<open>The counter after \<open>k\<close> ticks, zero included.\<close>

definition timer_step :: "nat \<Rightarrow> PsxTimer \<Rightarrow> PsxTimer" where
  "timer_step k x = (if (of_nat k :: u32) = 0 then x else fst (timer_count (of_nat k) x))"

lemma of_nat_zero_u32: "k < 2 ^ 32 \<Longrightarrow> (of_nat k :: u32) = 0 \<longleftrightarrow> k = 0"
  by (simp add: word_unat_eq_iff)

lemma timer_period_le: "ttarget x AND 0xFFFF \<noteq> 0xFFFF \<Longrightarrow> timer_period x \<le> 0x10000" "0 < timer_period x"
proof -
  assume "ttarget x AND 0xFFFF \<noteq> 0xFFFF"
  then have "unat (ttarget x AND 0xFFFF) \<noteq> 0xFFFF" by (simp add: word_unat_eq_iff)
  moreover have "unat (ttarget x AND 0xFFFF) < 0x10000" by (simp add: and_FFFF_mod)
  ultimately show "timer_period x \<le> 0x10000" by (simp add: timer_period_def)
qed (simp add: timer_period_def)

lemma timer_step_twice:
  assumes "ttarget x AND 0xFFFF \<noteq> 0xFFFF" "k1 + k2 \<le> 2 ^ 31 + 1"
    and y: "tvalue y = tvalue (timer_step k1 x)" "timer_period y = timer_period x"
  shows "tvalue (timer_step k2 y) = tvalue (timer_step (k1 + k2) x)"
proof -
  have v: "timer_val z < 0x10000" for z by (simp add: timer_val_def and_FFFF_mod)
  have step: "unat (tvalue (timer_step k z)) = (timer_val z + k) mod timer_period z"
    if "0 < k" "k \<le> 2 ^ 31 + 1" for k z
    using that v [of z] timer_count_value [of z "of_nat k"] by (simp add: timer_step_def of_nat_zero_u32)
  consider "k2 = 0" | "k1 = 0" "0 < k2" | "0 < k1" "0 < k2" by blast
  then show ?thesis
  proof cases
    case 1
    then show ?thesis using y by (simp add: timer_step_def)
  next
    case 2
    then have "timer_val y = timer_val x" using y(1) by (simp add: timer_step_def timer_val_def)
    then show ?thesis using 2 step [of k2 y] step [of k2 x] assms(2) y(2) by (simp add: word_unat_eq_iff)
  next
    case 3
    have "unat (tvalue y) < 0x10000"
      using y(1) step [of k1 x] 3 assms(2) timer_period_le(1) [OF assms(1)] timer_period_le(2) [of x]
      by (auto intro: less_le_trans [OF mod_less_divisor])
    then have "timer_val y = (timer_val x + k1) mod timer_period x"
      using y(1) step [of k1 x] 3 assms(2) by (simp add: timer_val_def and_FFFF_mod)
    then have "unat (tvalue (timer_step k2 y)) = unat (tvalue (timer_step (k1 + k2) x))"
      using step [of k2 y] step [of "k1 + k2" x] 3 assms(2) y(2) by (simp add: mod_add_left_eq add.assoc)
    then show ?thesis by (simp add: word_unat_eq_iff)
  qed
qed


text \<open>The fields of a counter that a synchronisation of a free-running counter writes.\<close>

lemma free_running_sync_fields:
  assumes "free_running t (tmr s)" "e < 2 ^ 31"
    and "EFFECTIVE_CYCLES s = last_sync_cycle (timers (tmr s) t) + of_nat e"
  defines "g \<equiv> tmr s" and "g1 \<equiv> tmr (Timer_SyncValue t s)"
  shows "tvalue (timers g1 t) = tvalue (timer_step (timer_ticks_nat t g e) (timers g t))"
    "timer_period (timers g1 t) = timer_period (timers g t)"
    "last_sync_cycle (timers g1 t) = fst (timer_stamp t g e)"
    "timer0_dotclock_residue g1 = snd (timer_stamp t g e)"
    "timer0_dotclock_num g1 = timer0_dotclock_num g" "timer_divider_cache g1 = timer_divider_cache g"
    "timer_stopped_cache g1 = timer_stopped_cache g" "ttarget (timers g1 t) = ttarget (timers g t)"
    "tmode (timers g1 t) AND 1 = 0"
    "psx_block_exception (Timer_SyncValue t s) = psx_block_exception s"
    "\<not> psx_block_exception s \<Longrightarrow> EFFECTIVE_CYCLES (Timer_SyncValue t s) = EFFECTIVE_CYCLES s"
proof -
  note sync = free_running_sync [OF assms(1-3)]
  have count: "tvalue (fst (timer_count k (x\<lparr>last_sync_cycle := l\<rparr>))) = tvalue (fst (timer_count k x))"
    "timer_period (x\<lparr>last_sync_cycle := l\<rparr>) = timer_period x" for k x l
    by (simp_all add: timer_count_def timer_period_def Let_def)
  show "tvalue (timers g1 t) = tvalue (timer_step (timer_ticks_nat t g e) (timers g t))"
    "timer_period (timers g1 t) = timer_period (timers g t)"
    "last_sync_cycle (timers g1 t) = fst (timer_stamp t g e)"
    "timer0_dotclock_residue g1 = snd (timer_stamp t g e)"
    "timer0_dotclock_num g1 = timer0_dotclock_num g" "timer_divider_cache g1 = timer_divider_cache g"
    "timer_stopped_cache g1 = timer_stopped_cache g" "ttarget (timers g1 t) = ttarget (timers g t)"
    "tmode (timers g1 t) AND 1 = 0"
    "psx_block_exception (Timer_SyncValue t s) = psx_block_exception s"
    "\<not> psx_block_exception s \<Longrightarrow> EFFECTIVE_CYCLES (Timer_SyncValue t s) = EFFECTIVE_CYCLES s"
    using assms(1) unfolding g1_def g_def sync
    by (simp_all add: timer_apply_ticks_timers timer_step_def count free_running_def)
qed

lemma free_running_kept:
  assumes "free_running t (tmr s)" "e < 2 ^ 31"
    and "EFFECTIVE_CYCLES s = last_sync_cycle (timers (tmr s) t) + of_nat e"
  shows "free_running t (tmr (Timer_SyncValue t s))"
proof -
  have "(of_nat (m mod 11) :: u32) < 11" for m
    by (simp add: word_less_nat_alt less_trans [OF mod_less_divisor])
  then show ?thesis
    using assms(1) free_running_sync_fields [OF assms]
    by (auto simp: free_running_def timer_stamp_def dot_driven_def Let_def)
qed

text \<open>The processor's clock moves on by \<open>d\<close> cycles.\<close>

definition timer_advance :: "u64 \<Rightarrow> 'a sched_scheme \<Rightarrow> 'a sched_scheme" where
  "timer_advance d s = s\<lparr>global_cycles := global_cycles s + d\<rparr>"

lemma timer_advance_simps [simp]:
  "tmr (timer_advance d s) = tmr s"
  "psx_block_exception (timer_advance d s) = psx_block_exception s"
  "EFFECTIVE_CYCLES (timer_advance d s) = EFFECTIVE_CYCLES s + d"
  by (simp_all add: timer_advance_def EFFECTIVE_CYCLES_def)


text \<open>The counters and the machine around them at reset, with an extension for the later components.\<close>

definition timer_zero :: PsxTimer where
  "timer_zero = \<lparr>tvalue = 0, tmode = 0, ttarget = 0, last_sync_cycle = 0\<rparr>"

definition timers_zero :: timer_globals where
  "timers_zero = \<lparr>timers = (\<lambda>_. timer_zero), timer_stopped_cache = (\<lambda>_. False), timer_divider_cache = (\<lambda>_. 1),
     timer_irq_fired = (\<lambda>_. False), timer_mode_set_cycle = (\<lambda>_. 0), timer0_dotclock_num = 0,
     timer0_dotclock_residue = 0, hblank_visible_cycles = 1630, timer_sync_mode3_freed = (\<lambda>_. False)\<rparr>"

definition tmachine_with :: "'a \<Rightarrow> 'a tmachine_scheme" where
  "tmachine_with x = \<lparr>sched_active = (\<lambda>_. False), sched_deadline = (\<lambda>_. 0), sched_callback = (\<lambda>_. None),
     global_cycles = 0, partial_block_cycles = 0, sched_cached_earliest = UINT64_MAX,
     sched_earliest_id = -1, sched_interrupt_chain = False, cpu = cpu_zero,
     psx_block_exception = False, psx_abort_pc = 0, psx_ram = (\<lambda>_. 0), psx_config = config_zero,
     tmr = timers_zero, hblank_frame_start_cycle = 0, gpu_stat = 0, \<dots> = x\<rparr>"

text \<open>Counter 0 on the dot clock of the 320-pixel mode, a thousand cycles after its last time stamp.\<close>

definition dotclock_running :: tmachine where
  "dotclock_running = (tmachine_with ())\<lparr>global_cycles := 1000,
     tmr := timers_zero\<lparr>timer0_dotclock_num := 56, timer0_dotclock_residue := 5\<rparr>\<rparr>"


section \<open>The clock sources\<close>

text \<open>The dividers and the dot clock are always among the values the hardware has.\<close>

definition timers_ok :: "timer_globals \<Rightarrow> bool" where
  "timers_ok g \<longleftrightarrow> (\<forall>t \<le> 2. 0 < timer_divider_cache g t \<and> timer_divider_cache g t \<le> 2173) \<and>
     timer0_dotclock_num g \<in> {0, 28, 35, 49, 56, 70} \<and> timer0_dotclock_residue g < 11"

lemma timers_ok_set_timer [simp]: "timers_ok (set_timer t x g) = timers_ok g"
  by (simp add: timers_ok_def)

lemma timers_ok_irq [simp]: "timers_ok (g\<lparr>timer_irq_fired := f\<rparr>) = timers_ok g"
  by (simp add: timers_ok_def)

lemma timer0_restart_ok: "timers_ok g \<Longrightarrow> timers_ok (timer0_restart g)"
  by (simp add: timer0_restart_def Let_def) (simp add: timers_ok_def)

lemma timers_ok_freed [simp]: "timers_ok (g\<lparr>timer_sync_mode3_freed := f\<rparr>) = timers_ok g"
  by (simp add: timers_ok_def)

lemma timer0_hblank_sync_ok: "timers_ok g \<Longrightarrow> timers_ok (snd (timer0_hblank_sync cps fs now g))"
  unfolding timer0_hblank_sync_def Let_def if_distrib [of snd] snd_conv
  by (simp only: timers_ok_set_timer timer0_restart_ok timers_ok_freed if_split simp_thms)

lemma timer1_vblank_sync_ok: "timers_ok g \<Longrightarrow> timers_ok (snd (timer1_vblank_sync cfg fs now g))"
  unfolding timer1_vblank_sync_def Let_def if_distrib [of snd] snd_conv
  by (simp only: timers_ok_set_timer timers_ok_freed if_split simp_thms)

lemma timer_sync_prelude_ok: "timers_ok (tmr s) \<Longrightarrow> timers_ok (snd (timer_sync_prelude t now s))"
  by (simp add: timer_sync_prelude_def Let_def timer0_hblank_sync_ok timer1_vblank_sync_ok)

lemma timer_take_ticks_ok: "timers_ok g \<Longrightarrow> timers_ok (snd (timer_take_ticks t now e g))"
proof (cases "t = 0 \<and> timer0_dotclock_num g > 0")
  case True
  have "(w :: u32) mod 11 < 11" for w by (simp add: word_less_nat_alt unat_mod)
  then show "timers_ok g \<Longrightarrow> timers_ok (snd (timer_take_ticks t now e g))"
    using True by (simp add: timer_take_ticks_def timers_ok_def Let_def)
qed (auto simp: timer_take_ticks_def Let_def)

lemma timer_apply_ticks_ok: "timers_ok (tmr s) \<Longrightarrow> timers_ok (tmr (timer_apply_ticks t m k s))"
  by (simp add: timers_ok_def timer_apply_ticks_timers)

lemma Timer_SyncValue_ok: "timers_ok (tmr s) \<Longrightarrow> timers_ok (tmr (Timer_SyncValue t s))"
  using timer_sync_prelude_ok [of s t "EFFECTIVE_CYCLES s"]
  by (auto simp: Timer_SyncValue_def Let_def case_prod_unfold split: option.split
      intro!: timer_apply_ticks_ok timer_take_ticks_ok)

lemma dotclock_of_ok: "snd (dotclock_of w) \<in> {28, 35, 49, 56, 70}" "0 < fst (dotclock_of w)" "fst (dotclock_of w) \<le> 2173"
  by (simp_all add: dotclock_of_def)

lemma timer_update_divider_cache_ok:
  "timers_ok (tmr s) \<Longrightarrow> timers_ok (tmr (timer_update_divider_cache t s))"
  using dotclock_of_ok [of "gpu_stat s"]
  by (auto simp: timer_update_divider_cache_def timers_ok_def Let_def case_prod_unfold cycles_per_hblank_def timing_defs)

lemma timer_update_stopped_cache_ok [simp]:
  "timers_ok (tmr (timer_update_stopped_cache t s)) = timers_ok (tmr s)"
  by (simp add: timer_update_stopped_cache_def timers_ok_def Let_def)

lemma Timer_ScheduleOne_ok: "timers_ok (tmr s) \<Longrightarrow> timers_ok (tmr (Timer_ScheduleOne t s))"
  by (simp add: Timer_ScheduleOne_def Let_def Timer_SyncValue_ok)

text \<open>
  Well-formedness of the counters. Every operation on the counters keeps the dividers between 1 and
  2173, the dot-clock numerator among its five values (or 0 for the system clock) and the residue
  below 11; so no division by zero occurs in a synchronisation and no sub-tick is lost.
\<close>

theorem timers_ok_preserved:
  assumes "timers_ok (tmr s)"
  shows "timers_ok (tmr (Timer_SyncValue t s)) \<and> timers_ok (tmr (Timer_ScheduleOne t s)) \<and>
    timers_ok (tmr (snd (Timers_Read addr s))) \<and> timers_ok (tmr (Timers_Write addr data s)) \<and>
    timers_ok (tmr (Timer_RefreshDividerCache s)) \<and> timers_ok (tmr (Timer_ScheduleAll s))"
proof -
  have "timers_ok (tmr (snd (Timers_Read addr s)))"
    using assms by (simp add: Timers_Read_def Let_def Timer_SyncValue_ok)
  moreover have "timers_ok (tmr (Timers_Write addr data s))"
  proof -
    have "timers_ok (g\<lparr>timer_mode_set_cycle := a, timer_irq_fired := b, timer_sync_mode3_freed := c\<rparr>) = timers_ok g"
      for g a b c by (simp add: timers_ok_def)
    then show ?thesis
      using assms by (auto simp: Timers_Write_def Let_def intro!: Timer_ScheduleOne_ok timer_update_divider_cache_ok)
  qed
  moreover have "timers_ok (tmr (Timer_ScheduleAll s))"
    using assms by (simp add: Timer_ScheduleAll_def upt_rec Timer_ScheduleOne_ok)
  ultimately show ?thesis
    using assms by (simp add: Timer_SyncValue_ok Timer_ScheduleOne_ok Timer_RefreshDividerCache_def
        timer_update_divider_cache_ok)
qed

lemma timers_zero_ok [simp]: "timers_ok timers_zero"
  by (simp add: timers_ok_def timers_zero_def)

theorem timers_ok_preserved_witness:
  "timers_ok (tmr (Timers_Write 0x1F801104 0x0158 (tmachine_with ())))"
  using timers_ok_preserved [of "tmachine_with ()" 0 "0x1F801104" "0x0158"] by (simp add: tmachine_with_def)

section \<open>Interrupts on time\<close>

lemma cpu_Sched [simp]:
  "cpu (Sched_Add e d cb s) = cpu s" "cpu (Sched_Remove e s) = cpu s"
  "psx_block_exception (Sched_Add e d cb s) = psx_block_exception s"
  "psx_block_exception (Sched_Remove e s) = psx_block_exception s"
  "EFFECTIVE_CYCLES (Sched_Add e d cb s) = EFFECTIVE_CYCLES s"
  "EFFECTIVE_CYCLES (Sched_Remove e s) = EFFECTIVE_CYCLES s"
  by (simp_all add: Sched_Add_def Sched_Remove_def sched_recompute_cached_def Let_def case_prod_unfold
      EFFECTIVE_CYCLES_def)

lemma timers_ok_free_running:
  "timers_ok g \<Longrightarrow> t \<le> 2 \<Longrightarrow> \<not> timer_stopped_cache g t \<Longrightarrow> tmode (timers g t) AND 1 = 0 \<Longrightarrow> free_running t g"
  by (auto simp: timers_ok_def free_running_def)

lemma bit_i_stat_timer_fire: "t \<le> 2 \<Longrightarrow> bit (i_stat (cpu (timer_fire t s))) (4 + t)"
proof -
  assume "t \<le> 2"
  then consider "t = 0" | "t = 1" | "t = 2" by linarith
  then show ?thesis by cases (simp_all add: timer_fire_def state_simps bit_simps)
qed

lemma timer_apply_ticks_fires:
  assumes "t \<le> 2" "k \<noteq> 0" "fst (snd (timer_count k (timers (tmr s) t)))" "m AND 0x10 \<noteq> 0"
    "m AND 0x40 \<noteq> 0 \<or> \<not> timer_irq_fired (tmr s) t"
  shows "bit (i_stat (cpu (timer_apply_ticks t m k s))) (4 + t)"
  using assms by (auto simp: timer_apply_ticks_def Let_def case_prod_unfold bit_i_stat_timer_fire)

lemma timer_count_meets_target:
  assumes "timer_val x < unat (ttarget x AND 0xFFFF)" "unat (ttarget x AND 0xFFFF) \<le> timer_val x + unat k"
    "timer_val x + unat k < 2 ^ 32"
  shows "fst (snd (timer_count k x))"
proof -
  have "unat ((tvalue x AND 0xFFFF) + k) = timer_val x + unat k"
    using assms(3) unat_add_lem [of "tvalue x AND 0xFFFF" k] by (simp add: timer_val_def)
  then show ?thesis
    using assms(1,2) by (auto simp: timer_count_def Let_def word_less_nat_alt word_le_nat_alt timer_val_def)
qed

definition timer_wait :: "nat \<Rightarrow> timer_globals \<Rightarrow> nat \<Rightarrow> nat" where
  "timer_wait t g n = (if dot_driven t g then (n * unat (timer0_dotclock_num g) + 10) div 11
     else n * unat (timer_divider_cache g t))"

lemma timer_wait_enough:
  assumes "timers_ok g" "t \<le> 2" "timer_wait t g n \<le> e"
  shows "n \<le> timer_ticks_nat t g e"
proof (cases "dot_driven t g")
  case True
  have "n * unat (timer0_dotclock_num g) \<le> (n * unat (timer0_dotclock_num g) + 10) div 11 * 11"
    using div_mult_mod_eq [of "n * unat (timer0_dotclock_num g) + 10" 11]
      mod_less_divisor [of 11 "n * unat (timer0_dotclock_num g) + 10"] by linarith
  also have "\<dots> \<le> e * 11 + unat (timer0_dotclock_residue g)"
    using assms(3) True by (simp add: timer_wait_def)
  finally show ?thesis
    using True by (simp add: timer_ticks_nat_def dot_driven_def less_eq_div_iff_mult_less_eq word_less_nat_alt)
next
  case False
  have "0 < unat (timer_divider_cache g t)" using assms(1,2) by (simp add: timers_ok_def word_less_nat_alt)
  with False assms(3) show ?thesis by (simp add: timer_ticks_nat_def timer_wait_def less_eq_div_iff_mult_less_eq)
qed

lemma timer_wait_le:
  assumes "timers_ok g" "t \<le> 2" "n \<le> 0x10001"
  shows "timer_wait t g n < 2 ^ 28"
proof (cases "dot_driven t g")
  case True
  have "unat (timer0_dotclock_num g) \<le> 70" using assms(1) by (auto simp: timers_ok_def)
  with assms(3) have "n * unat (timer0_dotclock_num g) \<le> 0x10001 * 70" by (rule mult_le_mono)
  with True show ?thesis by (simp add: timer_wait_def div_less_iff_less_mult)
next
  case False
  have "unat (timer_divider_cache g t) \<le> 2173" using assms(1,2) by (auto simp: timers_ok_def word_le_nat_alt)
  with assms(3) have "n * unat (timer_divider_cache g t) \<le> 0x10001 * 2173" by (rule mult_le_mono)
  with False show ?thesis by (simp add: timer_wait_def)
qed


lemma timer_ticks_to_target:
  assumes "timer_val x < unat (ttarget x AND 0xFFFF)" "m AND 0x10 \<noteq> 0"
  shows "unat (timer_ticks_to_event m (tvalue x AND 0xFFFF) (ttarget x AND 0xFFFF)) =
    unat (ttarget x AND 0xFFFF) + 1 - timer_val x"
proof -
  define v where "v = tvalue x AND 0xFFFF"
  define T where "T = ttarget x AND 0xFFFF"
  have v: "unat v < unat T" and T: "unat T < 0x10000"
    using assms(1) by (simp_all add: v_def T_def timer_val_def and_FFFF_mod)
  have T1: "unat (T + 1) = unat T + 1" using T unat_add_lem [of T 1] by simp
  then have n: "unat (T + 1 - v) = unat T + 1 - unat v"
    using v by (simp add: unat_sub word_le_nat_alt)
  have ov: "unat (0x10000 - v) = 0x10000 - unat v" using v T by (simp add: unat_sub word_le_nat_alt)
  have "0 < T" "v \<le> T" using v by (simp_all add: word_less_nat_alt word_le_nat_alt)
  then show ?thesis
    using assms(2) v T n ov unfolding timer_ticks_to_event_def Let_def v_def [symmetric] T_def [symmetric] timer_val_def
    by (auto simp: word_less_nat_alt unat_eq_zero [symmetric])
qed

lemma timer_deadline_word:
  assumes "timers_ok g" "t \<le> 2" "unat n \<le> 0x10001"
  shows "(if t = 0 \<and> timer0_dotclock_num g > 0 then now + (ucast n * ucast (timer0_dotclock_num g) + 10) div 11
          else now + ucast n * ucast (if timer_divider_cache g t = 0 then 1 else timer_divider_cache g t)) =
    (now + of_nat (timer_wait t g (unat n)) :: u64)"
proof (cases "dot_driven t g")
  case True
  have "unat (timer0_dotclock_num g) \<le> 70" using assms(1) by (auto simp: timers_ok_def)
  with assms(3) have le: "unat n * unat (timer0_dotclock_num g) \<le> 0x10001 * 70" by (rule mult_le_mono)
  have "(ucast n * ucast (timer0_dotclock_num g) + 10 :: u64) = of_nat (unat n * unat (timer0_dotclock_num g) + 10)"
    by simp
  also have "\<dots> div 11 = of_nat ((unat n * unat (timer0_dotclock_num g) + 10) div 11)"
    using le of_nat_div_u64 [of "unat n * unat (timer0_dotclock_num g) + 10" 11] by simp
  finally show ?thesis using True by (simp add: dot_driven_def timer_wait_def)
next
  case False
  moreover have "timer_divider_cache g t \<noteq> 0" using assms(1,2) by (auto simp: timers_ok_def)
  ultimately show ?thesis by (auto simp: dot_driven_def timer_wait_def)
qed


lemma Timer_ScheduleOne_adds:
  assumes "timers_ok (tmr s1)" "t \<le> 2" and s1: "s1 = Timer_SyncValue t s"
    and "\<not> timer_stopped_cache (tmr s1) t" "tmode (timers (tmr s1) t) AND 0x10 \<noteq> 0"
    and "tmode (timers (tmr s1) t) AND 0x40 \<noteq> 0 \<or> \<not> timer_irq_fired (tmr s1) t"
    and "timer_val (timers (tmr s1) t) < unat (ttarget (timers (tmr s1) t) AND 0xFFFF)"
  defines "n \<equiv> unat (ttarget (timers (tmr s1) t) AND 0xFFFF) + 1 - timer_val (timers (tmr s1) t)"
  shows "Timer_ScheduleOne t s =
    Sched_Add t (EFFECTIVE_CYCLES s1 + of_nat (timer_wait t (tmr s1) n)) (Timer_Callback t) s1 \<and> n \<le> 0x10001"
proof -
  define x where "x = timers (tmr s1) t"
  define w where "w = timer_ticks_to_event (tmode x) (tvalue x AND 0xFFFF) (ttarget x AND 0xFFFF)"
  have w: "unat w = n" using timer_ticks_to_target [of x "tmode x"] assms(5,7) by (simp add: w_def n_def x_def)
  have "unat (ttarget x AND 0xFFFF) < 0x10000" by (simp add: and_FFFF_mod)
  then have n: "n \<le> 0x10001" by (simp add: n_def x_def)
  have "tmode x AND 0x30 \<noteq> 0" using assms(5) by (auto simp: x_def u32_eq_bits bit_simps)
  then have "Timer_ScheduleOne t s = Sched_Add t
      (if t = 0 \<and> timer0_dotclock_num (tmr s1) > 0
       then EFFECTIVE_CYCLES s1 + (ucast w * ucast (timer0_dotclock_num (tmr s1)) + 10) div 11
       else EFFECTIVE_CYCLES s1 + ucast w * ucast (if timer_divider_cache (tmr s1) t = 0 then 1
              else timer_divider_cache (tmr s1) t)) (Timer_Callback t) s1"
    using assms(2,4,6) by (simp add: Timer_ScheduleOne_def Let_def s1 [symmetric] x_def [symmetric] w_def
        SCHED_EVENT_TIMER0_def)
  then show ?thesis
    using timer_deadline_word [OF assms(1,2), of w "EFFECTIVE_CYCLES s1"] n by (simp only: w)
qed

lemma i_stat_ScheduleOne:
  "t \<le> 2 \<Longrightarrow> cpu (Timer_ScheduleOne t s) = cpu (Timer_SyncValue t s)"
  by (simp add: Timer_ScheduleOne_def Let_def)


text \<open>Counter 2 counts system clocks to the target 100, with the repeated target interrupt.\<close>

definition target_counting :: tmachine where
  "target_counting = (tmachine_with ())\<lparr>global_cycles := 40, tmr := set_timer 2
     (timer_zero\<lparr>tmode := 0x58, ttarget := 100\<rparr>) timers_zero\<rparr>"


section \<open>Sync modes that lose the time stamp\<close>

text \<open>
  Counter 0 on the system clock, told to pause during the horizontal blank, at a time stamp in the blank
  of the first line (cycle 1700 of the frame).
\<close>

definition pausing :: tmachine where
  "pausing = (tmachine_with ())\<lparr>global_cycles := 1700,
     tmr := set_timer 0 (timer_zero\<lparr>tmode := 1, last_sync_cycle := 1700\<rparr>) timers_zero\<rparr>"

lemmas timer_eval = tmachine_with_def timers_zero_def timer_zero_def Timer_SyncValue_def timer_sync_prelude_def
  timer0_hblank_sync_def timer1_vblank_sync_def timer_take_ticks_def timer_apply_ticks_def timer_count_def
  count_active_cycles_hblank_def EFFECTIVE_CYCLES_def cpu_zero_def config_zero_def cycles_per_hblank_def timing_defs
  Let_def set_timer_def timer_advance_def timer0_restart_def

text \<open>
  In the pausing mode on the system clock a synchronisation moves the time stamp by the ticks it
  counted, not to the present, so the cycles of the blank are looked at again. From cycle 1700 to cycle
  2193 twenty cycles are visible, and one synchronisation counts twenty; with a synchronisation at cycle
  2183 in between the counter reads thirty.
\<close>

theorem timer0_pause_counts_twice:
  "tvalue (timers (tmr (Timer_SyncValue 0 (timer_advance 493 pausing))) 0) = 20 \<and>
   tvalue (timers (tmr (Timer_SyncValue 0 (timer_advance 10
     (Timer_SyncValue 0 (timer_advance 483 pausing))))) 0) = 30"
  by (simp add: pausing_def timer_eval)

text \<open>Counter 1 waiting for its first vertical blank, never read before it.\<close>

definition waiting_vblank :: tmachine where
  "waiting_vblank = (tmachine_with ())\<lparr>global_cycles := 521520,
     tmr := set_timer 1 (timer_zero\<lparr>tmode := 7\<rparr>) timers_zero\<rparr>"

text \<open>
  Counter 1 in the mode that waits for the first vertical blank. The synchronisation that starts it
  sets the time stamp to the present and then still counts, and adds to the time stamp, the cycles
  during which it was waiting: the counter does not start from 0 and its time stamp lies in the future,
  so that the next synchronisation sees a negative interval.
\<close>

theorem timer1_first_vblank_stamp_in_future:
  "let g = tmr (Timer_SyncValue 1 waiting_vblank) in
     tvalue (timers g 1) = 62768 \<and> EFFECTIVE_CYCLES waiting_vblank < last_sync_cycle (timers g 1)"
  by (simp add: waiting_vblank_def timer_eval)

section \<open>The counters and the scheduler\<close>



lemma sched_ops_tmr [ops_simps]:
  "sched_ops s (t\<lparr>tmr := g\<rparr>) = sched_ops s t"
  "sched_ops s (t\<lparr>hblank_frame_start_cycle := n\<rparr>) = sched_ops s t"
  "sched_ops s (t\<lparr>gpu_stat := w\<rparr>) = sched_ops s t"
  by (rule sched_ops_same_iff, simp add: sched_same_def)+

lemma sched_ops_timer [ops_simps]:
  "sched_ops s (timer_fire i t) = sched_ops s t"
  "sched_ops s (timer_apply_ticks i m k t) = sched_ops s t"
  "sched_ops s (Timer_SyncValue i t) = sched_ops s t"
  "sched_ops s (timer_update_divider_cache i t) = sched_ops s t"
  "sched_ops s (timer_update_stopped_cache i t) = sched_ops s t"
proof -
  show fire: "sched_ops s (timer_fire i t) = sched_ops s t" for t by (simp add: timer_fire_def ops_simps)
  show ticks: "sched_ops s (timer_apply_ticks i m k t) = sched_ops s t" for m k t
    by (simp add: timer_apply_ticks_def Let_def case_prod_unfold fire ops_simps)
  show "sched_ops s (Timer_SyncValue i t) = sched_ops s t"
    by (simp add: Timer_SyncValue_def Let_def case_prod_unfold ticks ops_simps split: option.split)
  show "sched_ops s (timer_update_divider_cache i t) = sched_ops s t"
    "sched_ops s (timer_update_stopped_cache i t) = sched_ops s t"
    by (simp_all add: timer_update_divider_cache_def timer_update_stopped_cache_def Let_def
        case_prod_unfold ops_simps)
qed

lemma sched_ops_timer_registers [ops_simps]:
  "sched_ops s t \<Longrightarrow> sched_ops s (Timer_ScheduleOne i t)"
  "sched_ops s t \<Longrightarrow> sched_ops s (snd (Timers_Read addr t))"
  "sched_ops s t \<Longrightarrow> sched_ops s (Timers_Write addr data t)"
proof -
  show one: "sched_ops s t \<Longrightarrow> sched_ops s (Timer_ScheduleOne i t)" for i t
    by (simp add: Timer_ScheduleOne_def Let_def sched_event_defs ops_simps)
  show "sched_ops s t \<Longrightarrow> sched_ops s (snd (Timers_Read addr t))"
    by (simp add: Timers_Read_def Let_def ops_simps)
  show "sched_ops s t \<Longrightarrow> sched_ops s (Timers_Write addr data t)"
    by (simp add: Timers_Write_def Let_def one ops_simps)
qed

end
