(* ===== verification/Sio.thy ===== *)
theory Sio
  imports Timers Memory_Card
begin

text \<open>
  The controller and memory-card port of \<^verbatim>\<open>src/sio.c\<close>: one byte exchange per write of the data
  register, routed to a pad response built when the pad is addressed or to the memory card's own
  protocol, an acknowledge that raises interrupt line 7 after a delay, and the control register that
  selects a port. The pads are read through \<^verbatim>\<open>joystick.h\<close> from the host; the model takes their answers
  as an argument.

  Shown here: the response index stays in range; a pad poll returns the documented frame, with or
  without a multitap; the port is transparent for the memory card (the bytes exchanged through the
  registers are those of the card's protocol); and selecting, acknowledging and deselecting leave the
  interrupt and the card in the right state.
\<close>

section \<open>State\<close>

record sio_globals =
  sio_data :: u32
  sio_stat :: u32
  sio_mode :: u16
  sio_ctrl :: u16
  sio_baud :: u16
  sio_tx_pending :: bool
  sio_state :: nat
  sio_deferred_vblank :: bool
  sio_response :: "u8 list"
  sio_response_len :: nat
  sio_selected :: bool
  sio_port :: int
  sio_device :: nat
  serial_mode :: u16
  serial_ctrl :: u16
  serial_baud :: u16
  sio_irq_delay_cycle :: u64
  sio_irq_pending :: bool
  sio_ack_latch :: bool

record smachine = tmachine +
  sio :: sio_globals
  mcd :: mcds

text \<open>The host's pads: multitap on a port, a pad in a slot, and the three bytes of its digital response.\<close>

record pads =
  Joystick_HasMultitap :: "int \<Rightarrow> bool"
  Joystick_IsConnected :: "int \<Rightarrow> nat \<Rightarrow> bool"
  Joystick_GetPSXDigitalResponse :: "int \<Rightarrow> nat \<Rightarrow> u8 \<times> u8 \<times> u8"

definition SIO_IRQ_DELAY :: u32 where "SIO_IRQ_DELAY = 500"
definition SIO_MCD_IRQ_DELAY :: u32 where "SIO_MCD_IRQ_DELAY = 1500"

section \<open>Interrupts\<close>

definition sio_flush_deferred_vblank :: "'a smachine_scheme \<Rightarrow> 'a smachine_scheme" where
  "sio_flush_deferred_vblank s =
     (if sio_deferred_vblank (sio s)
      then let s1 = update_irq_pending (s\<lparr>cpu := (cpu s)\<lparr>i_stat := i_stat (cpu s) OR 1\<rparr>\<rparr>)
           in s1\<lparr>sio := (sio s1)\<lparr>sio_deferred_vblank := False\<rparr>\<rparr>
      else s)"

definition run_Sched_SIO_IRQ_Callback :: "int \<Rightarrow> 'a smachine_scheme \<Rightarrow> 'a smachine_scheme" where
  "run_Sched_SIO_IRQ_Callback ticks_late s =
     SignalInterrupt 7 (s\<lparr>sio := (sio s)\<lparr>sio_irq_delay_cycle := 0, sio_irq_pending := False,
       sio_stat := sio_stat (sio s) OR 0x200\<rparr>\<rparr>)"

definition sio_schedule_after :: "u32 \<Rightarrow> 'a smachine_scheme \<Rightarrow> 'a smachine_scheme" where
  "sio_schedule_after delay s =
     (let deadline = global_cycles s + ucast (partial_block_cycles s) + ucast delay
      in Sched_Add SCHED_EVENT_SIO_IRQ deadline Sched_SIO_IRQ_Callback
           (s\<lparr>sio := (sio s)\<lparr>sio_irq_delay_cycle := deadline\<rparr>\<rparr>))"

definition sio_schedule_irq :: "'a smachine_scheme \<Rightarrow> 'a smachine_scheme" where
  "sio_schedule_irq s = sio_schedule_after SIO_IRQ_DELAY s"

text \<open>Trim the cycles left of a running block to a target, keeping account of the difference.\<close>

definition cap_cycles_left :: "u32 \<Rightarrow> 'a core_scheme \<Rightarrow> 'a core_scheme" where
  "cap_cycles_left target s =
     (let c = cpu s
      in if sint (cycles_left c) > sint target
         then s\<lparr>cpu := c\<lparr>cycles_left_correction := cycles_left_correction c + (cycles_left c - target),
                cycles_left := target\<rparr>\<rparr>
         else s)"

definition sio_assert_ack :: "'a smachine_scheme \<Rightarrow> 'a smachine_scheme" where
  "sio_assert_ack s =
     (let s1 = s\<lparr>sio := (sio s)\<lparr>sio_ack_latch := True\<rparr>\<rparr>
      in if sio_device (sio s1) = 2
         then cap_cycles_left (SIO_MCD_IRQ_DELAY + 200) (sio_schedule_after SIO_MCD_IRQ_DELAY s1)
         else cap_cycles_left (SIO_IRQ_DELAY + 200)
                (sio_schedule_irq (s1\<lparr>sio := (sio s1)\<lparr>sio_irq_pending := True\<rparr>\<rparr>)))"

definition sio_cancel_irq :: "'a smachine_scheme \<Rightarrow> 'a smachine_scheme" where
  "sio_cancel_irq s = Sched_Remove SCHED_EVENT_SIO_IRQ (s\<lparr>sio := (sio s)\<lparr>sio_irq_delay_cycle := 0\<rparr>\<rparr>)"

section \<open>Reads\<close>

definition SIO_Read :: "u32 \<Rightarrow> 'a smachine_scheme \<Rightarrow> u32 \<times> 'a smachine_scheme" where
  "SIO_Read phys s =
     (let g = sio s; off = phys - 0x1F801040
      in if off = 0x00 then (sio_data g, s\<lparr>sio := g\<lparr>sio_tx_pending := False, sio_data := 0xFF\<rparr>\<rparr>)
         else if off = 0x04
         then let stat = (if sio_tx_pending g then 0x05 OR 0x02 else 0x05);
                  acked = (sio_selected g \<and> sio_state g > 0 \<and>
                    (if sio_device g = 2 then sio_ack_latch g else sio_state g < sio_response_len g));
                  g1 = (if sio_selected g \<and> sio_state g > 0 \<and> sio_device g = 2 \<and> sio_ack_latch g
                        then g\<lparr>sio_ack_latch := False\<rparr> else g);
                  stat1 = (if acked then stat OR 0x80 else stat)
              in (stat1 OR (sio_stat g AND 0x200), s\<lparr>sio := g1\<rparr>)
         else if off = 0x08 then (ucast (sio_mode g AND 0x3F), s)
         else if off = 0x0A then (ucast (sio_ctrl g), s)
         else if off = 0x0E then (ucast (sio_baud g), s)
         else if off = 0x10 then (0xFF, s)
         else if off = 0x14 then (0x05, s)
         else if off = 0x18 then (ucast (serial_mode g AND 0xFF), s)
         else if off = 0x1A then (ucast (serial_ctrl g), s)
         else if off = 0x1E then (ucast (serial_baud g), s)
         else (0, s))"

section \<open>Writes\<close>

text \<open>The multitap's four bytes for one slot.\<close>

definition multitap_slot :: "pads \<Rightarrow> int \<Rightarrow> nat \<Rightarrow> u8 list" where
  "multitap_slot p port slot =
     (if Joystick_IsConnected p port slot
      then case Joystick_GetPSXDigitalResponse p port slot of (a, b, c) \<Rightarrow> [a, 0x5A, b, c]
      else [0xFF, 0xFF, 0xFF, 0xFF])"

definition sio_pad_response :: "pads \<Rightarrow> int \<Rightarrow> sio_globals \<Rightarrow> sio_globals" where
  "sio_pad_response p port g =
     (if Joystick_HasMultitap p port
      then let r0 = put_block 0 [0xFF, 0x80, 0x5A] (sio_response g);
               r1 = fold (\<lambda>slot. put_block (3 + slot * 4) (multitap_slot p port slot)) [0..<4] r0
           in g\<lparr>sio_response := r1, sio_response_len := 19\<rparr>
      else case Joystick_GetPSXDigitalResponse p port 0 of (a, b, c) \<Rightarrow>
           g\<lparr>sio_response := put_block 0 [0xFF, a, 0x5A, b, c] (sio_response g), sio_response_len := 5\<rparr>)"

definition sio_write_data :: "pads \<Rightarrow> u8 \<Rightarrow> 'a smachine_scheme \<Rightarrow> 'a smachine_scheme" where
  "sio_write_data p tx s =
     (let g = sio s
      in if \<not> sio_selected g then s\<lparr>sio := g\<lparr>sio_data := 0xFF, sio_tx_pending := True\<rparr>\<rparr>
         else if sio_state g = 0
         then if tx = 0x01
              then let g1 = sio_pad_response p (sio_port g) (g\<lparr>sio_device := 1\<rparr>)
                   in sio_assert_ack (s\<lparr>sio := g1\<lparr>sio_data := ucast (sio_response g1 ! 0), sio_state := 1,
                        sio_tx_pending := True\<rparr>\<rparr>)
              else if tx = 0x81
              then let (rx, m) = MCD_Tick (sio_port g) tx (MCD_Reset (sio_port g) (mcd s));
                       s1 = s\<lparr>sio := g\<lparr>sio_device := 2, sio_data := ucast rx, sio_state := 1,
                              sio_tx_pending := True\<rparr>, mcd := m\<rparr>
                   in if \<not> MCD_IsIdle (sio_port g) m then sio_assert_ack s1 else s1
              else s\<lparr>sio := g\<lparr>sio_data := 0xFF, sio_tx_pending := True\<rparr>\<rparr>
         else if sio_device g = 2
         then let (rx, m) = MCD_Tick (sio_port g) tx (mcd s);
                  s1 = s\<lparr>sio := g\<lparr>sio_data := ucast rx, sio_tx_pending := True, sio_state := sio_state g + 1\<rparr>,
                         mcd := m\<rparr>
              in if \<not> MCD_IsIdle (sio_port g) m then sio_assert_ack s1 else cap_cycles_left 200 s1
         else if sio_state g < sio_response_len g
         then let s1 = s\<lparr>sio := g\<lparr>sio_data := ucast (sio_response g ! sio_state g), sio_tx_pending := True\<rparr>\<rparr>;
                  s2 = (if sio_state g < sio_response_len g - 1 then sio_assert_ack s1 else s1)
              in s2\<lparr>sio := (sio s2)\<lparr>sio_state := sio_state (sio s2) + 1\<rparr>\<rparr>
         else s\<lparr>sio := g\<lparr>sio_data := 0xFF, sio_tx_pending := True\<rparr>\<rparr>)"

text \<open>Reset of the port, bit 6 of the control register.\<close>

definition sio_reset :: "'a smachine_scheme \<Rightarrow> 'a smachine_scheme" where
  "sio_reset s =
     (let s1 = sio_flush_deferred_vblank (s\<lparr>sio := (sio s)\<lparr>sio_ctrl := 0, sio_mode := 0, sio_baud := 0,
                 sio_tx_pending := False\<rparr>\<rparr>)
      in sio_cancel_irq (s1\<lparr>sio := (sio s1)\<lparr>sio_state := 0, sio_response_len := 0, sio_selected := False,
           sio_port := 0, sio_device := 0, sio_data := 0xFF, sio_irq_pending := False,
           sio_ack_latch := False\<rparr>\<rparr>))"

text \<open>Acknowledge, bit 4.\<close>

definition sio_ctrl_ack :: "'a smachine_scheme \<Rightarrow> 'a smachine_scheme" where
  "sio_ctrl_ack s =
     (let s1 = s\<lparr>sio := (sio s)\<lparr>sio_stat := sio_stat (sio s) AND NOT 0x200\<rparr>\<rparr>
      in if sio_irq_pending (sio s1)
         then let s2 = sio_cancel_irq s1
              in s2\<lparr>psx_abort_pc := current_pc (cpu s2) + 4, cpu := (cpu s2)\<lparr>block_aborted := True\<rparr>\<rparr>
         else s1)"

definition sio_select :: "int \<Rightarrow> 'a smachine_scheme \<Rightarrow> 'a smachine_scheme" where
  "sio_select old_port s =
     (let g = sio s;
          s1 = (if \<not> sio_selected g \<or> sio_port g \<noteq> old_port
                then let s2 = (if sio_selected g \<and> sio_device g = 2 \<and> sio_port g \<noteq> old_port
                               then s\<lparr>mcd := MCD_Reset old_port (mcd s)\<rparr> else s);
                         s3 = sio_flush_deferred_vblank s2
                     in s3\<lparr>sio := (sio s3)\<lparr>sio_state := 0, sio_device := 0, sio_ack_latch := False\<rparr>\<rparr>
                else s)
      in s1\<lparr>sio := (sio s1)\<lparr>sio_selected := True\<rparr>\<rparr>)"

definition sio_deselect :: "'a smachine_scheme \<Rightarrow> 'a smachine_scheme" where
  "sio_deselect s =
     (let g = sio s;
          s1 = (if sio_selected g \<and> sio_device g = 2 then s\<lparr>mcd := MCD_Reset (sio_port g) (mcd s)\<rparr> else s);
          s2 = sio_flush_deferred_vblank (s1\<lparr>sio := (sio s1)\<lparr>sio_selected := False\<rparr>\<rparr>)
      in sio_cancel_irq (s2\<lparr>sio := (sio s2)\<lparr>sio_state := 0, sio_device := 0, sio_irq_pending := False,
           sio_ack_latch := False\<rparr>\<rparr>))"

definition sio_write_ctrl :: "u32 \<Rightarrow> 'a smachine_scheme \<Rightarrow> 'a smachine_scheme" where
  "sio_write_ctrl data s =
     (let s1 = s\<lparr>sio := (sio s)\<lparr>sio_ctrl := ucast data\<rparr>\<rparr>
      in if data AND 0x40 \<noteq> 0 then sio_reset s1
         else let s2 = (if data AND 0x10 \<noteq> 0 then sio_ctrl_ack s1 else s1);
                  old_port = sio_port (sio s2);
                  s3 = s2\<lparr>sio := (sio s2)\<lparr>sio_port := uint (drop_bit 13 data AND 1)\<rparr>\<rparr>
              in if data AND 0x02 \<noteq> 0 then sio_select old_port s3 else sio_deselect s3)"

definition SIO_Write :: "pads \<Rightarrow> u32 \<Rightarrow> u32 \<Rightarrow> 'a smachine_scheme \<Rightarrow> 'a smachine_scheme" where
  "SIO_Write p phys data s =
     (let g = sio s; off = phys - 0x1F801040
      in if off = 0x00 then sio_write_data p (ucast (data AND 0xFF)) s
         else if off = 0x08 then s\<lparr>sio := g\<lparr>sio_mode := ucast (data AND 0x3F)\<rparr>\<rparr>
         else if off = 0x0A then sio_write_ctrl data s
         else if off = 0x0E then s\<lparr>sio := g\<lparr>sio_baud := ucast data\<rparr>\<rparr>
         else if off = 0x18 then s\<lparr>sio := g\<lparr>serial_mode := ucast (data AND 0xFF)\<rparr>\<rparr>
         else if off = 0x1A
         then if data AND 0x40 \<noteq> 0
              then s\<lparr>sio := g\<lparr>serial_ctrl := 0, serial_mode := 0, serial_baud := 0\<rparr>\<rparr>
              else s\<lparr>sio := g\<lparr>serial_ctrl := ucast data\<rparr>\<rparr>
         else if off = 0x1E then s\<lparr>sio := g\<lparr>serial_baud := ucast data\<rparr>\<rparr>
         else s)"

section \<open>Frames\<close>

lemma sio_frames [simp]:
  "sio (Sched_Add e d cb s) = sio s" "sio (Sched_Remove e s) = sio s"
  "mcd (Sched_Add e d cb s) = mcd s" "mcd (Sched_Remove e s) = mcd s"
  "sio (SignalInterrupt i s) = sio s" "mcd (SignalInterrupt i s) = mcd s"
  "sio (update_irq_pending s) = sio s" "mcd (update_irq_pending s) = mcd s"
  "sio (cap_cycles_left n s) = sio s" "mcd (cap_cycles_left n s) = mcd s"
  by (simp_all add: Sched_Add_def Sched_Remove_def sched_recompute_cached_def Let_def case_prod_unfold
      SignalInterrupt_def update_irq_pending_def cap_cycles_for_irq_def cap_cycles_left_def)

lemma cap_cycles_left_sched [simp]:
  "sched_active (cap_cycles_left n s) = sched_active s"
  "sched_deadline (cap_cycles_left n s) = sched_deadline s"
  "sched_callback (cap_cycles_left n s) = sched_callback s"
  "global_cycles (cap_cycles_left n s) = global_cycles s"
  by (simp_all add: cap_cycles_left_def Let_def)

text \<open>The delay of the device that is being addressed.\<close>

definition sio_delay :: "sio_globals \<Rightarrow> u32" where
  "sio_delay g = (if sio_device g = 2 then SIO_MCD_IRQ_DELAY else SIO_IRQ_DELAY)"

definition sio_irq_deadline :: "'a smachine_scheme \<Rightarrow> u64" where
  "sio_irq_deadline s = global_cycles s + ucast (partial_block_cycles s) + ucast (sio_delay (sio s))"

lemma sio_assert_ack_simps [simp]:
  "sio (sio_assert_ack s) = (sio s)\<lparr>sio_irq_delay_cycle := sio_irq_deadline s,
     sio_irq_pending := (sio_device (sio s) \<noteq> 2 \<or> sio_irq_pending (sio s)), sio_ack_latch := True\<rparr>"
  "mcd (sio_assert_ack s) = mcd s"
  "sched_active (sio_assert_ack s) = (sched_active s)(SCHED_EVENT_SIO_IRQ := True)"
  "sched_deadline (sio_assert_ack s) = (sched_deadline s)(SCHED_EVENT_SIO_IRQ := sio_irq_deadline s)"
  "sched_callback (sio_assert_ack s) = (sched_callback s)(SCHED_EVENT_SIO_IRQ := Some Sched_SIO_IRQ_Callback)"
  "global_cycles (sio_assert_ack s) = global_cycles s"
  by (auto simp: sio_assert_ack_def sio_schedule_irq_def sio_schedule_after_def sio_irq_deadline_def
      sio_delay_def Let_def frame_simps)

lemma sio_flush_simps [simp]:
  "sio (sio_flush_deferred_vblank s) = (sio s)\<lparr>sio_deferred_vblank := False\<rparr>"
  "mcd (sio_flush_deferred_vblank s) = mcd s"
  "sched_active (sio_flush_deferred_vblank s) = sched_active s"
  by (simp_all add: sio_flush_deferred_vblank_def Let_def update_irq_pending_def cap_cycles_for_irq_def)

lemma sio_cancel_irq_simps [simp]:
  "sio (sio_cancel_irq s) = (sio s)\<lparr>sio_irq_delay_cycle := 0\<rparr>"
  "mcd (sio_cancel_irq s) = mcd s"
  "sched_active (sio_cancel_irq s) = (sched_active s)(SCHED_EVENT_SIO_IRQ := False)"
  by (simp_all add: sio_cancel_irq_def frame_simps)

section \<open>Scheduler\<close>

lemma sched_ops_sio_fields [ops_simps]:
  "sched_ops s (t\<lparr>sio := g\<rparr>) = sched_ops s t" "sched_ops s (t\<lparr>mcd := m\<rparr>) = sched_ops s t"
  "sched_ops s (cap_cycles_left n t) = sched_ops s t"
  by (rule sched_ops_same_iff, simp add: sched_same_def cap_cycles_left_def Let_def)+

lemma sched_ops_sio_irq [ops_simps]:
  "sched_ops s (sio_flush_deferred_vblank t) = sched_ops s t"
  "sched_ops s t \<Longrightarrow> sched_ops s (sio_assert_ack t)"
  "sched_ops s t \<Longrightarrow> sched_ops s (sio_cancel_irq t)"
  "sched_ops s (run_Sched_SIO_IRQ_Callback late t) = sched_ops s t"
  by (simp_all add: sio_flush_deferred_vblank_def sio_assert_ack_def sio_schedule_irq_def sio_schedule_after_def
      sio_cancel_irq_def run_Sched_SIO_IRQ_Callback_def sched_event_defs Let_def ops_simps)

lemma sched_ops_sio [ops_simps]:
  "sched_ops s t \<Longrightarrow> sched_ops s (sio_write_data p tx t)"
  "sched_ops s t \<Longrightarrow> sched_ops s (sio_write_ctrl data t)"
  "sched_ops s (snd (SIO_Read phys t)) = sched_ops s t"
  by (simp_all add: sio_write_data_def sio_write_ctrl_def sio_reset_def sio_ctrl_ack_def sio_select_def
      sio_deselect_def SIO_Read_def Let_def case_prod_unfold ops_simps)

lemma sched_ops_SIO_Write [ops_simps]: "sched_ops s t \<Longrightarrow> sched_ops s (SIO_Write p phys data t)"
  by (simp add: SIO_Write_def Let_def ops_simps)

section \<open>Indices in range\<close>

definition sio_ok :: "sio_globals \<Rightarrow> bool" where
  "sio_ok g \<longleftrightarrow> length (sio_response g) = 20 \<and> sio_response_len g \<le> 19 \<and> sio_port g \<in> {0, 1} \<and>
     sio_device g \<le> 2"

lemma length_multitap_slot [simp]: "length (multitap_slot p port slot) = 4"
  by (simp add: multitap_slot_def case_prod_unfold)

lemma sio_pad_response_ok: "sio_ok g \<Longrightarrow> sio_ok (sio_pad_response p port g)"
  by (simp add: sio_ok_def sio_pad_response_def Let_def case_prod_unfold upt_rec length_put_block)

lemma bit0_port: "uint ((w :: u32) AND 1) \<in> {0, 1}"
proof -
  have "w AND 1 = 0 \<or> w AND 1 = 1" by (auto simp: u32_eq_bits bit_simps)
  then show ?thesis by auto
qed

lemma sio_ok_fields [simp]:
  "sio_ok (g\<lparr>sio_mode := a\<rparr>) = sio_ok g" "sio_ok (g\<lparr>sio_baud := a\<rparr>) = sio_ok g"
  "sio_ok (g\<lparr>serial_mode := a\<rparr>) = sio_ok g" "sio_ok (g\<lparr>serial_ctrl := a\<rparr>) = sio_ok g"
  "sio_ok (g\<lparr>serial_baud := a\<rparr>) = sio_ok g"
  "sio_ok (g\<lparr>serial_mode := a, serial_ctrl := b, serial_baud := c\<rparr>) = sio_ok g"
  by (simp_all add: sio_ok_def)

lemma sio_write_data_ok:
  assumes "sio_ok (sio s)" "mcds_ok (mcd s)"
  shows "sio_ok (sio (sio_write_data p tx s))" "mcds_ok (mcd (sio_write_data p tx s))"
proof -
  have pad: "sio_ok (sio_pad_response p (sio_port (sio s)) ((sio s)\<lparr>sio_device := 1\<rparr>))"
    using assms(1) by (intro sio_pad_response_ok) (simp add: sio_ok_def)
  then show "sio_ok (sio (sio_write_data p tx s))"
    using assms(1) by (auto simp: sio_write_data_def Let_def case_prod_unfold sio_ok_def)
  show "mcds_ok (mcd (sio_write_data p tx s))"
    using assms(2) by (simp add: sio_write_data_def Let_def case_prod_unfold MCD_Tick_ok MCD_Reset_ok)
qed

lemma sio_write_ctrl_ok:
  assumes "sio_ok (sio s)" "mcds_ok (mcd s)"
  shows "sio_ok (sio (sio_write_ctrl data s))" "mcds_ok (mcd (sio_write_ctrl data s))"
  using assms bit0_port [of "drop_bit 13 data"]
  by (auto simp: sio_write_ctrl_def sio_reset_def sio_ctrl_ack_def sio_select_def sio_deselect_def Let_def
      sio_ok_def MCD_Reset_ok)

text \<open>
  The invariant of the port: the response buffer keeps its 20 bytes, at most 19 of them are valid, the
  port and the device are among the existing ones, and the cards keep their own invariant, across every
  register access; so every index into the buffer and the cards is in range.
\<close>

theorem sio_ok_preserved:
  assumes "sio_ok (sio s)" "mcds_ok (mcd s)"
  shows "sio_ok (sio (SIO_Write p phys data s)) \<and> mcds_ok (mcd (SIO_Write p phys data s)) \<and>
    sio_ok (sio (snd (SIO_Read phys s))) \<and> mcds_ok (mcd (snd (SIO_Read phys s))) \<and>
    sio_ok (sio (run_Sched_SIO_IRQ_Callback late s))"
proof -
  have "sio_ok (sio (SIO_Write p phys data s))" "mcds_ok (mcd (SIO_Write p phys data s))"
    using assms sio_write_data_ok [OF assms] sio_write_ctrl_ok [OF assms]
    by (simp_all add: SIO_Write_def Let_def)
  moreover have "sio_ok (sio (snd (SIO_Read phys s)))" "mcds_ok (mcd (snd (SIO_Read phys s)))"
    using assms by (auto simp: SIO_Read_def Let_def sio_ok_def)
  moreover have "sio_ok (sio (run_Sched_SIO_IRQ_Callback late s))"
    using assms by (simp add: run_Sched_SIO_IRQ_Callback_def sio_ok_def)
  ultimately show ?thesis by blast
qed


section \<open>Exchanges through the registers\<close>

text \<open>One byte exchange as a driver does it: write the data register, then read it.\<close>

definition SIO_exchange :: "pads \<Rightarrow> u8 \<Rightarrow> 'a smachine_scheme \<Rightarrow> u8 \<times> 'a smachine_scheme" where
  "SIO_exchange p tx s =
     (let (v, s1) = SIO_Read 0x1F801040 (SIO_Write p 0x1F801040 (ucast tx) s) in (ucast v, s1))"

fun SIO_exchanges :: "pads \<Rightarrow> u8 list \<Rightarrow> 'a smachine_scheme \<Rightarrow> u8 list \<times> 'a smachine_scheme" where
  "SIO_exchanges p [] s = ([], s)"
| "SIO_exchanges p (tx # txs) s =
     (let (rx, s1) = SIO_exchange p tx s; (rxs, s2) = SIO_exchanges p txs s1 in (rx # rxs, s2))"

lemma SIO_Read_data:
  "SIO_Read 0x1F801040 s = (sio_data (sio s), s\<lparr>sio := (sio s)\<lparr>sio_tx_pending := False, sio_data := 0xFF\<rparr>\<rparr>)"
  by (simp add: SIO_Read_def Let_def)

lemma ucast_u8_u32 [simp]: "(ucast ((ucast (b :: u8) :: u32) AND 0xFF) :: u8) = b" "(ucast (ucast (b :: u8) :: u32) :: u8) = b"
  by (simp_all add: u8_eq_bits bit_simps)

lemma SIO_exchange_eq:
  "SIO_exchange p tx s = (let s1 = sio_write_data p tx s
     in (ucast (sio_data (sio s1)), s1\<lparr>sio := (sio s1)\<lparr>sio_tx_pending := False, sio_data := 0xFF\<rparr>\<rparr>))"
  by (simp add: SIO_exchange_def SIO_Read_data SIO_Write_def Let_def)

subsection \<open>Pads\<close>

text \<open>The frame that a poll of a port returns.\<close>

definition pad_frame :: "pads \<Rightarrow> int \<Rightarrow> u8 list" where
  "pad_frame p port =
     (if Joystick_HasMultitap p port
      then [0xFF, 0x80, 0x5A] @ concat (map (multitap_slot p port) [0, 1, 2, 3])
      else case Joystick_GetPSXDigitalResponse p port 0 of (a, b, c) \<Rightarrow> [0xFF, a, 0x5A, b, c])"

lemma take_put_block:
  "n = off + length bs \<Longrightarrow> off \<le> length d \<Longrightarrow> take n (put_block off bs d) = take off d @ bs"
  by (simp add: put_block_def)

lemma pad_response_frame:
  fixes p :: pads and port :: int
  assumes "length (sio_response g) = 20"
  defines "g' \<equiv> sio_pad_response p port g"
  shows "take (length (pad_frame p port)) (sio_response g') = pad_frame p port"
    "sio_response_len g' = length (pad_frame p port)" "length (pad_frame p port) \<le> 19"
    "1 < length (pad_frame p port)" "length (sio_response g') = 20"
proof -
  show "take (length (pad_frame p port)) (sio_response g') = pad_frame p port"
    using assms(1) by (simp add: g'_def sio_pad_response_def pad_frame_def Let_def case_prod_unfold upt_rec
        take_put_block length_put_block flip: numeral_2_eq_2 numeral_3_eq_3)
  show "sio_response_len g' = length (pad_frame p port)" "length (pad_frame p port) \<le> 19"
    "1 < length (pad_frame p port)" "length (sio_response g') = 20"
    using assms(1) by (auto simp: g'_def sio_pad_response_def pad_frame_def Let_def case_prod_unfold upt_rec
        length_put_block)
qed


lemma pad_exchange:
  fixes p :: pads and tx :: u8
  assumes "sio_selected (sio s)" "sio_device (sio s) = 1" "sio_state (sio s) = n" "0 < n" "n < sio_response_len (sio s)"
  defines "s' \<equiv> snd (SIO_exchange p tx s)"
  shows "fst (SIO_exchange p tx s) = sio_response (sio s) ! n" "sio_state (sio s') = n + 1"
    "sio_selected (sio s')" "sio_device (sio s') = 1" "sio_response (sio s') = sio_response (sio s)"
    "sio_response_len (sio s') = sio_response_len (sio s)" "mcd s' = mcd s"
  using assms(1-5) by (auto simp: s'_def SIO_exchange_eq sio_write_data_def Let_def)

lemma pad_exchanges:
  fixes p :: pads
  assumes "sio_selected (sio s)" "sio_device (sio s) = 1" "0 < sio_state (sio s)"
    "sio_state (sio s) + length txs \<le> sio_response_len (sio s)" "sio_response_len (sio s) \<le> length (sio_response (sio s))"
  defines "s' \<equiv> snd (SIO_exchanges p txs s)"
  shows "fst (SIO_exchanges p txs s) = take (length txs) (drop (sio_state (sio s)) (sio_response (sio s))) \<and>
    sio_state (sio s') = sio_state (sio s) + length txs \<and> sio_selected (sio s') \<and> sio_device (sio s') = 1 \<and>
    sio_response_len (sio s') = sio_response_len (sio s) \<and> mcd s' = mcd s"
  using assms(1-5) unfolding s'_def
proof (induction txs arbitrary: s)
  case (Cons tx txs)
  note e = pad_exchange [OF Cons.prems(1,2) refl Cons.prems(3), of p tx]
  have n: "sio_state (sio s) < sio_response_len (sio s)" using Cons.prems(4) by simp
  define s1 where "s1 = snd (SIO_exchange p tx s)"
  have "drop (sio_state (sio s)) (sio_response (sio s)) =
      sio_response (sio s) ! sio_state (sio s) # drop (sio_state (sio s) + 1) (sio_response (sio s))"
    using n Cons.prems(5) by (simp add: Cons_nth_drop_Suc)
  moreover have "fst (SIO_exchanges p txs s1) = take (length txs) (drop (sio_state (sio s1)) (sio_response (sio s1))) \<and>
    sio_state (sio (snd (SIO_exchanges p txs s1))) = sio_state (sio s1) + length txs \<and>
    sio_selected (sio (snd (SIO_exchanges p txs s1))) \<and> sio_device (sio (snd (SIO_exchanges p txs s1))) = 1 \<and>
    sio_response_len (sio (snd (SIO_exchanges p txs s1))) = sio_response_len (sio s1) \<and>
    mcd (snd (SIO_exchanges p txs s1)) = mcd s1"
    using e [OF n] Cons.prems by (intro Cons.IH) (simp_all add: s1_def)
  ultimately show ?case using e [OF n] by (simp add: Let_def case_prod_unfold s1_def)
qed simp

text \<open>
  C26. Polling a pad. On a selected port at the start of an exchange, writing 0x01 and then as many
  arbitrary bytes as the frame has left returns the frame of that port byte by byte: five bytes for a
  single pad, nineteen for a multitap with its four slots. After \<open>n\<close> bytes the status register shows
  the acknowledge exactly if bytes remain, and no memory card is touched.
\<close>

theorem SIO_pad_poll:
  assumes "sio_ok (sio s)" "sio_selected (sio s)" "sio_state (sio s) = 0"
    and "length txs + 1 \<le> length (pad_frame p (sio_port (sio s)))"
  shows "let (rxs, s') = SIO_exchanges p (0x01 # txs) s; frame = pad_frame p (sio_port (sio s)) in
     rxs = take (length txs + 1) frame \<and> mcd s' = mcd s \<and>
     (bit (fst (SIO_Read 0x1F801044 s')) 7 \<longleftrightarrow> length txs + 1 < length frame)"
proof -
  define port where "port = sio_port (sio s)"
  define g1 where "g1 = sio_pad_response p port ((sio s)\<lparr>sio_device := 1\<rparr>)"
  define s1 where "s1 = snd (SIO_exchange p 0x01 s)"
  note frame = pad_response_frame [of "(sio s)\<lparr>sio_device := 1\<rparr>" p port, folded g1_def]
  have len: "length (sio_response ((sio s)\<lparr>sio_device := 1\<rparr>)) = 20" using assms(1) by (simp add: sio_ok_def)
  have g1: "sio_selected g1" "sio_device g1 = 1"
    using assms(2) by (simp_all add: g1_def sio_pad_response_def Let_def case_prod_unfold)
  have s1: "fst (SIO_exchange p 0x01 s) = sio_response g1 ! 0" "sio_state (sio s1) = 1" "sio_selected (sio s1)"
    "sio_device (sio s1) = 1" "sio_response (sio s1) = sio_response g1" "sio_response_len (sio s1) = sio_response_len g1"
    "mcd s1 = mcd s"
    using assms(2,3) g1 by (simp_all add: s1_def SIO_exchange_eq sio_write_data_def Let_def port_def g1_def)
  have rest: "fst (SIO_exchanges p txs s1) = take (length txs) (drop 1 (sio_response g1)) \<and>
    sio_state (sio (snd (SIO_exchanges p txs s1))) = 1 + length txs \<and>
    sio_selected (sio (snd (SIO_exchanges p txs s1))) \<and> sio_device (sio (snd (SIO_exchanges p txs s1))) = 1 \<and>
    sio_response_len (sio (snd (SIO_exchanges p txs s1))) = length (pad_frame p port) \<and>
    mcd (snd (SIO_exchanges p txs s1)) = mcd s"
    using pad_exchanges [of s1 txs p] s1 frame [OF len] assms(4) by (simp add: port_def)
  have "sio_response g1 ! 0 # take (length txs) (drop 1 (sio_response g1)) = take (length txs + 1) (sio_response g1)"
    using frame(5) [OF len] by (cases "sio_response g1") auto
  also have "\<dots> = take (length txs + 1) (pad_frame p port)"
    using frame(1) [OF len] assms(4) by (metis min.absorb1 port_def take_take)
  finally have rxs: "fst (SIO_exchanges p (0x01 # txs) s) = take (length txs + 1) (pad_frame p port)"
    using rest s1(1) by (simp add: Let_def case_prod_unfold s1_def)
  have "snd (SIO_exchanges p (0x01 # txs) s) = snd (SIO_exchanges p txs s1)"
    by (simp add: Let_def case_prod_unfold s1_def)
  then show ?thesis
    using rxs rest by (auto simp: case_prod_unfold Let_def port_def SIO_Read_def bit_simps)
qed


subsection \<open>Memory cards\<close>

text \<open>
  What the port relies on in a device that it exchanges bytes with: a reset makes it idle, an address byte
  wakes a device that is present, and an absent device answers with the idle line and does not change.
\<close>

locale byte_device =
  fixes reset :: "int \<Rightarrow> 's \<Rightarrow> 's"
    and tick :: "int \<Rightarrow> u8 \<Rightarrow> 's \<Rightarrow> u8 \<times> 's"
    and idle :: "int \<Rightarrow> 's \<Rightarrow> bool"
    and present :: "int \<Rightarrow> 's \<Rightarrow> bool"
    and address :: u8
  assumes idle_reset: "idle port (reset port s)"
    and present_reset: "present port (reset port s) \<longleftrightarrow> present port s"
    and wakes: "idle port s \<Longrightarrow> present port s \<Longrightarrow> \<not> idle port (snd (tick port address s))"
    and absent: "\<not> present port s \<Longrightarrow> tick port b s = (0xFF, s)"
begin

text \<open>After a reset, the address byte is acknowledged exactly by a device that is there.\<close>

lemma address_acknowledged:
  "\<not> idle port (snd (tick port address (reset port s))) \<longleftrightarrow> present port s"
proof (cases "present port s")
  case True
  then show ?thesis using wakes [OF idle_reset] by (simp add: present_reset)
next
  case False
  then show ?thesis using idle_reset by (simp add: absent present_reset)
qed

end

interpretation mcd_dev: byte_device MCD_Reset MCD_Tick MCD_IsIdle MCD_IsLoaded "0x81"
  by unfold_locales (auto simp: MCD_Reset_def MCD_IsIdle_def MCD_IsLoaded_def MCD_Tick_def)

lemma card_exchange:
  fixes p :: pads and tx :: u8
  assumes "sio_selected (sio s)" "sio_device (sio s) = 2" "0 < sio_state (sio s)"
  defines "port \<equiv> sio_port (sio s)" and "s' \<equiv> snd (SIO_exchange p tx s)"
  shows "fst (SIO_exchange p tx s) = fst (MCD_Tick port tx (mcd s))" "mcd s' = snd (MCD_Tick port tx (mcd s))"
    "sio_selected (sio s')" "sio_device (sio s') = 2" "0 < sio_state (sio s')" "sio_port (sio s') = port"
    "\<not> MCD_IsIdle port (mcd s') \<Longrightarrow> sched_active s' SCHED_EVENT_SIO_IRQ"
  using assms(1-3) by (auto simp: s'_def port_def SIO_exchange_eq sio_write_data_def Let_def case_prod_unfold)

lemma card_exchanges:
  assumes "sio_selected (sio s)" "sio_device (sio s) = 2" "0 < sio_state (sio s)"
  shows "fst (SIO_exchanges p txs s) = fst (MCD_Ticks (sio_port (sio s)) txs (mcd s)) \<and>
    mcd (snd (SIO_exchanges p txs s)) = snd (MCD_Ticks (sio_port (sio s)) txs (mcd s))"
  using assms
proof (induction txs arbitrary: s)
  case (Cons tx txs)
  note e = card_exchange [OF Cons.prems, of p tx]
  from Cons.IH [OF e(3-5)] e(1,2,6) show ?case by (simp add: Let_def case_prod_unfold)
qed simp

text \<open>
  C27. The port is transparent for the memory card. On a selected port at the start of an exchange, the
  bytes that a driver reads while it sends 0x81 and then any bytes are exactly those of the card's own
  protocol from its reset state, and the card ends in the same state. The first byte is acknowledged,
  with the interrupt scheduled, exactly if a card is in the slot.
\<close>

theorem SIO_card_transparent:
  assumes "sio_selected (sio s)" "sio_state (sio s) = 0"
  shows "let port = sio_port (sio s);
             (rxs, s') = SIO_exchanges p (0x81 # txs) s;
             (rxs', m') = MCD_Ticks port (0x81 # txs) (MCD_Reset port (mcd s))
         in rxs = rxs' \<and> mcd s' = m' \<and>
            (sio_ack_latch (sio (snd (SIO_exchange p 0x81 s))) \<longleftrightarrow>
               MCD_IsLoaded port (mcd s) \<or> sio_ack_latch (sio s))"
proof -
  define s1 where "s1 = snd (SIO_exchange p 0x81 s)"
  define port where "port = sio_port (sio s)"
  have s1: "fst (SIO_exchange p 0x81 s) = fst (MCD_Tick port 0x81 (MCD_Reset port (mcd s)))"
    "mcd s1 = snd (MCD_Tick port 0x81 (MCD_Reset port (mcd s)))" "sio_selected (sio s1)" "sio_device (sio s1) = 2"
    "0 < sio_state (sio s1)" "sio_port (sio s1) = port"
    using assms by (auto simp: s1_def port_def SIO_exchange_eq sio_write_data_def Let_def case_prod_unfold)
  have "sio_ack_latch (sio s1) \<longleftrightarrow> MCD_IsLoaded port (mcd s) \<or> sio_ack_latch (sio s)"
    using assms mcd_dev.address_acknowledged [of port "mcd s"]
    by (auto simp: s1_def port_def SIO_exchange_eq sio_write_data_def Let_def case_prod_unfold)
  with card_exchanges [OF s1(3-5), of p txs] s1(1,2,6) show ?thesis
    by (simp add: Let_def case_prod_unfold s1_def port_def)
qed

text \<open>
  Deselecting. A write to the control register with the select bit and the reset bit clear ends the
  exchange: no interrupt is pending or scheduled, the next byte starts a new exchange, and, if the write
  does not change the port bit, a memory card that was being addressed is idle.
\<close>

theorem SIO_deselect_ends_exchange:
  assumes "data AND 0x42 = 0"
  shows "let s' = SIO_Write p 0x1F80104A data s in
     \<not> sio_selected (sio s') \<and> sio_state (sio s') = 0 \<and> sio_device (sio s') = 0 \<and> \<not> sio_ack_latch (sio s') \<and>
     \<not> sio_irq_pending (sio s') \<and> \<not> sched_active s' SCHED_EVENT_SIO_IRQ \<and>
     (sio_selected (sio s) \<and> sio_device (sio s) = 2 \<and> sio_port (sio s') = sio_port (sio s) \<longrightarrow>
        MCD_IsIdle (sio_port (sio s)) (mcd s'))"
proof -
  have "data AND 0x40 = 0" "data AND 0x02 = 0"
    using assms by (simp_all add: u32_eq_bits bit_simps)
  then show ?thesis
    by (auto simp: SIO_Write_def sio_write_ctrl_def sio_deselect_def sio_ctrl_ack_def Let_def
        intro: mcd_dev.idle_reset)
qed

text \<open>
  The interrupt. After an acknowledged exchange the scheduler holds the port's event, 500 cycles ahead
  for a pad and 1500 for a memory card; its callback raises line 7 and sets bit 9 of the status
  register, which stays set until a control write with the acknowledge bit.
\<close>

theorem SIO_acknowledge_interrupt:
  "let s1 = sio_assert_ack s; s2 = run_Sched_SIO_IRQ_Callback late s1; s3 = SIO_Write p 0x1F80104A 0x12 s2 in
     sched_pending s1 SCHED_EVENT_SIO_IRQ = Some (global_cycles s + ucast (partial_block_cycles s) +
       (if sio_device (sio s) = 2 then 1500 else 500), Some Sched_SIO_IRQ_Callback) \<and>
     bit (i_stat (cpu s2)) 7 \<and> \<not> sio_irq_pending (sio s2) \<and>
     bit (fst (SIO_Read 0x1F801044 s2)) 9 \<and> \<not> bit (fst (SIO_Read 0x1F801044 s3)) 9"
proof -
  have "bit (fst (SIO_Read 0x1F801044 t)) 9 \<longleftrightarrow> bit (sio_stat (sio t)) 9" for t :: "'a smachine_scheme"
    by (auto simp: SIO_Read_def Let_def bit_simps)
  moreover have "ucast SIO_IRQ_DELAY = (500 :: u64)" "ucast SIO_MCD_IRQ_DELAY = (1500 :: u64)"
    by (simp_all add: SIO_IRQ_DELAY_def SIO_MCD_IRQ_DELAY_def)
  ultimately show ?thesis
    by (auto simp: sched_pending_def sched_event_defs sio_irq_deadline_def sio_delay_def
        run_Sched_SIO_IRQ_Callback_def state_simps bit_simps SIO_Write_def sio_write_ctrl_def sio_ctrl_ack_def
        sio_select_def Let_def)
qed


text \<open>A machine with blank cards and the port selected, and pads without a multitap.\<close>

definition sio_zero :: sio_globals where
  "sio_zero = \<lparr>sio_data = 0xFF, sio_stat = 5, sio_mode = 0, sio_ctrl = 0, sio_baud = 0, sio_tx_pending = False,
     sio_state = 0, sio_deferred_vblank = False, sio_response = replicate 20 0, sio_response_len = 0,
     sio_selected = False, sio_port = 0, sio_device = 0, serial_mode = 0, serial_ctrl = 0, serial_baud = 0,
     sio_irq_delay_cycle = 0, sio_irq_pending = False, sio_ack_latch = False\<rparr>"

definition smachine_with :: "'a \<Rightarrow> 'a smachine_scheme" where
  "smachine_with x = tmachine_with \<lparr>sio = sio_zero, mcd = mcds_blank, \<dots> = x\<rparr>"


definition sio_started :: smachine where
  "sio_started = (smachine_with ())\<lparr>sio := sio_zero\<lparr>sio_selected := True\<rparr>\<rparr>"

definition one_pad :: pads where
  "one_pad = \<lparr>Joystick_HasMultitap = (\<lambda>_. False), Joystick_IsConnected = (\<lambda>_ slot. slot = 0),
     Joystick_GetPSXDigitalResponse = (\<lambda>_ _. (0x41, 0xFF, 0xBF))\<rparr>"

lemma sio_started_simps [simp]:
  "sio sio_started = sio_zero\<lparr>sio_selected := True\<rparr>" "mcd sio_started = mcds_blank"
  "sio_ok (sio_zero\<lparr>sio_selected := True\<rparr>)"
  by (simp_all add: sio_started_def smachine_with_def tmachine_with_def sio_ok_def sio_zero_def)

theorem sio_ok_preserved_witness:
  "sio_ok (sio (SIO_Write one_pad 0x1F801040 0x01 sio_started)) \<and>
   mcds_ok (mcd (SIO_Write one_pad 0x1F801040 0x01 sio_started))"
  using sio_ok_preserved [of sio_started one_pad "0x1F801040" "0x01"] by simp

theorem SIO_pad_poll_witness:
  "let (rxs, s') = SIO_exchanges one_pad (0x01 # [0x42, 0, 0, 0]) sio_started;
       frame = pad_frame one_pad (sio_port (sio sio_started)) in
     rxs = take (length [0x42, 0, 0, 0 :: u8] + 1) frame \<and> mcd s' = mcd sio_started \<and>
     (bit (fst (SIO_Read 0x1F801044 s')) 7 \<longleftrightarrow> length [0x42, 0, 0, 0 :: u8] + 1 < length frame)"
  by (rule SIO_pad_poll) (simp_all add: sio_ok_def sio_zero_def pad_frame_def one_pad_def)

theorem SIO_card_transparent_witness:
  "let port = sio_port (sio sio_started);
       (rxs, s') = SIO_exchanges one_pad (0x81 # [0x52, 0, 0]) sio_started;
       (rxs', m') = MCD_Ticks port (0x81 # [0x52, 0, 0]) (MCD_Reset port (mcd sio_started))
   in rxs = rxs' \<and> mcd s' = m' \<and>
      (sio_ack_latch (sio (snd (SIO_exchange one_pad 0x81 sio_started))) \<longleftrightarrow>
         MCD_IsLoaded port (mcd sio_started) \<or> sio_ack_latch (sio sio_started))"
  by (rule SIO_card_transparent) (simp_all add: sio_zero_def)

theorem SIO_deselect_ends_exchange_witness:
  "\<not> sio_selected (sio (SIO_Write one_pad 0x1F80104A 0 sio_started)) \<and>
   sio_state (sio (SIO_Write one_pad 0x1F80104A 0 sio_started)) = 0"
  using SIO_deselect_ends_exchange [of 0 one_pad sio_started] by (simp add: Let_def)

end
