(* ===== verification/Cdrom.thy ===== *)
theory Cdrom
  imports Sio Disc_Image
begin

text \<open>
  The CD-ROM controller of \<^verbatim>\<open>src/cdrom.c\<close>: the four registers behind the index, the parameter,
  response and data queues, the commands with their first (deferred) and second (pending) responses,
  sector delivery while reading, the shell, and the interrupt that follows a response after the
  propagation delay.

  Shown here: the queue indices stay in range; minutes, seconds and frames convert to sector numbers
  and back; a command's response arrives with its interrupt; the responses are read in order; the two
  responses of a command arrive one after the other, the second only after the first is acknowledged;
  reading delivers the sector at the head position and moves on; and two cases in which the handling of
  interrupts departs from the comments.
\<close>

section \<open>State\<close>

definition PARAM_FIFO_SIZE :: nat where "PARAM_FIFO_SIZE = 16"
definition RESPONSE_FIFO_SIZE :: nat where "RESPONSE_FIFO_SIZE = 16"
definition DATA_FIFO_SIZE :: nat where "DATA_FIFO_SIZE = 2352"
definition DISC_MAX_LBA :: u32 where "DISC_MAX_LBA = 335250"
definition LEADOUT_LBA :: u32 where "LEADOUT_LBA = 333000"
definition PREGAP_LBA :: u32 where "PREGAP_LBA = 150"
definition CDROM_READ_CYCLES_1X :: u32 where "CDROM_READ_CYCLES_1X = 451584"
definition CDROM_READ_CYCLES_2X :: u32 where "CDROM_READ_CYCLES_2X = 225792"

definition PENDING_DELAY_INIT :: u32 where "PENDING_DELAY_INIT = 3800000"
definition PENDING_DELAY_PAUSE :: u32 where "PENDING_DELAY_PAUSE = 8000000"
definition PENDING_DELAY_STOP :: u32 where "PENDING_DELAY_STOP = 6000000"
definition PENDING_DELAY_MOTORON :: u32 where "PENDING_DELAY_MOTORON = 3000000"
definition PENDING_DELAY_GETID :: u32 where "PENDING_DELAY_GETID = 800000"
definition PENDING_DELAY_SEEKL :: u32 where "PENDING_DELAY_SEEKL = 1000000"
definition PENDING_DELAY_READTOC :: u32 where "PENDING_DELAY_READTOC = 16000000"

lemmas cdrom_sizes = PARAM_FIFO_SIZE_def RESPONSE_FIFO_SIZE_def DATA_FIFO_SIZE_def

record cdrom_state =
  cd_index :: u8
  param_fifo :: "u8 list"
  param_count :: nat
  response_fifo :: "u8 list"
  response_count :: nat
  response_read_pos :: nat
  data_fifo :: "u8 list"
  data_pos :: u32
  data_len :: u32
  int_enable :: u8
  int_flag :: u8
  cd_stat :: u8
  pending_response :: "u8 list"
  pending_count :: nat
  pending_int :: u8
  has_pending :: bool
  last_cmd :: u8
  busy :: bool
  setloc_lba :: u32
  cur_lba :: u32
  has_loc_header :: bool
  seek_error :: bool
  cd_reading :: bool
  cd_mode :: u8
  disc_present :: bool
  pending_deadline :: u64
  seek_pending :: bool
  location_changed :: bool
  deferred_response :: "u8 list"
  deferred_count :: nat
  deferred_int :: u8
  has_deferred :: bool

record cmachine = smachine +
  cdrom :: cdrom_state
  cdrom_irq_active :: bool
  iso :: iso_state

section \<open>BCD and positions\<close>

definition dec_to_bcd :: "nat \<Rightarrow> u8" where
  "dec_to_bcd v = ucast (push_bit 4 (of_nat (v div 10)) OR of_nat (v mod 10) :: u32)"

definition bcd_to_dec :: "u8 \<Rightarrow> nat" where
  "bcd_to_dec v = (let h = unat (drop_bit 4 v); l = unat (v AND 0x0F)
     in if h > 9 \<or> l > 9 then 0 else h * 10 + l)"

definition msf_to_lba :: "u8 \<Rightarrow> u8 \<Rightarrow> u8 \<Rightarrow> u32" where
  "msf_to_lba mm ss ff =
     of_nat (bcd_to_dec mm * 60 + bcd_to_dec ss) * 75 + of_nat (bcd_to_dec ff)"

definition lba_to_bcd :: "u32 \<Rightarrow> u8 \<times> u8 \<times> u8" where
  "lba_to_bcd lba =
     (let ff = dec_to_bcd (unat (lba mod 75)); lba1 = lba div 75;
          ss = dec_to_bcd (unat (lba1 mod 60)); lba2 = lba1 div 60
      in (dec_to_bcd (unat lba2), ss, ff))"

section \<open>Responses\<close>

definition cdrom_read_delay :: "cdrom_state \<Rightarrow> u32" where
  "cdrom_read_delay c = (if cd_mode c AND 0x80 \<noteq> 0 then CDROM_READ_CYCLES_2X else CDROM_READ_CYCLES_1X)"

definition cdrom_set_stat :: "u8 \<Rightarrow> cdrom_state \<Rightarrow> cdrom_state" where
  "cdrom_set_stat new_stat c =
     (if \<not> disc_present c then c\<lparr>cd_stat := new_stat OR 0x10\<rparr> else c\<lparr>cd_stat := new_stat\<rparr>)"

definition upd_cdrom :: "(cdrom_state \<Rightarrow> cdrom_state) \<Rightarrow> 'a cmachine_scheme \<Rightarrow> 'a cmachine_scheme" where
  "upd_cdrom f s = s\<lparr>cdrom := f (cdrom s)\<rparr>"

definition cdrom_queue_response :: "u8 list \<Rightarrow> u8 \<Rightarrow> 'a cmachine_scheme \<Rightarrow> 'a cmachine_scheme" where
  "cdrom_queue_response data irq_type s =
     (let d = take RESPONSE_FIFO_SIZE data;
          s1 = upd_cdrom (\<lambda>c. c\<lparr>deferred_response := put_block 0 d (deferred_response c),
                 deferred_count := length d, deferred_int := irq_type, has_deferred := True, busy := True\<rparr>) s
      in Sched_Add SCHED_EVENT_CDROM_DEFERRED (global_cycles s1 + 4000) CDROM_DeferredCallback s1)"

definition cdrom_queue_pending :: "u8 list \<Rightarrow> u8 \<Rightarrow> u32 \<Rightarrow> 'a cmachine_scheme \<Rightarrow> 'a cmachine_scheme" where
  "cdrom_queue_pending data irq_type delay_cycles s =
     (let d = take RESPONSE_FIFO_SIZE data;
          delay = (if cdrom_fast (psx_config s) then 200 else delay_cycles)
      in upd_cdrom (\<lambda>c. c\<lparr>pending_response := put_block 0 d (pending_response c), pending_count := length d,
           pending_int := irq_type, has_pending := True, pending_deadline := global_cycles s + ucast delay\<rparr>) s)"

text \<open>Schedule the assertion of the interrupt line after the propagation delay.\<close>

definition cdrom_signal_later :: "'a cmachine_scheme \<Rightarrow> 'a cmachine_scheme" where
  "cdrom_signal_later s =
     Sched_Add SCHED_EVENT_CDROM_IRQ (global_cycles s + 800) CDROM_DeferredIRQActivate
       (s\<lparr>cdrom_irq_active := False\<rparr>)"

section \<open>Disc and shell\<close>

text \<open>The controller's memory cleared, with the shell open.\<close>

definition cdrom_reset :: cdrom_state where
  "cdrom_reset = \<lparr>cd_index = 0, param_fifo = replicate PARAM_FIFO_SIZE 0, param_count = 0,
     response_fifo = replicate RESPONSE_FIFO_SIZE 0, response_count = 0, response_read_pos = 0,
     data_fifo = replicate DATA_FIFO_SIZE 0, data_pos = 0, data_len = 0, int_enable = 0, int_flag = 0,
     cd_stat = 0x10, pending_response = replicate RESPONSE_FIFO_SIZE 0, pending_count = 0, pending_int = 0,
     has_pending = False, last_cmd = 0, busy = False, setloc_lba = 0, cur_lba = 0, has_loc_header = False,
     seek_error = False, cd_reading = False, cd_mode = 0, disc_present = False, pending_deadline = 0,
     seek_pending = False, location_changed = False, deferred_response = replicate RESPONSE_FIFO_SIZE 0,
     deferred_count = 0, deferred_int = 0, has_deferred = False\<rparr>"

definition CDROM_Init :: "'a cmachine_scheme \<Rightarrow> 'a cmachine_scheme" where
  "CDROM_Init s = s\<lparr>cdrom := cdrom_reset\<rparr>"

definition CDROM_InsertDisc :: "'a cmachine_scheme \<Rightarrow> 'a cmachine_scheme" where
  "CDROM_InsertDisc s = upd_cdrom (\<lambda>c. c\<lparr>disc_present := True, cd_stat := 0x02\<rparr>) s"

definition run_cdrom_shell_close_stage2 :: "int \<Rightarrow> 'a cmachine_scheme \<Rightarrow> 'a cmachine_scheme" where
  "run_cdrom_shell_close_stage2 ticks_late s =
     Sched_Add SCHED_EVENT_CDROM_PENDING (global_cycles s + 2000000) cdrom_shell_close_stage3
       (upd_cdrom (\<lambda>c. c\<lparr>cd_stat := 0x10\<rparr>) s)"

definition run_cdrom_shell_close_stage3 :: "int \<Rightarrow> 'a cmachine_scheme \<Rightarrow> 'a cmachine_scheme" where
  "run_cdrom_shell_close_stage3 ticks_late s = upd_cdrom (\<lambda>c. c\<lparr>disc_present := True, cd_stat := 0x00\<rparr>) s"

definition CDROM_EjectDisc :: "'a cmachine_scheme \<Rightarrow> 'a cmachine_scheme" where
  "CDROM_EjectDisc s =
     cdrom_signal_later (upd_cdrom (\<lambda>c. c\<lparr>disc_present := False, cd_reading := False, cd_stat := 0x01,
       response_fifo := put_block 0 [0x01, 0x08] (response_fifo c), response_count := 2,
       response_read_pos := 0, int_flag := 5\<rparr>) s)"

definition CDROM_CloseShell :: "'a cmachine_scheme \<Rightarrow> 'a cmachine_scheme" where
  "CDROM_CloseShell s =
     Sched_Add SCHED_EVENT_CDROM_PENDING (global_cycles s + 2000000) cdrom_shell_close_stage2
       (upd_cdrom (\<lambda>c. c\<lparr>cd_stat := 0x12\<rparr>) s)"

text \<open>Take up to \<open>count\<close> bytes from the data queue, for the DMA channel.\<close>

definition CDROM_ReadDataFIFO :: "u32 \<Rightarrow> 'a cmachine_scheme \<Rightarrow> u8 list \<times> 'a cmachine_scheme" where
  "CDROM_ReadDataFIFO count s =
     (let c = cdrom s; avail = data_len c - data_pos c; n = (if count > avail then avail else count)
      in if n > 0
         then (take (unat n) (drop (unat (data_pos c)) (data_fifo c)),
               s\<lparr>cdrom := c\<lparr>data_pos := data_pos c + n\<rparr>\<rparr>)
         else ([], s))"

section \<open>Commands\<close>

text \<open>A parameter, or zero if fewer were given.\<close>

definition cd_param :: "nat \<Rightarrow> cdrom_state \<Rightarrow> u8" where
  "cd_param i c = (if param_count c > i then param_fifo c ! i else 0)"

text \<open>Queue the status byte as the first response.\<close>

definition cd_ack_stat :: "'a cmachine_scheme \<Rightarrow> 'a cmachine_scheme" where
  "cd_ack_stat s = cdrom_queue_response [cd_stat (cdrom s)] 3 s"

text \<open>The commands with a second response: status now, status again with INT2 after the delay.\<close>

definition cd_ack_then :: "u32 \<Rightarrow> 'a cmachine_scheme \<Rightarrow> 'a cmachine_scheme" where
  "cd_ack_then delay s = (let s1 = cd_ack_stat s in cdrom_queue_pending [cd_stat (cdrom s1)] 2 delay s1)"

text \<open>\<^verbatim>\<open>ReadN\<close> and \<^verbatim>\<open>ReadS\<close>: seek first, then the sector events.\<close>

definition cd_start_read :: "'a cmachine_scheme \<Rightarrow> 'a cmachine_scheme" where
  "cd_start_read s =
     (let s1 = upd_cdrom (\<lambda>c. (cdrom_set_stat 0x42 (c\<lparr>cur_lba := setloc_lba c, cd_reading := True,
                 has_loc_header := True, seek_error := False\<rparr>))\<lparr>seek_pending := True\<rparr>) s;
          s2 = cd_ack_stat s1
      in Sched_Add SCHED_EVENT_CDROM (global_cycles s2 + 10000000) CDROM_EventCallback s2)"

definition cd_getlocL :: "'a cmachine_scheme \<Rightarrow> 'a cmachine_scheme" where
  "cd_getlocL s =
     (let c = cdrom s
      in if \<not> has_loc_header c \<or> seek_error c then cdrom_queue_response [cd_stat c, 0x80] 5 s
         else case lba_to_bcd (cur_lba c) of (mm, ss, ff) \<Rightarrow>
                cdrom_queue_response [mm, ss, ff, 0x02, 0x00, 0x00, 0x00, 0x00] 3 s)"

definition cd_getlocP :: "'a cmachine_scheme \<Rightarrow> 'a cmachine_scheme" where
  "cd_getlocP s =
     (let c = cdrom s
      in if seek_error c then cdrom_queue_response [cd_stat c, 0x80] 5 s
         else let (amm, ass, aff) = lba_to_bcd (cur_lba c);
                  track = (if cur_lba c \<ge> LEADOUT_LBA then 0xAA else 0x01);
                  ix = (if cur_lba c < PREGAP_LBA then 0x00 else 0x01);
                  (rmm, rss, rff) = lba_to_bcd (if cur_lba c \<ge> PREGAP_LBA then cur_lba c - PREGAP_LBA
                                                else PREGAP_LBA - cur_lba c)
              in cdrom_queue_response [track, ix, rmm, rss, rff, amm, ass, aff] 3 s)"

definition cd_getTD :: "'a cmachine_scheme \<Rightarrow> 'a cmachine_scheme" where
  "cd_getTD s =
     (let c = cdrom s; track = cd_param 0 c
      in if track = 0
         then case lba_to_bcd (LEADOUT_LBA + PREGAP_LBA) of (mm, ss, ff) \<Rightarrow>
                cdrom_queue_response [cd_stat c, mm, ss] 3 s
         else if track = 1 then cdrom_queue_response [cd_stat c, 0x00, 0x02] 3 s
         else cdrom_queue_response [cd_stat c OR 0x01, 0x10] 5 s)"

definition cd_seek :: "'a cmachine_scheme \<Rightarrow> 'a cmachine_scheme" where
  "cd_seek s =
     (if setloc_lba (cdrom s) \<ge> DISC_MAX_LBA
      then let s1 = cd_ack_stat (upd_cdrom (\<lambda>c. cdrom_set_stat 0x04 (c\<lparr>seek_error := True\<rparr>)) s)
           in cdrom_queue_pending [cd_stat (cdrom s1), 0x04] 5 PENDING_DELAY_SEEKL s1
      else cd_ack_then PENDING_DELAY_SEEKL (upd_cdrom (\<lambda>c. cdrom_set_stat 0x02
             (c\<lparr>cur_lba := setloc_lba c, has_loc_header := True, seek_error := False\<rparr>)) s))"

definition cd_test :: "'a cmachine_scheme \<Rightarrow> 'a cmachine_scheme" where
  "cd_test s =
     (let sub = cd_param 0 (cdrom s)
      in if sub = 0x20 then cdrom_queue_response [0x94, 0x09, 0x19, 0xC0] 3 s
         else if sub = 0x04 \<or> sub = 0x05 then cdrom_queue_response [0, 0] 3 s
         else cd_ack_stat s)"

definition cd_getID :: "'a cmachine_scheme \<Rightarrow> 'a cmachine_scheme" where
  "cd_getID s =
     (if disc_present (cdrom s)
      then let s1 = cd_ack_stat s
           in cdrom_queue_pending [cd_stat (cdrom s1), 0x00, 0x20, 0x00, 0x53, 0x43, 0x45, 0x41] 2
                PENDING_DELAY_GETID s1
      else let s1 = cdrom_queue_response [cd_stat (cdrom s), 0x00] 3 s
           in cdrom_queue_pending [0x08, 0x40, 0x00, 0x00, 0x00, 0x00, 0x00, 0x00] 5 PENDING_DELAY_GETID s1)"

definition cdrom_run_command :: "u8 \<Rightarrow> 'a cmachine_scheme \<Rightarrow> 'a cmachine_scheme" where
  "cdrom_run_command cmd s =
     (if cmd = 0x01 then cd_ack_stat s
      else if cmd = 0x02
      then cd_ack_stat (upd_cdrom (\<lambda>c. c\<lparr>setloc_lba := msf_to_lba (cd_param 0 c) (cd_param 1 c) (cd_param 2 c),
             location_changed := True\<rparr>) s)
      else if cmd = 0x03
      then cd_ack_stat (upd_cdrom (\<lambda>c. cdrom_set_stat 0x82 (c\<lparr>cur_lba := setloc_lba c\<rparr>)) s)
      else if cmd = 0x06 then cd_start_read s
      else if cmd = 0x07 then cd_ack_then PENDING_DELAY_MOTORON (upd_cdrom (cdrom_set_stat 0x02) s)
      else if cmd = 0x08
      then cd_ack_then PENDING_DELAY_STOP (upd_cdrom (\<lambda>c. cdrom_set_stat 0x00 (c\<lparr>cd_reading := False\<rparr>)) s)
      else if cmd = 0x09
      then cd_ack_then PENDING_DELAY_PAUSE (upd_cdrom (\<lambda>c. cdrom_set_stat 0x02 (c\<lparr>cd_reading := False\<rparr>)) s)
      else if cmd = 0x0A
      then cd_ack_then PENDING_DELAY_INIT (upd_cdrom (\<lambda>c.
             let c1 = cdrom_set_stat 0x02 (c\<lparr>cd_reading := False, seek_error := False\<rparr>)
             in if has_loc_header c then c1\<lparr>cur_lba := PREGAP_LBA, has_loc_header := True\<rparr> else c1) s)
      else if cmd = 0x0C \<or> cmd = 0x0B \<or> cmd = 0x0D then cd_ack_stat s
      else if cmd = 0x0E then cd_ack_stat (upd_cdrom (\<lambda>c. c\<lparr>cd_mode := cd_param 0 c\<rparr>) s)
      else if cmd = 0x0F
      then cdrom_queue_response [cd_stat (cdrom s), cd_mode (cdrom s), 0x00, 0x00, 0x00, 0x00] 3 s
      else if cmd = 0x10 then cd_getlocL s
      else if cmd = 0x11 then cd_getlocP s
      else if cmd = 0x13 then cdrom_queue_response [cd_stat (cdrom s), 0x01, 0x01] 3 s
      else if cmd = 0x14 then cd_getTD s
      else if cmd = 0x15 \<or> cmd = 0x16 then cd_seek s
      else if cmd = 0x19 then cd_test s
      else if cmd = 0x1A then cd_getID s
      else if cmd = 0x1B then cd_start_read s
      else if cmd = 0x1E then cd_ack_then PENDING_DELAY_READTOC s
      else cdrom_queue_response [cd_stat (cdrom s) OR 0x01, 0x40] 5 s)"

definition cdrom_execute_command :: "u8 \<Rightarrow> 'a cmachine_scheme \<Rightarrow> 'a cmachine_scheme" where
  "cdrom_execute_command cmd s =
     upd_cdrom (\<lambda>c. c\<lparr>param_count := 0\<rparr>) (cdrom_run_command cmd (upd_cdrom (\<lambda>c. c\<lparr>last_cmd := cmd\<rparr>) s))"

section \<open>Delivery\<close>

definition cdrom_deliver_pending :: "'a cmachine_scheme \<Rightarrow> 'a cmachine_scheme" where
  "cdrom_deliver_pending s =
     (let c = cdrom s
      in if \<not> has_pending c then s
         else if int_flag c \<noteq> 0 then s
         else cdrom_signal_later (s\<lparr>cdrom := c\<lparr>response_fifo :=
                put_block 0 (take (pending_count c) (pending_response c)) (response_fifo c),
                response_count := pending_count c, response_read_pos := 0, int_flag := pending_int c,
                has_pending := False\<rparr>\<rparr>))"

definition cdrom_deliver_deferred :: "'a cmachine_scheme \<Rightarrow> 'a cmachine_scheme" where
  "cdrom_deliver_deferred s =
     (let c = cdrom s
      in if \<not> has_deferred c then s
         else cdrom_signal_later (s\<lparr>cdrom := c\<lparr>response_fifo :=
                put_block 0 (take (deferred_count c) (deferred_response c)) (response_fifo c),
                response_count := deferred_count c, response_read_pos := 0, int_flag := deferred_int c,
                has_deferred := False, busy := False\<rparr>\<rparr>))"

definition run_CDROM_PendingCallback :: "int \<Rightarrow> 'a cmachine_scheme \<Rightarrow> 'a cmachine_scheme" where
  "run_CDROM_PendingCallback ticks_late s =
     (if has_pending (cdrom s) \<and> int_flag (cdrom s) = 0 then cdrom_deliver_pending s else s)"

definition run_CDROM_DeferredCallback :: "int \<Rightarrow> 'a cmachine_scheme \<Rightarrow> 'a cmachine_scheme" where
  "run_CDROM_DeferredCallback ticks_late s =
     (if has_deferred (cdrom s) then cdrom_deliver_deferred s else s)"

definition CDROM_ScheduleEvent :: "'a cmachine_scheme \<Rightarrow> 'a cmachine_scheme" where
  "CDROM_ScheduleEvent s =
     (if cd_reading (cdrom s)
      then Sched_Add SCHED_EVENT_CDROM (global_cycles s + ucast (cdrom_read_delay (cdrom s))) CDROM_EventCallback s
      else s)"

definition cdrom_irq_should_signal :: "cdrom_state \<Rightarrow> bool" where
  "cdrom_irq_should_signal c \<longleftrightarrow> int_flag c \<noteq> 0 \<and> bit (int_enable c) (unat (int_flag c) - 1)"

definition run_CDROM_DeferredIRQActivate :: "int \<Rightarrow> 'a cmachine_scheme \<Rightarrow> 'a cmachine_scheme" where
  "run_CDROM_DeferredIRQActivate ticks_late s =
     (let s1 = s\<lparr>cdrom_irq_active := True\<rparr>
      in if cdrom_irq_should_signal (cdrom s1) then SignalInterrupt 2 s1 else s1)"

text \<open>The sector at the head position, as the data queue receives it.\<close>

definition cdrom_fill_sector :: "iso_state \<Rightarrow> cdrom_state \<Rightarrow> u8 list" where
  "cdrom_fill_sector im c =
     (if ISO_IsLoaded im
      then let file_lba = (if cur_lba c \<ge> PREGAP_LBA then cur_lba c - PREGAP_LBA else 0);
               (ret, buf) = ISO_ReadSector file_lba (data_fifo c) im
           in if ret < 0 then put_block 0 (replicate ISO_SECTOR_SIZE 0) buf else buf
      else put_block 0 (replicate ISO_SECTOR_SIZE 0) (data_fifo c))"

definition run_CDROM_EventCallback :: "int \<Rightarrow> 'a cmachine_scheme \<Rightarrow> 'a cmachine_scheme" where
  "run_CDROM_EventCallback ticks_late s =
     (let c = cdrom s
      in if \<not> cd_reading c then s
         else if seek_pending c
         then let s1 = upd_cdrom (\<lambda>c. cdrom_set_stat 0x22 (c\<lparr>seek_pending := False\<rparr>)) s
              in Sched_Add SCHED_EVENT_CDROM (global_cycles s1 + ucast (cdrom_read_delay (cdrom s1)))
                   CDROM_EventCallback s1
         else if int_flag c \<noteq> 0 \<or> has_pending c
         then Sched_Add SCHED_EVENT_CDROM (global_cycles s + ucast (cdrom_read_delay c div 2))
                CDROM_EventCallback s
         else let s1 = upd_cdrom (\<lambda>c. c\<lparr>data_fifo := cdrom_fill_sector (iso s) c, data_pos := 0,
                         data_len := of_nat ISO_SECTOR_SIZE\<rparr>) s;
                  s2 = cdrom_queue_response [cd_stat (cdrom s1)] 1 s1;
                  s3 = upd_cdrom (\<lambda>c. c\<lparr>cur_lba := cur_lba c + 1\<rparr>) s2;
                  delay = (if location_changed (cdrom s3) then cdrom_read_delay (cdrom s3) * 30
                           else cdrom_read_delay (cdrom s3));
                  s4 = upd_cdrom (\<lambda>c. c\<lparr>location_changed := False\<rparr>) s3
              in Sched_Add SCHED_EVENT_CDROM (global_cycles s4 + ucast delay) CDROM_EventCallback s4)"

section \<open>Registers\<close>

definition CDROM_Read :: "u32 \<Rightarrow> 'a cmachine_scheme \<Rightarrow> u32 \<times> 'a cmachine_scheme" where
  "CDROM_Read addr s =
     (let reg = addr AND 3; c = cdrom s
      in if reg = 0
         then (ucast (cd_index c AND 3) OR (if param_count c = 0 then 0x08 else 0)
                 OR (if param_count c < PARAM_FIFO_SIZE then 0x10 else 0)
                 OR (if response_read_pos c < response_count c then 0x20 else 0)
                 OR (if data_pos c < data_len c then 0x40 else 0) OR (if busy c then 0x80 else 0), s)
         else if reg = 1
         then if response_read_pos c < response_count c
              then (ucast (response_fifo c ! response_read_pos c),
                    s\<lparr>cdrom := c\<lparr>response_read_pos := response_read_pos c + 1\<rparr>\<rparr>)
              else (0, s)
         else if reg = 2
         then if data_pos c < data_len c
              then (ucast (data_fifo c ! unat (data_pos c)), s\<lparr>cdrom := c\<lparr>data_pos := data_pos c + 1\<rparr>\<rparr>)
              else (0, s)
         else (if cd_index c AND 1 \<noteq> 0 then ucast (int_flag c) OR 0xE0 else ucast (int_enable c), s))"

text \<open>Acknowledge an interrupt: the flag register at index 1.\<close>

definition cdrom_acknowledge :: "u8 \<Rightarrow> 'a cmachine_scheme \<Rightarrow> 'a cmachine_scheme" where
  "cdrom_acknowledge val s =
     (let s1 = upd_cdrom (\<lambda>c. c\<lparr>int_flag := int_flag c AND NOT (val AND 0x07)\<rparr>) s;
          s2 = (if int_flag (cdrom s1) = 0
                then Sched_Remove SCHED_EVENT_CDROM_IRQ (s1\<lparr>cdrom_irq_active := False\<rparr>) else s1);
          s3 = (if val AND 0x40 \<noteq> 0 then upd_cdrom (\<lambda>c. c\<lparr>param_count := 0\<rparr>) s2 else s2)
      in if has_pending (cdrom s3) \<and> int_flag (cdrom s3) = 0
         then let at = pending_deadline (cdrom s3);
                  deliver_at = (if at \<le> global_cycles s3 then global_cycles s3 + 200 else at)
              in Sched_Add SCHED_EVENT_CDROM_PENDING deliver_at CDROM_PendingCallback s3
         else s3)"

definition CDROM_Write :: "u32 \<Rightarrow> u32 \<Rightarrow> 'a cmachine_scheme \<Rightarrow> 'a cmachine_scheme" where
  "CDROM_Write addr data s =
     (let reg = addr AND 3; val = (ucast (data AND 0xFF) :: u8); c = cdrom s
      in if reg = 0 then s\<lparr>cdrom := c\<lparr>cd_index := val AND 3\<rparr>\<rparr>
         else if reg = 1
         then if cd_index c = 0 then cdrom_execute_command val (s\<lparr>cdrom := c\<lparr>busy := True\<rparr>\<rparr>) else s
         else if reg = 2
         then if cd_index c = 0
              then if param_count c < PARAM_FIFO_SIZE
                   then s\<lparr>cdrom := c\<lparr>param_fifo := (param_fifo c)[param_count c := val],
                          param_count := param_count c + 1\<rparr>\<rparr>
                   else s
              else if cd_index c = 1
              then let s1 = s\<lparr>cdrom := c\<lparr>int_enable := val AND 0x1F\<rparr>\<rparr>
                   in if cdrom_irq_should_signal (cdrom s1) \<and> \<not> cdrom_irq_active s1
                      then SignalInterrupt 2 (s1\<lparr>cdrom_irq_active := True\<rparr>) else s1
              else s
         else if cd_index c = 0
         then if val AND 0x80 \<noteq> 0 then s else s\<lparr>cdrom := c\<lparr>data_pos := 0, data_len := 0\<rparr>\<rparr>
         else if cd_index c = 1 then cdrom_acknowledge val s
         else s)"

section \<open>Frames\<close>

lemma cdrom_frames [simp]:
  "cdrom (Sched_Add e d cb s) = cdrom s" "cdrom (Sched_Remove e s) = cdrom s"
  "cdrom_irq_active (Sched_Add e d cb s) = cdrom_irq_active s" "cdrom_irq_active (Sched_Remove e s) = cdrom_irq_active s"
  "iso (Sched_Add e d cb s) = iso s" "iso (Sched_Remove e s) = iso s"
  "psx_config (Sched_Add e d cb s) = psx_config s" "psx_config (Sched_Remove e s) = psx_config s"
  "cdrom (SignalInterrupt i s) = cdrom s" "cdrom_irq_active (SignalInterrupt i s) = cdrom_irq_active s"
  by (simp_all add: Sched_Add_def Sched_Remove_def sched_recompute_cached_def Let_def case_prod_unfold
      SignalInterrupt_def update_irq_pending_def cap_cycles_for_irq_def)

lemma upd_cdrom_simps [simp]:
  "cdrom (upd_cdrom f s) = f (cdrom s)" "global_cycles (upd_cdrom f s) = global_cycles s"
  "iso (upd_cdrom f s) = iso s" "psx_config (upd_cdrom f s) = psx_config s"
  "cdrom_irq_active (upd_cdrom f s) = cdrom_irq_active s"
  "sched_active (upd_cdrom f s) = sched_active s" "sched_deadline (upd_cdrom f s) = sched_deadline s"
  "sched_callback (upd_cdrom f s) = sched_callback s" "cpu (upd_cdrom f s) = cpu s"
  by (simp_all add: upd_cdrom_def)

lemma queue_response_simps [simp]:
  "cdrom (cdrom_queue_response d i s) = (cdrom s)\<lparr>
     deferred_response := put_block 0 (take RESPONSE_FIFO_SIZE d) (deferred_response (cdrom s)),
     deferred_count := min (length d) RESPONSE_FIFO_SIZE, deferred_int := i, has_deferred := True, busy := True\<rparr>"
  "global_cycles (cdrom_queue_response d i s) = global_cycles s"
  "iso (cdrom_queue_response d i s) = iso s"
  "psx_config (cdrom_queue_response d i s) = psx_config s"
  "cdrom_irq_active (cdrom_queue_response d i s) = cdrom_irq_active s"
  by (simp_all add: cdrom_queue_response_def Let_def frame_simps)

lemma queue_pending_simps [simp]:
  "cdrom (cdrom_queue_pending d i n s) = (cdrom s)\<lparr>
     pending_response := put_block 0 (take RESPONSE_FIFO_SIZE d) (pending_response (cdrom s)),
     pending_count := min (length d) RESPONSE_FIFO_SIZE, pending_int := i, has_pending := True,
     pending_deadline := global_cycles s + ucast (if cdrom_fast (psx_config s) then 200 else n)\<rparr>"
  "global_cycles (cdrom_queue_pending d i n s) = global_cycles s"
  "cdrom_irq_active (cdrom_queue_pending d i n s) = cdrom_irq_active s"
  by (simp_all add: cdrom_queue_pending_def Let_def frame_simps)

lemma signal_later_simps [simp]:
  "cdrom (cdrom_signal_later s) = cdrom s"
  "cdrom_irq_active (cdrom_signal_later s) = False"
  "sched_pending (cdrom_signal_later s) SCHED_EVENT_CDROM_IRQ =
     Some (global_cycles s + 800, Some CDROM_DeferredIRQActivate)"
  "global_cycles (cdrom_signal_later s) = global_cycles s"
  by (simp_all add: cdrom_signal_later_def sched_pending_def frame_simps sched_event_defs)

section \<open>Scheduler\<close>

lemma sched_ops_cdrom_fields [ops_simps]:
  "sched_ops s (t\<lparr>cdrom := g\<rparr>) = sched_ops s t" "sched_ops s (t\<lparr>cdrom_irq_active := b\<rparr>) = sched_ops s t"
  "sched_ops s (t\<lparr>iso := i\<rparr>) = sched_ops s t" "sched_ops s (upd_cdrom f t) = sched_ops s t"
  by (rule sched_ops_same_iff, simp add: sched_same_def upd_cdrom_def)+

lemma sched_ops_cdrom_queue [ops_simps]:
  "sched_ops s t \<Longrightarrow> sched_ops s (cdrom_queue_response d i t)"
  "sched_ops s (cdrom_queue_pending d i n t) = sched_ops s t"
  "sched_ops s t \<Longrightarrow> sched_ops s (cdrom_signal_later t)"
  by (simp_all add: cdrom_queue_response_def cdrom_queue_pending_def cdrom_signal_later_def Let_def
      sched_event_defs ops_simps)

lemma sched_ops_cdrom_command [ops_simps]: "sched_ops s t \<Longrightarrow> sched_ops s (cdrom_execute_command cmd t)"
  by (simp add: cdrom_execute_command_def cdrom_run_command_def cd_ack_stat_def cd_ack_then_def cd_start_read_def
      cd_getlocL_def cd_getlocP_def cd_getTD_def cd_seek_def cd_test_def cd_getID_def Let_def case_prod_unfold
      sched_event_defs ops_simps)

lemma sched_ops_cdrom [ops_simps]:
  "sched_ops s t \<Longrightarrow> sched_ops s (CDROM_Write addr data t)"
  "sched_ops s (snd (CDROM_Read addr t)) = sched_ops s t"
  "sched_ops s t \<Longrightarrow> sched_ops s (run_CDROM_EventCallback late t)"
  "sched_ops s t \<Longrightarrow> sched_ops s (run_CDROM_PendingCallback late t)"
  "sched_ops s t \<Longrightarrow> sched_ops s (run_CDROM_DeferredCallback late t)"
  "sched_ops s (run_CDROM_DeferredIRQActivate late t) = sched_ops s t"
  "sched_ops s t \<Longrightarrow> sched_ops s (run_cdrom_shell_close_stage2 late t)"
  "sched_ops s (run_cdrom_shell_close_stage3 late t) = sched_ops s t"
  "sched_ops s (snd (CDROM_ReadDataFIFO n t)) = sched_ops s t"
  by (simp_all add: CDROM_Write_def cdrom_acknowledge_def CDROM_Read_def run_CDROM_EventCallback_def
      run_CDROM_PendingCallback_def run_CDROM_DeferredCallback_def run_CDROM_DeferredIRQActivate_def
      run_cdrom_shell_close_stage2_def run_cdrom_shell_close_stage3_def cdrom_deliver_pending_def
      cdrom_deliver_deferred_def CDROM_ReadDataFIFO_def Let_def sched_event_defs ops_simps)


section \<open>Positions\<close>

definition bcd_valid :: "u8 \<Rightarrow> bool" where
  "bcd_valid b \<longleftrightarrow> unat (drop_bit 4 b) \<le> 9 \<and> unat (b AND 0x0F) \<le> 9"

lemma unat_dec_to_bcd:
  assumes "v < 100"
  shows "unat (dec_to_bcd v) = v div 10 * 16 + v mod 10"
proof -
  have l: "v mod 10 < 2 ^ 4" "v div 10 < 10" using assms by simp_all
  have "\<not> bit (v mod 10) n" if "4 \<le> n" for n
  proof -
    have "(2 :: nat) ^ 4 \<le> 2 ^ n" using that by (rule power_increasing) simp
    then show ?thesis using l(1) by (simp add: bit_iff_odd)
  qed
  then have "push_bit 4 (of_nat (v div 10)) OR of_nat (v mod 10) =
      (push_bit 4 (of_nat (v div 10)) + of_nat (v mod 10) :: u32)"
    by (intro disjunctive_add [symmetric]) (auto simp: bit_simps)
  also have "\<dots> = of_nat (v div 10 * 16 + v mod 10)" by (simp add: push_bit_eq_mult)
  finally have "dec_to_bcd v = ucast (of_nat (v div 10 * 16 + v mod 10) :: u32)"
    by (simp only: dec_to_bcd_def)
  moreover have "v div 10 * 16 + v mod 10 < 256" using l by simp
  ultimately show ?thesis
    by (simp only: unsigned_ucast_eq unsigned_of_nat take_bit_eq_mod) simp
qed

lemma bcd_dec: "v < 100 \<Longrightarrow> bcd_to_dec (dec_to_bcd v) = v" "v < 100 \<Longrightarrow> bcd_valid (dec_to_bcd v)"
proof -
  assume v: "v < 100"
  have "dec_to_bcd v AND 0x0F = take_bit 4 (dec_to_bcd v)" by (simp add: take_bit_eq_mask mask_eq_exp_minus_1)
  moreover have "unat (take_bit 4 (dec_to_bcd v)) = v mod 10" "unat (drop_bit 4 (dec_to_bcd v)) = v div 10"
    using unat_dec_to_bcd [OF v] by (simp_all add: take_bit_eq_mod drop_bit_eq_div unat_mod unat_div)
  moreover have "v div 10 \<le> 9" "v mod 10 \<le> 9" using v by simp_all
  ultimately show "bcd_to_dec (dec_to_bcd v) = v" "bcd_valid (dec_to_bcd v)"
    by (simp_all add: bcd_to_dec_def bcd_valid_def Let_def)
qed

lemma dec_bcd: "bcd_valid b \<Longrightarrow> dec_to_bcd (bcd_to_dec b) = b"
proof -
  assume v: "bcd_valid b"
  have "of_nat (unat (w :: u8)) = (ucast w :: u32)" for w by simp
  moreover have "(ucast (push_bit 4 (ucast (drop_bit 4 b)) OR ucast (b AND 0x0F) :: u32) :: u8) = b"
    by (simp add: u8_eq_bits bit_simps)
  ultimately show ?thesis using v by (simp add: bcd_valid_def bcd_to_dec_def dec_to_bcd_def Let_def)
qed

lemma bcd_to_dec_less: "bcd_to_dec b < 100"
  by (auto simp: bcd_to_dec_def Let_def)

text \<open>
  Positions. Every sector number below 100 minutes, written as minutes, seconds and frames in BCD, is
  read back as the same number; and every valid position (BCD digits, seconds below 60, frames below 75)
  is the one written for its sector number.
\<close>

theorem cdrom_position_roundtrip:
  "(lba < 450000 \<longrightarrow> (case lba_to_bcd lba of (mm, ss, ff) \<Rightarrow>
      bcd_valid mm \<and> bcd_valid ss \<and> bcd_valid ff \<and> msf_to_lba mm ss ff = lba)) \<and>
   (bcd_valid mm \<and> bcd_valid ss \<and> bcd_valid ff \<and> bcd_to_dec ss < 60 \<and> bcd_to_dec ff < 75 \<longrightarrow>
      lba_to_bcd (msf_to_lba mm ss ff) = (mm, ss, ff))"
proof (intro conjI impI)
  assume "lba < 450000"
  then have small: "unat lba < 450000" by (simp add: word_less_nat_alt)
  define n where "n = unat lba"
  have bcd: "lba_to_bcd lba = (dec_to_bcd (n div 75 div 60), dec_to_bcd (n div 75 mod 60), dec_to_bcd (n mod 75))"
    by (simp add: lba_to_bcd_def Let_def unat_mod unat_div n_def)
  have d: "n div 75 div 60 < 100" "n div 75 mod 60 < 100" "n mod 75 < 100" using small by (simp_all add: n_def)
  have "of_nat (n div 75 div 60 * 60 + n div 75 mod 60) * 75 + of_nat (n mod 75) = (of_nat n :: u32)"
    by (metis div_mult_mod_eq of_nat_add of_nat_mult of_nat_numeral)
  then have "msf_to_lba (dec_to_bcd (n div 75 div 60)) (dec_to_bcd (n div 75 mod 60)) (dec_to_bcd (n mod 75)) = lba"
    unfolding msf_to_lba_def bcd_dec(1) [OF d(1)] bcd_dec(1) [OF d(2)] bcd_dec(1) [OF d(3)] by (simp add: n_def)
  then show "case lba_to_bcd lba of (mm, ss, ff) \<Rightarrow>
      bcd_valid mm \<and> bcd_valid ss \<and> bcd_valid ff \<and> msf_to_lba mm ss ff = lba"
    using d by (simp add: bcd bcd_dec)
next
  assume v: "bcd_valid mm \<and> bcd_valid ss \<and> bcd_valid ff \<and> bcd_to_dec ss < 60 \<and> bcd_to_dec ff < 75"
  define k where "k = bcd_to_dec mm * 60 + bcd_to_dec ss"
  define n where "n = k * 75 + bcd_to_dec ff"
  have "n < 2 ^ 32" using bcd_to_dec_less [of mm] v by (simp add: n_def k_def)
  moreover have "msf_to_lba mm ss ff = of_nat n" by (simp add: msf_to_lba_def n_def k_def)
  ultimately have "unat (msf_to_lba mm ss ff) = n" by simp
  moreover have "n div 75 = k" "n mod 75 = bcd_to_dec ff" using v by (simp_all add: n_def)
  moreover have "k div 60 = bcd_to_dec mm" "k mod 60 = bcd_to_dec ss" using v by (simp_all add: k_def)
  ultimately show "lba_to_bcd (msf_to_lba mm ss ff) = (mm, ss, ff)"
    using v by (simp add: lba_to_bcd_def Let_def unat_div unat_mod dec_bcd)
qed

theorem cdrom_position_roundtrip_witness:
  "(333150 :: u32) < 450000 \<and> lba_to_bcd 333150 = (0x74, 0x02, 0x00) \<and> msf_to_lba 0x74 0x02 0x00 = 333150"
  using cdrom_position_roundtrip [of "333150" "0x74" "0x02" "0x00"]
  by (simp add: lba_to_bcd_def dec_to_bcd_def push_bit_eq_mult)

section \<open>The queues\<close>

definition cdrom_ok :: "cdrom_state \<Rightarrow> bool" where
  "cdrom_ok c \<longleftrightarrow> length (param_fifo c) = PARAM_FIFO_SIZE \<and> param_count c \<le> PARAM_FIFO_SIZE \<and>
     length (response_fifo c) = RESPONSE_FIFO_SIZE \<and> response_count c \<le> RESPONSE_FIFO_SIZE \<and>
     response_read_pos c \<le> response_count c \<and>
     length (data_fifo c) = DATA_FIFO_SIZE \<and> data_pos c \<le> data_len c \<and> unat (data_len c) \<le> DATA_FIFO_SIZE \<and>
     length (pending_response c) = RESPONSE_FIFO_SIZE \<and> pending_count c \<le> RESPONSE_FIFO_SIZE \<and>
     length (deferred_response c) = RESPONSE_FIFO_SIZE \<and> deferred_count c \<le> RESPONSE_FIFO_SIZE \<and>
     int_flag c \<le> 5 \<and> pending_int c \<le> 5 \<and> deferred_int c \<le> 5"

lemma queue_response_ok: "cdrom_ok (cdrom s) \<Longrightarrow> i \<le> 5 \<Longrightarrow> cdrom_ok (cdrom (cdrom_queue_response d i s))"
  by (simp add: cdrom_ok_def length_put_block)

lemma queue_pending_ok: "cdrom_ok (cdrom s) \<Longrightarrow> i \<le> 5 \<Longrightarrow> cdrom_ok (cdrom (cdrom_queue_pending d i n s))"
  by (simp add: cdrom_ok_def length_put_block)

text \<open>Updates of the other fields do not matter.\<close>

lemma cdrom_ok_fields [simp]:
  "cdrom_ok (c\<lparr>cd_index := a1\<rparr>) = cdrom_ok c" "cdrom_ok (c\<lparr>cd_stat := a1\<rparr>) = cdrom_ok c"
  "cdrom_ok (c\<lparr>last_cmd := a1\<rparr>) = cdrom_ok c" "cdrom_ok (c\<lparr>busy := b\<rparr>) = cdrom_ok c"
  "cdrom_ok (c\<lparr>cur_lba := w\<rparr>) = cdrom_ok c" "cdrom_ok (c\<lparr>cd_reading := b\<rparr>) = cdrom_ok c"
  "cdrom_ok (c\<lparr>int_enable := a1\<rparr>) = cdrom_ok c" "cdrom_ok (c\<lparr>seek_error := b\<rparr>) = cdrom_ok c"
  "cdrom_ok (c\<lparr>location_changed := b\<rparr>) = cdrom_ok c" "cdrom_ok (c\<lparr>seek_pending := b\<rparr>) = cdrom_ok c"
  "cdrom_ok (c\<lparr>cd_mode := a1\<rparr>) = cdrom_ok c" "cdrom_ok (c\<lparr>disc_present := b\<rparr>) = cdrom_ok c"
  "cdrom_ok (c\<lparr>setloc_lba := w\<rparr>) = cdrom_ok c"
  by (simp_all add: cdrom_ok_def)

lemma cdrom_set_stat_ok [simp]: "cdrom_ok (cdrom_set_stat w c) = cdrom_ok c"
  by (simp add: cdrom_set_stat_def)

lemma ack_stat_ok: "cdrom_ok (cdrom s) \<Longrightarrow> cdrom_ok (cdrom (cd_ack_stat s))"
  unfolding cd_ack_stat_def by (rule queue_response_ok) simp_all

lemma ack_then_ok: "cdrom_ok (cdrom s) \<Longrightarrow> cdrom_ok (cdrom (cd_ack_then n s))"
  unfolding cd_ack_then_def Let_def by (rule queue_pending_ok) (simp_all add: ack_stat_ok)

lemmas command_ok = queue_response_ok queue_pending_ok ack_stat_ok ack_then_ok

lemma seek_commands_ok:
  assumes "cdrom_ok (cdrom s)"
  shows "cdrom_ok (cdrom (cd_start_read s))" "cdrom_ok (cdrom (cd_seek s))"
proof -
  have "cdrom_ok ((cdrom_set_stat w (c\<lparr>cur_lba := l, cd_reading := r, has_loc_header := h, seek_error := e\<rparr>))
      \<lparr>seek_pending := p\<rparr>) = cdrom_ok c"
    "cdrom_ok (c\<lparr>cur_lba := l, has_loc_header := h, seek_error := e\<rparr>) = cdrom_ok c" for c w l r h e p
    by (simp_all add: cdrom_ok_def cdrom_set_stat_def)
  then show "cdrom_ok (cdrom (cd_start_read s))" "cdrom_ok (cdrom (cd_seek s))"
    using assms by (auto simp: cd_start_read_def cd_seek_def Let_def intro!: command_ok
        simp del: queue_response_simps(1) queue_pending_simps(1))
qed

lemma report_commands_ok:
  assumes "cdrom_ok (cdrom s)"
  shows "cdrom_ok (cdrom (cd_getlocL s))" "cdrom_ok (cdrom (cd_getlocP s))" "cdrom_ok (cdrom (cd_getTD s))"
    "cdrom_ok (cdrom (cd_test s))" "cdrom_ok (cdrom (cd_getID s))"
  using assms by (auto simp: cd_getlocL_def cd_getlocP_def cd_getTD_def cd_test_def cd_getID_def Let_def
      case_prod_unfold intro!: command_ok simp del: queue_response_simps(1) queue_pending_simps(1))

lemma run_command_ok:
  assumes "cdrom_ok (cdrom s)"
  shows "cdrom_ok (cdrom (cdrom_run_command cmd s))"
proof -
  have upd: "cdrom_ok (c\<lparr>setloc_lba := l, location_changed := b\<rparr>) = cdrom_ok c"
    "cdrom_ok (c\<lparr>cd_reading := b, seek_error := b'\<rparr>) = cdrom_ok c"
    "cdrom_ok (c\<lparr>cur_lba := l, has_loc_header := b\<rparr>) = cdrom_ok c" for c l b b'
    by (simp_all add: cdrom_ok_def)
  show ?thesis
    using assms seek_commands_ok [OF assms] report_commands_ok [OF assms] unfolding cdrom_run_command_def
    by (auto simp: upd Let_def intro!: command_ok simp del: queue_response_simps(1) queue_pending_simps(1))
qed

lemma execute_command_ok: "cdrom_ok (cdrom s) \<Longrightarrow> cdrom_ok (cdrom (cdrom_execute_command cmd s))"
  using run_command_ok [of "upd_cdrom (\<lambda>c. c\<lparr>last_cmd := cmd\<rparr>) s" cmd]
  by (simp add: cdrom_execute_command_def) (simp add: cdrom_ok_def)

lemma deliver_ok:
  "cdrom_ok (cdrom s) \<Longrightarrow> cdrom_ok (cdrom (cdrom_deliver_pending s))"
  "cdrom_ok (cdrom s) \<Longrightarrow> cdrom_ok (cdrom (cdrom_deliver_deferred s))"
  by (simp_all add: cdrom_deliver_pending_def cdrom_deliver_deferred_def Let_def)
    (simp_all add: cdrom_ok_def length_put_block)

lemma length_ReadSector: "ISO_SECTOR_SIZE \<le> length buf \<Longrightarrow> length (snd (ISO_ReadSector lba buf st)) = length buf"
  by (auto simp: ISO_ReadSector_def Let_def split: option.split intro!: length_put_block)

lemma fill_sector_length:
  "length (data_fifo c) = DATA_FIFO_SIZE \<Longrightarrow> length (cdrom_fill_sector im c) = DATA_FIFO_SIZE"
  using length_ReadSector [of "data_fifo c"]
  by (simp add: cdrom_fill_sector_def Let_def case_prod_unfold length_put_block cdrom_sizes iso_sizes)

lemma event_ok:
  assumes "cdrom_ok (cdrom s)"
  shows "cdrom_ok (cdrom (run_CDROM_EventCallback late s))"
proof -
  have "cdrom_ok ((cdrom s)\<lparr>data_fifo := cdrom_fill_sector (iso s) (cdrom s), data_pos := 0,
      data_len := of_nat ISO_SECTOR_SIZE\<rparr>)"
    using assms by (simp add: cdrom_ok_def fill_sector_length) (simp add: cdrom_sizes iso_sizes)
  then show ?thesis
    using assms by (auto simp: run_CDROM_EventCallback_def Let_def intro!: command_ok
        simp del: queue_response_simps(1))
qed


lemma acknowledge_ok: "cdrom_ok (cdrom s) \<Longrightarrow> cdrom_ok (cdrom (cdrom_acknowledge val s))"
proof -
  have "x AND y \<le> 5" if "x \<le> 5" for x y :: u8
    using that by (rule order_trans [OF word_and_le2])
  then show "cdrom_ok (cdrom s) \<Longrightarrow> ?thesis"
    by (simp add: cdrom_acknowledge_def Let_def cdrom_ok_def)
qed

lemma read_fifo_ok: "cdrom_ok (cdrom s) \<Longrightarrow> cdrom_ok (cdrom (snd (CDROM_ReadDataFIFO n s)))"
proof -
  have "p + m \<le> l" if "p \<le> l" "m \<le> l - p" for p m l :: u32
  proof -
    have "unat (l - p) = unat l - unat p" using that(1) by (simp add: unat_sub)
    then have "unat p + unat m \<le> unat l" using that by (simp add: word_le_nat_alt)
    moreover from this have "unat (p + m) = unat p + unat m"
      using unat_add_lem [of p m] unat_u32_less [of l] by simp
    ultimately show ?thesis by (simp add: word_le_nat_alt)
  qed
  then show "cdrom_ok (cdrom s) \<Longrightarrow> ?thesis"
    by (auto simp: CDROM_ReadDataFIFO_def Let_def cdrom_ok_def)
qed

text \<open>
  C28. The controller's queues. Every register access, callback, disc or shell operation and DMA transfer
  keeps the parameter, response, data, pending and deferred buffers at their sizes, their counts and
  read positions within them, and the interrupt code at most 5; so no queue is read or written outside
  its array.
\<close>

theorem cdrom_ok_preserved:
  assumes "cdrom_ok (cdrom s)"
  shows "cdrom_ok (cdrom (CDROM_Write addr data s)) \<and> cdrom_ok (cdrom (snd (CDROM_Read addr s))) \<and>
    cdrom_ok (cdrom (run_CDROM_EventCallback late s)) \<and> cdrom_ok (cdrom (run_CDROM_PendingCallback late s)) \<and>
    cdrom_ok (cdrom (run_CDROM_DeferredCallback late s)) \<and>
    cdrom_ok (cdrom (run_CDROM_DeferredIRQActivate late s)) \<and>
    cdrom_ok (cdrom (run_cdrom_shell_close_stage2 late s)) \<and>
    cdrom_ok (cdrom (run_cdrom_shell_close_stage3 late s)) \<and>
    cdrom_ok (cdrom (CDROM_EjectDisc s)) \<and> cdrom_ok (cdrom (CDROM_CloseShell s)) \<and>
    cdrom_ok (cdrom (CDROM_InsertDisc s)) \<and> cdrom_ok (cdrom (CDROM_Init s)) \<and>
    cdrom_ok (cdrom (snd (CDROM_ReadDataFIFO n s)))"
proof -
  have wr: "cdrom_ok (cdrom (CDROM_Write addr data s))"
    using assms by (auto simp: CDROM_Write_def Let_def intro!: execute_command_ok acknowledge_ok)
      (auto simp: cdrom_ok_def)
  have rd: "cdrom_ok (cdrom (snd (CDROM_Read addr s)))"
  proof -
    have "p + 1 \<le> l" if "p < l" for p l :: u32
      using that by (simp add: inc_le)
    then show ?thesis using assms by (simp add: CDROM_Read_def Let_def) (auto simp: cdrom_ok_def)
  qed
  have "cdrom_ok (cdrom (CDROM_EjectDisc s))"
    using assms by (simp add: CDROM_EjectDisc_def) (simp add: cdrom_ok_def length_put_block cdrom_sizes)
  moreover have "cdrom_ok (c\<lparr>cd_stat := a, disc_present := b\<rparr>) = cdrom_ok c" for c a b
    by (simp add: cdrom_ok_def)
  moreover have "cdrom_ok (cdrom (CDROM_Init s))"
    by (simp add: CDROM_Init_def cdrom_reset_def cdrom_ok_def)
  ultimately show ?thesis
    using assms wr rd event_ok [OF assms] read_fifo_ok [OF assms]
    by (simp add: run_CDROM_PendingCallback_def run_CDROM_DeferredCallback_def run_CDROM_DeferredIRQActivate_def
        run_cdrom_shell_close_stage2_def run_cdrom_shell_close_stage3_def CDROM_CloseShell_def
        CDROM_InsertDisc_def deliver_ok Let_def)
qed

section \<open>Commands and their responses\<close>

text \<open>
  What holds of the controller after a command has run: a first response is queued and its event
  scheduled, and nothing visible to the processor has changed yet.
\<close>

definition cd_queued :: "'a cmachine_scheme \<Rightarrow> 'a cmachine_scheme \<Rightarrow> bool" where
  "cd_queued s t \<longleftrightarrow> has_deferred (cdrom t) \<and> busy (cdrom t) \<and> deferred_int (cdrom t) \<in> {3, 5} \<and>
     0 < deferred_count (cdrom t) \<and>
     sched_pending t SCHED_EVENT_CDROM_DEFERRED = Some (global_cycles s + 4000, Some CDROM_DeferredCallback) \<and>
     int_flag (cdrom t) = int_flag (cdrom s) \<and> response_fifo (cdrom t) = response_fifo (cdrom s) \<and>
     response_count (cdrom t) = response_count (cdrom s) \<and>
     response_read_pos (cdrom t) = response_read_pos (cdrom s) \<and> data_fifo (cdrom t) = data_fifo (cdrom s) \<and>
     cdrom_irq_active t = cdrom_irq_active s \<and> global_cycles t = global_cycles s"

lemma sched_pending_queue_response:
  "sched_pending (cdrom_queue_response d i s) SCHED_EVENT_CDROM_DEFERRED =
     Some (global_cycles s + 4000, Some CDROM_DeferredCallback)"
  by (simp add: cdrom_queue_response_def sched_pending_def frame_simps sched_event_defs Let_def)

lemma sched_pending_upd_cdrom [simp]:
  "sched_pending (upd_cdrom f s) = sched_pending s" "sched_pending (s\<lparr>cdrom := c\<rparr>) = sched_pending s"
  by (simp_all add: sched_pending_def fun_eq_iff)

lemma sched_pending_Sched_Add:
  "sched_pending (Sched_Add e d cb s) i =
     (if i = e \<and> e < SCHED_EVENT_COUNT then Some (d, Some cb) else sched_pending s i)"
  by (auto simp: sched_pending_def frame_simps)

text \<open>Changes of the controller that the processor does not see.\<close>

definition cd_quiet :: "(cdrom_state \<Rightarrow> cdrom_state) \<Rightarrow> bool" where
  "cd_quiet f \<longleftrightarrow> (\<forall>c. int_flag (f c) = int_flag c \<and> response_fifo (f c) = response_fifo c \<and>
     response_count (f c) = response_count c \<and> response_read_pos (f c) = response_read_pos c \<and>
     data_fifo (f c) = data_fifo c)"

lemma queued_response: "i \<in> {3, 5} \<Longrightarrow> d \<noteq> [] \<Longrightarrow> cd_queued s (cdrom_queue_response d i s)"
  by (auto simp: cd_queued_def sched_pending_queue_response cdrom_sizes)

lemma queued_ack: "cd_queued s (cd_ack_stat s)"
  by (simp add: cd_ack_stat_def queued_response)

lemma queued_upd: "cd_quiet f \<Longrightarrow> cd_queued (upd_cdrom f s) t \<Longrightarrow> cd_queued s t"
  by (simp add: cd_quiet_def cd_queued_def)

lemma queued_pending: "cd_queued s t \<Longrightarrow> cd_queued s (cdrom_queue_pending d i n t)"
proof -
  have "sched_pending (cdrom_queue_pending d i n t) = sched_pending t"
    by (simp add: cdrom_queue_pending_def Let_def)
  then show "cd_queued s t \<Longrightarrow> ?thesis" by (simp add: cd_queued_def)
qed

lemma queued_then: "cd_queued s (cd_ack_then n s)"
  by (simp add: cd_ack_then_def Let_def queued_pending queued_ack)

lemma queued_event:
  "cd_queued s t \<Longrightarrow> e \<noteq> SCHED_EVENT_CDROM_DEFERRED \<Longrightarrow> cd_queued s (Sched_Add e d cb t)"
  by (simp add: cd_queued_def sched_pending_Sched_Add frame_simps)

lemma set_stat_frame [simp]:
  "int_flag (cdrom_set_stat w c) = int_flag c" "response_fifo (cdrom_set_stat w c) = response_fifo c"
  "response_count (cdrom_set_stat w c) = response_count c"
  "response_read_pos (cdrom_set_stat w c) = response_read_pos c" "data_fifo (cdrom_set_stat w c) = data_fifo c"
  by (simp_all add: cdrom_set_stat_def)

lemma queued_upd_ack:
  "cd_quiet f \<Longrightarrow> cd_queued s (cd_ack_stat (upd_cdrom f s))"
  "cd_quiet f \<Longrightarrow> cd_queued s (cd_ack_then n (upd_cdrom f s))"
  by (auto intro: queued_upd queued_ack queued_then)

lemma queued_commands:
  "cd_queued s (cd_start_read s)" "cd_queued s (cd_seek s)" "cd_queued s (cd_getlocL s)" "cd_queued s (cd_getlocP s)"
  "cd_queued s (cd_getTD s)" "cd_queued s (cd_test s)" "cd_queued s (cd_getID s)"
proof -
  show "cd_queued s (cd_start_read s)"
    unfolding cd_start_read_def Let_def
    by (rule queued_event, rule queued_upd_ack) (simp_all add: cd_quiet_def sched_event_defs)
  show "cd_queued s (cd_seek s)"
    unfolding cd_seek_def Let_def
    by (auto intro!: queued_pending queued_upd_ack simp: cd_quiet_def)
  show "cd_queued s (cd_getlocL s)" "cd_queued s (cd_getlocP s)" "cd_queued s (cd_getTD s)" "cd_queued s (cd_test s)"
    "cd_queued s (cd_getID s)"
    by (simp_all add: cd_getlocL_def cd_getlocP_def cd_getTD_def cd_test_def cd_getID_def Let_def case_prod_unfold
        queued_response queued_ack queued_pending)
qed

lemma command_queued: "cd_queued s (cdrom_run_command cmd s)"
proof -
  have "cd_quiet (cdrom_set_stat w)" "cd_quiet (\<lambda>c. cdrom_set_stat w (c\<lparr>cd_reading := b\<rparr>))"
    "cd_quiet (\<lambda>c. cdrom_set_stat w (c\<lparr>cur_lba := setloc_lba c\<rparr>))" "cd_quiet (\<lambda>c. c\<lparr>cd_mode := cd_param 0 c\<rparr>)"
    "cd_quiet (\<lambda>c. c\<lparr>setloc_lba := msf_to_lba (cd_param 0 c) (cd_param 1 c) (cd_param 2 c), location_changed := True\<rparr>)"
    "cd_quiet (\<lambda>c. let c1 = cdrom_set_stat w (c\<lparr>cd_reading := False, seek_error := False\<rparr>)
        in if has_loc_header c then c1\<lparr>cur_lba := PREGAP_LBA, has_loc_header := True\<rparr> else c1)" for w b
    by (simp_all add: cd_quiet_def Let_def)
  then show ?thesis
    unfolding cdrom_run_command_def
    by (simp only: queued_upd_ack queued_commands queued_ack queued_then queued_response if_split insert_iff
        list.distinct simp_thms)
qed



lemma code_within_3_bits: "(f :: u8) \<le> 5 \<Longrightarrow> f AND NOT 7 = 0"
proof -
  assume "f \<le> 5"
  then have "unat f < 8" by (simp add: word_le_nat_alt)
  then have "take_bit 3 f = f" by (simp add: word_unat_eq_iff take_bit_eq_mod unat_mod)
  then have "f = f AND 7" by (simp add: take_bit_eq_mask mask_eq_exp_minus_1)
  moreover have "(f AND 7) AND NOT 7 = 0" by (simp add: u8_eq_bits bit_simps)
  ultimately show ?thesis by simp
qed

text \<open>
  The second response waits for the first. While an interrupt code is unacknowledged, the pending
  callback does nothing; acknowledging it (any value with the three low bits set) clears the code,
  cancels a signal on its way and schedules the second response at its deadline, or 200 cycles ahead if
  that has passed; the callback then delivers exactly the pending bytes with their interrupt code.
\<close>

theorem cdrom_second_response:
  assumes "cdrom_ok (cdrom s)" "has_pending (cdrom s)" "int_flag (cdrom s) \<noteq> 0" "val AND 7 = 7" "cd_index (cdrom s) = 1"
  shows "let c = cdrom s; s1 = CDROM_Write 0x1F801803 (ucast (val :: u8)) s;
             s2 = run_CDROM_PendingCallback late s1 in
     run_CDROM_PendingCallback late s = s \<and>
     int_flag (cdrom s1) = 0 \<and> \<not> cdrom_irq_active s1 \<and> sched_pending s1 SCHED_EVENT_CDROM_IRQ = None \<and>
     sched_pending s1 SCHED_EVENT_CDROM_PENDING =
       Some (if pending_deadline c \<le> global_cycles s then global_cycles s + 200 else pending_deadline c,
             Some CDROM_PendingCallback) \<and>
     int_flag (cdrom s2) = pending_int c \<and> \<not> has_pending (cdrom s2) \<and>
     take (response_count (cdrom s2)) (response_fifo (cdrom s2)) = take (pending_count c) (pending_response c) \<and>
     response_count (cdrom s2) = pending_count c \<and> response_read_pos (cdrom s2) = 0 \<and>
     sched_pending s2 SCHED_EVENT_CDROM_IRQ = Some (global_cycles s + 800, Some CDROM_DeferredIRQActivate)"
proof -
  have flag: "int_flag (cdrom s) AND NOT (val AND 7) = 0"
    using code_within_3_bits [of "int_flag (cdrom s)"] assms(1,4) by (simp only: cdrom_ok_def)
  define u where "u = Sched_Remove SCHED_EVENT_CDROM_IRQ
      ((upd_cdrom (\<lambda>c. c\<lparr>int_flag := 0\<rparr>) s)\<lparr>cdrom_irq_active := False\<rparr>)"
  define u1 where "u1 = (if val AND 0x40 \<noteq> 0 then upd_cdrom (\<lambda>c. c\<lparr>param_count := 0\<rparr>) u else u)"
  have s1: "CDROM_Write 0x1F801803 (ucast val) s = Sched_Add SCHED_EVENT_CDROM_PENDING
      (if pending_deadline (cdrom s) \<le> global_cycles s then global_cycles s + 200 else pending_deadline (cdrom s))
      CDROM_PendingCallback u1"
    using assms(2,5) flag
    by (simp add: CDROM_Write_def cdrom_acknowledge_def Let_def u1_def u_def frame_simps upd_cdrom_def)
  have u1: "int_flag (cdrom u1) = 0" "\<not> cdrom_irq_active u1" "sched_pending u1 SCHED_EVENT_CDROM_IRQ = None"
    "has_pending (cdrom u1)" "pending_int (cdrom u1) = pending_int (cdrom s)"
    "pending_count (cdrom u1) = pending_count (cdrom s)" "pending_response (cdrom u1) = pending_response (cdrom s)"
    "response_fifo (cdrom u1) = response_fifo (cdrom s)" "global_cycles u1 = global_cycles s"
    using assms(2) by (simp_all add: u1_def u_def sched_pending_def frame_simps)
  have "pending_count (cdrom s) \<le> length (pending_response (cdrom s))" using assms(1) by (simp add: cdrom_ok_def)
  moreover have "SCHED_EVENT_CDROM_IRQ \<noteq> SCHED_EVENT_CDROM_PENDING" "SCHED_EVENT_CDROM_PENDING < SCHED_EVENT_COUNT"
    by (simp_all add: sched_event_defs)
  ultimately show ?thesis
    unfolding s1 Let_def using u1 assms(3)
    by (simp add: run_CDROM_PendingCallback_def cdrom_deliver_pending_def Let_def sched_pending_Sched_Add
        frame_simps put_block_def)
qed


section \<open>Sectors\<close>

text \<open>
  What the controller relies on in the disc image: a read leaves the buffer's size alone, and a
  successful one determines the sector's bytes, whatever was in the buffer.
\<close>

locale sector_source =
  fixes read_sector :: "u32 \<Rightarrow> u8 list \<Rightarrow> 's \<Rightarrow> int \<times> u8 list"
  assumes read_length: "ISO_SECTOR_SIZE \<le> length buf \<Longrightarrow> length (snd (read_sector lba buf st)) = length buf"
    and read_code: "fst (read_sector lba buf st) = fst (read_sector lba buf' st)"
    and read_fresh: "ISO_SECTOR_SIZE \<le> length buf \<Longrightarrow> ISO_SECTOR_SIZE \<le> length buf' \<Longrightarrow>
      0 \<le> fst (read_sector lba buf st) \<Longrightarrow>
      take ISO_SECTOR_SIZE (snd (read_sector lba buf st)) = take ISO_SECTOR_SIZE (snd (read_sector lba buf' st))"
begin

definition filled :: "u32 \<Rightarrow> u8 list \<Rightarrow> 's \<Rightarrow> u8 list" where
  "filled lba buf st = (case read_sector lba buf st of (ret, b) \<Rightarrow>
     if ret < 0 then put_block 0 (replicate ISO_SECTOR_SIZE 0) b else b)"

lemma filled_fresh:
  assumes "ISO_SECTOR_SIZE \<le> length buf" "ISO_SECTOR_SIZE \<le> length buf'"
  shows "take ISO_SECTOR_SIZE (filled lba buf st) = take ISO_SECTOR_SIZE (filled lba buf' st)"
  using read_fresh [OF assms] read_code [of lba buf st buf']
  by (auto simp: filled_def case_prod_unfold put_block_def)

end

interpretation iso_src: sector_source ISO_ReadSector
proof unfold_locales
  show "ISO_SECTOR_SIZE \<le> length buf \<Longrightarrow> length (snd (ISO_ReadSector lba buf st)) = length buf" for buf lba st
    by (rule length_ReadSector)
  show "fst (ISO_ReadSector lba buf st) = fst (ISO_ReadSector lba buf' st)" for lba buf buf' st
    by (simp add: ISO_ReadSector_def Let_def split: option.split)
  show "take ISO_SECTOR_SIZE (snd (ISO_ReadSector lba buf st)) = take ISO_SECTOR_SIZE (snd (ISO_ReadSector lba buf' st))"
    if "0 \<le> fst (ISO_ReadSector lba buf st)" for lba buf buf' st
    using that by (auto simp: ISO_ReadSector_def Let_def put_block_def split: option.splits if_splits)
qed

lemma ISO_Open_loaded: "ISO_Open (Some f) st0 = (0, st) \<Longrightarrow> iso_loaded st"
  by (auto simp: ISO_Open_def Let_def split: if_splits)

text \<open>No stale byte of the data queue is delivered with a sector.\<close>

lemma fill_sector_fresh:
  assumes "length (data_fifo c) = DATA_FIFO_SIZE" "length (data_fifo c') = DATA_FIFO_SIZE" "cur_lba c = cur_lba c'"
  shows "take ISO_SECTOR_SIZE (cdrom_fill_sector im c) = take ISO_SECTOR_SIZE (cdrom_fill_sector im c')"
  using assms iso_src.filled_fresh [of "data_fifo c" "data_fifo c'"]
  by (simp add: cdrom_fill_sector_def iso_src.filled_def Let_def cdrom_sizes iso_sizes put_block_def)

text \<open>
  C30. Reading a disc. While the controller reads from a mounted image, with the seek over and no
  interrupt outstanding, a sector event puts the user data of the sector under the head (its absolute
  number less the 150 sectors of the pregap) into the data queue, where the DMA channel takes exactly
  these 2048 bytes; the head moves to the next sector, the data-ready response is queued, and the next
  sector event is scheduled one read period ahead, thirty after a change of location.
\<close>

theorem cdrom_delivers_sector:
  assumes "ISO_Open (Some f) st0 = (0, iso s)" "length f < 2 ^ 40" "cdrom_ok (cdrom s)"
    and "cd_reading (cdrom s)" "\<not> seek_pending (cdrom s)" "int_flag (cdrom s) = 0" "\<not> has_pending (cdrom s)"
    and "PREGAP_LBA \<le> cur_lba (cdrom s)" "cur_lba (cdrom s) - PREGAP_LBA < total_sectors (iso s)"
  shows "let c = cdrom s; s1 = run_CDROM_EventCallback late s; (bs, s2) = CDROM_ReadDataFIFO 2048 s1 in
     bs = user_data (iso s) f (unat (cur_lba c) - 150) \<and> length bs = 2048 \<and>
     cur_lba (cdrom s1) = cur_lba c + 1 \<and> has_deferred (cdrom s1) \<and> deferred_int (cdrom s1) = 1 \<and>
     fst (CDROM_ReadDataFIFO 2048 s2) = [] \<and>
     sched_pending s1 SCHED_EVENT_CDROM = Some (global_cycles s +
       ucast (if location_changed c then cdrom_read_delay c * 30 else cdrom_read_delay c), Some CDROM_EventCallback)"
proof -
  define c where "c = cdrom s"
  define n where "n = cur_lba c - PREGAP_LBA"
  have n: "unat n = unat (cur_lba c) - 150" using assms(8) by (simp add: n_def c_def unat_sub PREGAP_LBA_def)
  have buf: "length (data_fifo c) = 2352" using assms(3) by (simp add: cdrom_ok_def c_def cdrom_sizes)
  note rd = ISO_read_mounted_sector [OF assms(1,2), of "data_fifo c" n]
  have rd: "ISO_ReadSector n (data_fifo c) (iso s) = (0, user_data (iso s) f (unat n) @ drop ISO_SECTOR_SIZE (data_fifo c))"
    "unat n * sector_size (iso s) + data_offset (iso s) + ISO_SECTOR_SIZE \<le> length f"
    using rd buf assms(9) by (simp_all add: n_def c_def iso_sizes)
  then have len: "length (user_data (iso s) f (unat n)) = 2048" by (simp add: user_data_def iso_sizes)
  have "iso_loaded (iso s)" using assms(1) by (rule ISO_Open_loaded)
  then have fill: "cdrom_fill_sector (iso s) c = user_data (iso s) f (unat n) @ drop ISO_SECTOR_SIZE (data_fifo c)"
    using assms(8) rd(1) by (simp add: cdrom_fill_sector_def ISO_IsLoaded_def n_def c_def)
  show ?thesis
    using assms(4-7) len n fill unfolding Let_def c_def [symmetric]
    by (simp add: run_CDROM_EventCallback_def CDROM_ReadDataFIFO_def Let_def sched_pending_Sched_Add
        sched_event_defs iso_sizes cdrom_read_delay_def c_def)
qed


section \<open>Interrupt handling against its comments\<close>

text \<open>
  Unmasking does not deliver. The activation callback marks the interrupt active even while its code
  is masked, and says that the write that unmasks it will fire it; but that write fires only if the
  interrupt is not yet active. So after an activation under a mask, enabling every code leaves the
  processor, and with it line 2, exactly as it was.
\<close>

theorem cdrom_unmask_does_not_fire:
  assumes "cd_index (cdrom s) = 1" "\<not> bit (int_enable (cdrom s)) (unat (int_flag (cdrom s)) - 1)"
  shows "let s1 = run_CDROM_DeferredIRQActivate late s; s2 = CDROM_Write 0x1F801802 0x1F s1 in
     cpu s2 = cpu s \<and> int_enable (cdrom s2) = 0x1F \<and> int_flag (cdrom s2) = int_flag (cdrom s)"
  using assms by (simp add: run_CDROM_DeferredIRQActivate_def cdrom_irq_should_signal_def CDROM_Write_def Let_def)

text \<open>
  A sector overtakes a response. A sector event looks at the interrupt code and at the pending
  response, but not at a first response that is queued and not yet delivered; the data-ready response
  it queues replaces that one, whose interrupt and bytes the processor never sees.
\<close>

theorem cdrom_sector_replaces_response:
  assumes "cd_reading (cdrom s)" "\<not> seek_pending (cdrom s)" "int_flag (cdrom s) = 0" "\<not> has_pending (cdrom s)"
    and "has_deferred (cdrom s)" "deferred_int (cdrom s) = 3" "cdrom_ok (cdrom s)"
  shows "let s1 = run_CDROM_EventCallback late s; s2 = run_CDROM_DeferredCallback late' s1 in
     int_flag (cdrom s2) = 1 \<and> response_count (cdrom s2) = 1 \<and>
     response_fifo (cdrom s2) ! 0 = cd_stat (cdrom s) \<and> \<not> has_deferred (cdrom s2)"
  using assms
  by (cases "response_fifo (cdrom s)")
    (simp_all add: run_CDROM_EventCallback_def run_CDROM_DeferredCallback_def cdrom_deliver_deferred_def Let_def
      cdrom_sizes put_block_def cdrom_ok_def)

text \<open>The machine with a small disc mounted, and the controller as the instances need it.\<close>

definition cmachine_with :: "'a \<Rightarrow> 'a cmachine_scheme" where
  "cmachine_with x = smachine_with \<lparr>cdrom = cdrom_reset, cdrom_irq_active = False, iso = iso_tiny, \<dots> = x\<rparr>"

definition cd_machine :: "cdrom_state \<Rightarrow> cmachine" where
  "cd_machine c = (cmachine_with ())\<lparr>cdrom := c\<rparr>"

lemma cd_machine_simps [simp]:
  "cdrom (cd_machine c) = c" "iso (cd_machine c) = iso_tiny" "global_cycles (cd_machine c) = 0"
  by (simp_all add: cd_machine_def cmachine_with_def smachine_with_def tmachine_with_def)

lemma cdrom_reset_ok: "cdrom_ok cdrom_reset"
  by (simp add: cdrom_ok_def cdrom_reset_def)

theorem cdrom_ok_preserved_witness:
  "cdrom_ok (cdrom (CDROM_Write 0x1F801801 0x1A (cd_machine cdrom_reset)))"
  using cdrom_ok_preserved [of "cd_machine cdrom_reset" "0x1F801801" "0x1A"] cdrom_reset_ok by simp


definition cd_waiting :: cdrom_state where
  "cd_waiting = cdrom_reset\<lparr>cd_index := 1, int_flag := 3, has_pending := True, pending_int := 2, pending_count := 1\<rparr>"

theorem cdrom_second_response_witness:
  "int_flag (cdrom (CDROM_Write 0x1F801803 (ucast (0x07 :: u8)) (cd_machine cd_waiting))) = 0 \<and>
   int_flag (cdrom (run_CDROM_PendingCallback 0
     (CDROM_Write 0x1F801803 (ucast (0x07 :: u8)) (cd_machine cd_waiting)))) = 2"
proof -
  have "cdrom_ok cd_waiting" "has_pending cd_waiting" "int_flag cd_waiting \<noteq> 0" "cd_index cd_waiting = 1"
    "pending_int cd_waiting = 2"
    by (simp_all add: cd_waiting_def cdrom_ok_def cdrom_reset_def cdrom_sizes)
  then show ?thesis
    using cdrom_second_response [of "cd_machine cd_waiting" "0x07" 0] by (simp add: Let_def)
qed

definition cd_on_sector :: cdrom_state where
  "cd_on_sector = cdrom_reset\<lparr>cd_reading := True, cur_lba := 150\<rparr>"

theorem cdrom_delivers_sector_witness:
  "fst (CDROM_ReadDataFIFO 2048 (run_CDROM_EventCallback 0 (cd_machine cd_on_sector))) =
     user_data iso_tiny (replicate 2048 7) 0"
proof -
  have "ISO_Open (Some (replicate 2048 7)) iso_unmounted = (0, iso_tiny)"
    by (simp add: ISO_Open_def iso_tiny_def iso_sizes Let_def)
  moreover have "cdrom_ok cd_on_sector" using cdrom_reset_ok by (simp add: cd_on_sector_def cdrom_ok_def)
  ultimately show ?thesis
    using cdrom_delivers_sector [of "replicate 2048 7" iso_unmounted "cd_machine cd_on_sector" 0]
    by (simp add: Let_def case_prod_unfold cd_on_sector_def cdrom_reset_def PREGAP_LBA_def iso_tiny_def)
qed

theorem cdrom_unmask_does_not_fire_witness:
  "cpu (CDROM_Write 0x1F801802 0x1F (run_CDROM_DeferredIRQActivate 0 (cd_machine cd_waiting))) =
   cpu (cd_machine cd_waiting)"
  using cdrom_unmask_does_not_fire [of "cd_machine cd_waiting" 0]
  by (simp add: Let_def cd_waiting_def cdrom_reset_def)

theorem cdrom_sector_replaces_response_witness:
  "int_flag (cdrom (run_CDROM_DeferredCallback 0 (run_CDROM_EventCallback 0
     (cd_machine (cd_on_sector\<lparr>has_deferred := True, deferred_int := 3\<rparr>))))) = 1"
proof -
  have "cdrom_ok (cd_on_sector\<lparr>has_deferred := True, deferred_int := 3\<rparr>)"
    using cdrom_reset_ok by (simp add: cd_on_sector_def cdrom_ok_def)
  then show ?thesis
    using cdrom_sector_replaces_response [of "cd_machine (cd_on_sector\<lparr>has_deferred := True, deferred_int := 3\<rparr>)" 0 0]
    by (simp add: Let_def cd_on_sector_def cdrom_reset_def)
qed

end
