(* ===== verification/Dma.thy ===== *)
theory Dma
  imports Cdrom
begin

text \<open>
  The DMA controller of \<^verbatim>\<open>src/dma.c\<close>: seven channels with address, block and control
  registers, the priority register, the interrupt register, the CD-ROM and ordering-table transfers and
  the deferred completion of sound transfers.  The transfers of the video, graphics and sound
  processors are fields of a parameter record \<open>devices\<close>, as are those processors' registers, which the
  bus theory uses.  The page generation counters of the recompiler (\<^verbatim>\<open>src/dynarec.h\<close>) are
  state here because every write to main memory bumps them.

  A transfer may fail to return (the invalidation loop of the CD-ROM channel steps a 32-bit offset past
  its bound), so \<open>DMA_Write\<close> yields an option; \<open>None\<close> is a loop without end.

  Shown here: the master bit of the interrupt register is always the function of the other bits that its
  comment states; the ordering table is a linked list from the start address down to the end mark; the
  CD-ROM channel stores the bytes taken from the drive, inside main memory, and touches the generation of
  every page written; the sound channel completes exactly when its deadline is reached, whichever of
  polling and the event comes first; and the block count for which the CD-ROM channel never returns.
\<close>

section \<open>State\<close>

record DmaChannel =
  madr :: u32
  bcr :: u32
  chcr :: u32

record dma_globals =
  dma_channels :: "nat \<Rightarrow> DmaChannel"
  dma_dpcr :: u32
  dma_dicr :: u32
  dma_pending_channel :: int
  dma_pending_deadline :: u64

definition dma_init :: dma_globals where
  "dma_init = \<lparr>dma_channels = (\<lambda>_. \<lparr>madr = 0, bcr = 0, chcr = 0\<rparr>), dma_dpcr = 0x07654321, dma_dicr = 0,
     dma_pending_channel = - 1, dma_pending_deadline = 0\<rparr>"

record dmachine = cmachine +
  dma :: dma_globals
  jit_l1_ram :: "u32 \<Rightarrow> bool"
  jit_page_gen :: "u32 \<Rightarrow> u8"

text \<open>
  The processors that are not modelled, over the state \<open>'s\<close>: their transfers, and their registers. A
  transfer of the graphics channel says whether it stalled.
\<close>

record 's devices =
  MDEC_DMA0 :: "u32 \<Rightarrow> u32 \<Rightarrow> u32 \<Rightarrow> 's \<Rightarrow> 's"
  MDEC_DMA1 :: "u32 \<Rightarrow> u32 \<Rightarrow> u32 \<Rightarrow> 's \<Rightarrow> 's"
  GPU_DMA2 :: "u32 \<Rightarrow> u32 \<Rightarrow> u32 \<Rightarrow> 's \<Rightarrow> bool \<times> 's"
  SPU_DMA4 :: "u32 \<Rightarrow> u32 \<Rightarrow> u32 \<Rightarrow> 's \<Rightarrow> 's"
  GPU_Read :: "'s \<Rightarrow> u32 \<times> 's"
  GPU_ReadStatus :: "'s \<Rightarrow> u32 \<times> 's"
  GPU_WriteGP0 :: "u32 \<Rightarrow> 's \<Rightarrow> 's"
  GPU_WriteGP1 :: "u32 \<Rightarrow> 's \<Rightarrow> 's"
  MDEC_ReadData :: "'s \<Rightarrow> u32 \<times> 's"
  MDEC_ReadStatus :: "'s \<Rightarrow> u32 \<times> 's"
  MDEC_WriteCommand :: "u32 \<Rightarrow> 's \<Rightarrow> 's"
  MDEC_WriteControl :: "u32 \<Rightarrow> 's \<Rightarrow> 's"
  SPU_ReadReg :: "u32 \<Rightarrow> 's \<Rightarrow> u16 \<times> 's"
  SPU_WriteReg :: "u32 \<Rightarrow> u16 \<Rightarrow> 's \<Rightarrow> 's"

definition PSX_RAM_SIZE :: u32 where "PSX_RAM_SIZE = 0x200000"
definition JIT_L1_RAM_PAGES :: u32 where "JIT_L1_RAM_PAGES = 512"
definition SPU_DMA_CYCLES_PER_WORD :: u64 where "SPU_DMA_CYCLES_PER_WORD = 8"

definition upd_dma :: "(dma_globals \<Rightarrow> dma_globals) \<Rightarrow> 'a dmachine_scheme \<Rightarrow> 'a dmachine_scheme" where
  "upd_dma f s = s\<lparr>dma := f (dma s)\<rparr>"

definition set_channel :: "nat \<Rightarrow> (DmaChannel \<Rightarrow> DmaChannel) \<Rightarrow> dma_globals \<Rightarrow> dma_globals" where
  "set_channel ch f g = g\<lparr>dma_channels := (dma_channels g)(ch := f (dma_channels g ch))\<rparr>"

section \<open>Writes to main memory\<close>

definition jit_invalidate_page :: "u32 \<Rightarrow> 'a dmachine_scheme \<Rightarrow> 'a dmachine_scheme" where
  "jit_invalidate_page phys_addr s =
     (let page = drop_bit 12 phys_addr
      in if page < JIT_L1_RAM_PAGES \<and> jit_l1_ram s page
         then s\<lparr>jit_page_gen := (jit_page_gen s)(page := jit_page_gen s page + 1)\<rparr> else s)"

definition jit_get_page_gen :: "u32 \<Rightarrow> 'a dmachine_scheme \<Rightarrow> u8" where
  "jit_get_page_gen phys_addr s =
     (let page = drop_bit 12 phys_addr in if page < JIT_L1_RAM_PAGES then jit_page_gen s page else 0)"

text \<open>
  \<^verbatim>\<open>WriteWord\<close> at an aligned address of main memory, the only kind the ordering-table transfer
  uses: ignored while the cache is isolated, unless the address is uncached.
\<close>

definition cache_isolated :: "u32 \<Rightarrow> 'a core_scheme \<Rightarrow> bool" where
  "cache_isolated addr s \<longleftrightarrow> cop0 (cpu s) PSX_COP0_SR AND 0x10000 \<noteq> 0 \<and> addr AND 0xE0000000 \<noteq> 0xA0000000"

definition RAM_WriteWord :: "u32 \<Rightarrow> u32 \<Rightarrow> 'a dmachine_scheme \<Rightarrow> 'a dmachine_scheme" where
  "RAM_WriteWord addr data s =
     (if cache_isolated addr s then s
      else let phys = addr AND 0x1FFFFFFF
           in jit_invalidate_page phys (s\<lparr>psx_ram := store32 (psx_ram s) phys data\<rparr>))"

fun store_bytes :: "bytes \<Rightarrow> u32 \<Rightarrow> u8 list \<Rightarrow> bytes" where
  "store_bytes m a [] = m"
| "store_bytes m a (b # bs) = store_bytes (m(a := b)) (a + 1) bs"

section \<open>Completion\<close>

definition dma_raise_flag :: "nat \<Rightarrow> 'a dmachine_scheme \<Rightarrow> 'a dmachine_scheme" where
  "dma_raise_flag ch s =
     (if dma_dicr (dma s) AND push_bit (16 + ch) 1 \<noteq> 0
      then let d = dma_dicr (dma s) OR push_bit (24 + ch) 1
           in if d AND 0x00800000 \<noteq> 0
              then SignalInterrupt 3 (upd_dma (\<lambda>g. g\<lparr>dma_dicr := d OR 0x80000000\<rparr>) s)
              else upd_dma (\<lambda>g. g\<lparr>dma_dicr := d\<rparr>) s
      else s)"

definition dma_complete_channel :: "nat \<Rightarrow> 'a dmachine_scheme \<Rightarrow> 'a dmachine_scheme" where
  "dma_complete_channel ch s =
     dma_raise_flag ch (upd_dma (set_channel ch (\<lambda>c. c\<lparr>chcr := chcr c AND NOT 0x01000000\<rparr>)) s)"

definition run_DMA_FireCompletion :: "int \<Rightarrow> 'a dmachine_scheme \<Rightarrow> 'a dmachine_scheme" where
  "run_DMA_FireCompletion ticks_late s =
     (let ch = dma_pending_channel (dma s);
          s1 = (if ch \<ge> 0 \<and> ch < 7 then dma_complete_channel (nat ch) s else s)
      in upd_dma (\<lambda>g. g\<lparr>dma_pending_channel := - 1\<rparr>) s1)"

text \<open>\<^verbatim>\<open>DMA_EFFECTIVE_CYCLES\<close> is the expression of the timers' \<open>EFFECTIVE_CYCLES\<close>.\<close>

definition dma_check_pending :: "'a dmachine_scheme \<Rightarrow> 'a dmachine_scheme" where
  "dma_check_pending s =
     (if dma_pending_channel (dma s) \<ge> 0 \<and> EFFECTIVE_CYCLES s \<ge> dma_pending_deadline (dma s)
      then let ch = nat (dma_pending_channel (dma s))
           in dma_complete_channel ch
                (Sched_Remove SCHED_EVENT_DMA (upd_dma (\<lambda>g. g\<lparr>dma_pending_channel := - 1\<rparr>) s))
      else s)"

definition DMA_IsPending :: "'a dmachine_scheme \<Rightarrow> bool" where
  "DMA_IsPending s \<longleftrightarrow> dma_pending_channel (dma s) \<ge> 0"

section \<open>Transfers\<close>

definition dma3_bytes :: "u32 \<Rightarrow> u32 \<Rightarrow> u32" where
  "dma3_bytes bcr_v phys_addr =
     (let size = bcr_v AND 0xFFFF; count = drop_bit 16 bcr_v AND 0xFFFF;
          block_count = (if count = 0 then 1 else count); block_size_words = (if size = 0 then 1 else size);
          total_bytes = block_size_words * block_count * 4
      in if phys_addr + total_bytes > PSX_RAM_SIZE then PSX_RAM_SIZE - phys_addr else total_bytes)"

partial_function (option) dma3_invalidate ::
  "u32 \<Rightarrow> u32 \<Rightarrow> u32 \<Rightarrow> 'a dmachine_scheme \<Rightarrow> 'a dmachine_scheme option" where
  [code]: "dma3_invalidate phys_addr total_bytes off s =
     (if off < total_bytes
      then dma3_invalidate phys_addr total_bytes (off + 4096) (jit_invalidate_page (phys_addr + off) s)
      else Some s)"

definition CDROM_DMA3 :: "u32 \<Rightarrow> u32 \<Rightarrow> 'a dmachine_scheme \<Rightarrow> 'a dmachine_scheme option" where
  "CDROM_DMA3 madr_v bcr_v s =
     (let phys_addr = madr_v AND 0x1FFFFC; total_bytes = dma3_bytes bcr_v phys_addr;
          (bs, s1) = CDROM_ReadDataFIFO total_bytes s;
          s2 = s1\<lparr>psx_ram := store_bytes (psx_ram s1) phys_addr bs\<rparr>
      in map_option (\<lambda>s3. if total_bytes > 0 then jit_invalidate_page (phys_addr + total_bytes - 1) s3 else s3)
           (dma3_invalidate phys_addr total_bytes 0 s2))"

text \<open>The loop of the ordering table; the first argument is \<^verbatim>\<open>length\<close>.\<close>

fun dma6_loop :: "nat \<Rightarrow> u32 \<Rightarrow> 'a dmachine_scheme \<Rightarrow> u32 \<times> 'a dmachine_scheme" where
  "dma6_loop 0 addr s = (addr, s)"
| "dma6_loop (Suc n) addr s =
     (let next_addr = (addr - 4) AND 0x1FFFFC in dma6_loop n next_addr (RAM_WriteWord addr next_addr s))"

definition GPU_DMA6 :: "u32 \<Rightarrow> u32 \<Rightarrow> 'a dmachine_scheme \<Rightarrow> 'a dmachine_scheme" where
  "GPU_DMA6 madr_v bcr_v s =
     (let (addr, s1) = dma6_loop (unat (if bcr_v = 0 then 0x10000 else bcr_v)) (madr_v AND 0x1FFFFC) s
      in RAM_WriteWord ((addr + 4) AND 0x1FFFFC) 0xFFFFFF s1)"

text \<open>The transfer of a channel: whether it stalled, and the state after it, if it returns.\<close>

definition dma_transfer ::
  "'a dmachine_scheme devices \<Rightarrow> nat \<Rightarrow> 'a dmachine_scheme \<Rightarrow> (bool \<times> 'a dmachine_scheme) option" where
  "dma_transfer d ch s =
     (let c = dma_channels (dma s) ch; go = (\<lambda>f. Some (False, f (madr c) (bcr c) (chcr c) s))
      in if ch = 0 then go (MDEC_DMA0 d) else if ch = 1 then go (MDEC_DMA1 d)
         else if ch = 2 then Some (GPU_DMA2 d (madr c) (bcr c) (chcr c) s)
         else if ch = 3 then map_option (Pair False) (CDROM_DMA3 (madr c) (bcr c) s)
         else if ch = 4 then go (SPU_DMA4 d)
         else if ch = 6 then Some (False, GPU_DMA6 (madr c) (bcr c) s)
         else Some (False, s))"

definition dma_defer :: "nat \<Rightarrow> 'a dmachine_scheme \<Rightarrow> 'a dmachine_scheme" where
  "dma_defer ch s =
     (let b = bcr (dma_channels (dma s) ch); size = b AND 0xFFFF; count = drop_bit 16 b AND 0xFFFF;
          block_size = (if size = 0 then 1 else size); block_count = (if count = 0 then 1 else count);
          total_words = block_size * block_count;
          delay = ucast total_words * SPU_DMA_CYCLES_PER_WORD;
          delay_cycles = (if delay < 32 then 32 else delay)
      in Sched_Add SCHED_EVENT_DMA (global_cycles s + delay_cycles) DMA_FireCompletion
           (upd_dma (\<lambda>g. g\<lparr>dma_pending_channel := int ch,
              dma_pending_deadline := EFFECTIVE_CYCLES s + delay_cycles\<rparr>) s))"

text \<open>After the transfer: deferred, stalled, or finished at once.\<close>

definition dma_finish :: "nat \<Rightarrow> bool \<Rightarrow> 'a dmachine_scheme \<Rightarrow> 'a dmachine_scheme" where
  "dma_finish ch dma_stalled s =
     (if ch = 4 then dma_defer ch s
      else if dma_stalled then s
      else dma_raise_flag ch (upd_dma (set_channel ch (\<lambda>c. c\<lparr>chcr := chcr c AND NOT 0x11000000\<rparr>)) s))"

section \<open>Registers\<close>

definition dma_master_bit :: "u32 \<Rightarrow> bool" where
  "dma_master_bit d \<longleftrightarrow>
     (let force = drop_bit 15 d AND 1; master_en = drop_bit 23 d AND 1;
          en = drop_bit 16 d AND 0x7F; flg = drop_bit 24 d AND 0x7F
      in force \<noteq> 0 \<or> (master_en \<noteq> 0 \<and> en AND flg \<noteq> 0))"

definition DMA_Read :: "u32 \<Rightarrow> 'a dmachine_scheme \<Rightarrow> u32 \<times> 'a dmachine_scheme" where
  "DMA_Read addr s =
     (let phys = addr AND 0x1FFFFFFF; ch = unat ((phys - 0x1F801080) div 0x10);
          reg = unat (((phys - 0x1F801080) mod 0x10) div 4); c = dma_channels (dma s) ch; g = dma s
      in if phys \<ge> 0x1F801080 \<and> phys < 0x1F801100 \<and> ch < 7
         then (if reg = 0 then (madr c, s)
               else if reg = 1 then (bcr c, s)
               else if reg = 2
               then if ch = 6 then ((chcr c AND 0x51000000) OR 2, s)
                    else let s1 = (if int ch = dma_pending_channel g then dma_check_pending s else s)
                         in (chcr (dma_channels (dma s1) ch), s1)
               else (0, s))
         else if phys = 0x1F8010F0 then (dma_dpcr g, s)
         else if phys = 0x1F8010F4
         then let read_val = (dma_dicr g AND 0x7F000000) OR (dma_dicr g AND 0x00FF803F)
              in (if dma_master_bit (dma_dicr g) then read_val OR 0x80000000 else read_val, s)
         else (0, s))"

text \<open>A write to a control register, after the register itself has been set.\<close>

definition dma_start :: "'a dmachine_scheme devices \<Rightarrow> nat \<Rightarrow> u32 \<Rightarrow> 'a dmachine_scheme \<Rightarrow> 'a dmachine_scheme option" where
  "dma_start d ch data s =
     (let c = dma_channels (dma s) ch
      in if data AND 0x01000000 = 0 then Some s
         else if drop_bit (ch * 4 + 3) (dma_dpcr (dma s)) AND 1 = 0 then Some s
         else if ch = 6 \<and> drop_bit 9 (chcr c) AND 3 = 0 \<and> chcr c AND 0x10000000 = 0
         then Some (upd_dma (set_channel ch (\<lambda>c. c\<lparr>chcr := chcr c AND NOT 0x01000000\<rparr>)) s)
         else map_option (\<lambda>(stalled, s1). dma_finish ch stalled s1) (dma_transfer d ch s))"

definition dma_write_dicr :: "u32 \<Rightarrow> 'a dmachine_scheme \<Rightarrow> 'a dmachine_scheme" where
  "dma_write_dicr data s =
     (let old = dma_dicr (dma s); ack_bits = data AND 0x7F000000; old_master = old AND 0x80000000;
          d0 = (data AND 0x00FF803F) OR ((old AND 0x7F000000) AND NOT ack_bits);
          d1 = (if dma_master_bit d0 then d0 OR 0x80000000 else d0);
          s1 = upd_dma (\<lambda>g. g\<lparr>dma_dicr := d1\<rparr>) s
      in if old_master = 0 \<and> d1 AND 0x80000000 \<noteq> 0 then SignalInterrupt 3 s1 else s1)"

definition DMA_Write ::
  "'a dmachine_scheme devices \<Rightarrow> u32 \<Rightarrow> u32 \<Rightarrow> 'a dmachine_scheme \<Rightarrow> 'a dmachine_scheme option" where
  "DMA_Write d addr data s =
     (let phys = addr AND 0x1FFFFFFF; ch = unat ((phys - 0x1F801080) div 0x10);
          reg = unat (((phys - 0x1F801080) mod 0x10) div 4)
      in if phys \<ge> 0x1F801080 \<and> phys < 0x1F8010F0
         then if reg = 0 then Some (upd_dma (set_channel ch (\<lambda>c. c\<lparr>madr := data AND 0x00FFFFFF\<rparr>)) s)
              else if reg = 1 then Some (upd_dma (set_channel ch (\<lambda>c. c\<lparr>bcr := data\<rparr>)) s)
              else if reg = 2
              then dma_start d ch data
                     (upd_dma (set_channel ch (\<lambda>c. c\<lparr>chcr := if ch = 6 then (data AND 0x51000000) OR 2 else data\<rparr>)) s)
              else Some s
         else if phys = 0x1F8010F0 then Some (upd_dma (\<lambda>g. g\<lparr>dma_dpcr := data\<rparr>) s)
         else if phys = 0x1F8010F4 then Some (dma_write_dicr data s)
         else Some s)"

section \<open>Frames\<close>

lemma upd_dma_simps [simp]:
  "dma (upd_dma f s) = f (dma s)" "cpu (upd_dma f s) = cpu s" "psx_ram (upd_dma f s) = psx_ram s"
  "global_cycles (upd_dma f s) = global_cycles s" "EFFECTIVE_CYCLES (upd_dma f s) = EFFECTIVE_CYCLES s"
  "sched_pending (upd_dma f s) = sched_pending s" "cdrom (upd_dma f s) = cdrom s"
  by (simp_all add: upd_dma_def EFFECTIVE_CYCLES_def fun_eq_iff sched_pending_def)

lemma set_channel_simps [simp]:
  "dma_dicr (set_channel ch f g) = dma_dicr g" "dma_dpcr (set_channel ch f g) = dma_dpcr g"
  "dma_pending_channel (set_channel ch f g) = dma_pending_channel g"
  "dma_pending_deadline (set_channel ch f g) = dma_pending_deadline g"
  "dma_channels (set_channel ch f g) i = (if i = ch then f (dma_channels g ch) else dma_channels g i)"
  by (simp_all add: set_channel_def)

lemma dma_frames [simp]:
  "dma (Sched_Add e t cb s) = dma s" "dma (Sched_Remove e s) = dma s" "dma (SignalInterrupt i s) = dma s"
  "dma (jit_invalidate_page a s) = dma s" "dma (RAM_WriteWord a v s) = dma s"
  by (simp_all add: Sched_Add_def Sched_Remove_def sched_recompute_cached_def Let_def case_prod_unfold
      SignalInterrupt_def update_irq_pending_def cap_cycles_for_irq_def jit_invalidate_page_def
      RAM_WriteWord_def)

lemma dma_ReadDataFIFO [simp]: "dma (snd (CDROM_ReadDataFIFO n s)) = dma s"
  by (simp add: CDROM_ReadDataFIFO_def Let_def)

section \<open>The interrupt register\<close>

definition dicr_ok :: "u32 \<Rightarrow> bool" where
  "dicr_ok d \<longleftrightarrow> (\<forall>n \<in> {6..14}. \<not> bit d n) \<and>
     (bit d 31 \<longleftrightarrow> bit d 15 \<or> bit d 23 \<and> (\<exists>i<7. bit d (16 + i) \<and> bit d (24 + i)))"

lemma dma_master_bit_iff:
  "dma_master_bit d \<longleftrightarrow> bit d 15 \<or> bit d 23 \<and> (\<exists>i<7. bit d (16 + i) \<and> bit d (24 + i))"
proof -
  have seven: "(0x7F :: u32) = mask 7" by (simp add: mask_eq_exp_minus_1)
  have "w \<noteq> 0 \<longleftrightarrow> (\<exists>i. bit w i)" for w :: u32
    using bit_word_eqI [of w 0] by auto
  then have "(drop_bit 16 d AND 0x7F) AND (drop_bit 24 d AND 0x7F) \<noteq> 0 \<longleftrightarrow>
    (\<exists>i<7. bit d (16 + i) \<and> bit d (24 + i))"
    unfolding seven by (auto simp: bit_simps)
  then show ?thesis by (simp only: dma_master_bit_def Let_def drop_bit_and_1)
qed

lemma dma_raise_flag_simps [simp]:
  "dma_channels (dma (dma_raise_flag ch s)) = dma_channels (dma s)"
  "dma_pending_channel (dma (dma_raise_flag ch s)) = dma_pending_channel (dma s)"
  "dma_pending_deadline (dma (dma_raise_flag ch s)) = dma_pending_deadline (dma s)"
  "psx_ram (dma_raise_flag ch s) = psx_ram s"
  by (simp_all add: dma_raise_flag_def Let_def frame_simps)

lemma bit_dicr_masks:
  "bit (0x80000000 :: u32) n \<longleftrightarrow> n = 31" "bit (0x7F000000 :: u32) n \<longleftrightarrow> n \<in> {24..30}"
  "bit (0x00FF803F :: u32) n \<longleftrightarrow> n < 6 \<or> n \<in> {15..23}"
proof -
  have m: "(0x80000000 :: u32) = push_bit 31 1" "(0x7F000000 :: u32) = push_bit 24 (mask 7)"
    "(0x00FF803F :: u32) = push_bit 15 (mask 9) OR mask 6" by (simp_all add: mask_eq_exp_minus_1)
  show "bit (0x80000000 :: u32) n \<longleftrightarrow> n = 31" "bit (0x7F000000 :: u32) n \<longleftrightarrow> n \<in> {24..30}"
    "bit (0x00FF803F :: u32) n \<longleftrightarrow> n < 6 \<or> n \<in> {15..23}"
    unfolding m by (auto simp only: bit_push_bit_iff bit_mask_iff bit_or_iff bit_1_iff possible_bit_word) auto
qed

lemma dma_dicr_raise_flag:
  assumes "ch < 7"
  shows "bit (dma_dicr (dma (dma_raise_flag ch s))) n \<longleftrightarrow> bit (dma_dicr (dma s)) n \<or>
     bit (dma_dicr (dma s)) (16 + ch) \<and> (n = 24 + ch \<or> n = 31 \<and> bit (dma_dicr (dma s)) 23)"
proof -
  have m: "(w :: u32) AND push_bit k 1 \<noteq> 0 \<longleftrightarrow> bit w k" for w k
    by (simp add: push_bit_eq_mult and_exp_iff_bit)
  then show ?thesis using assms
    by (auto simp: dma_raise_flag_def Let_def mask_simps bit_or_iff bit_push_bit_iff bit_1_iff bit_exp_iff possible_bit_word bit_dicr_masks simp del: bit_numeral_word_iff)
qed

lemma dicr_ok_raise_flag:
  assumes "dicr_ok (dma_dicr (dma s))" "ch < 7"
  shows "dicr_ok (dma_dicr (dma (dma_raise_flag ch s)))"
  using assms(1) unfolding dicr_ok_def dma_dicr_raise_flag [OF assms(2)] using assms(2) by auto

lemma dicr_ok_write: "dicr_ok (dma_dicr (dma (dma_write_dicr data s)))"
proof -
  define d0 where "d0 = (data AND 0x00FF803F) OR ((dma_dicr (dma s) AND 0x7F000000) AND NOT (data AND 0x7F000000))"
  have "dma_dicr (dma (dma_write_dicr data s)) = (if dma_master_bit d0 then d0 OR 0x80000000 else d0)"
    by (simp add: dma_write_dicr_def Let_def d0_def)
  moreover have "\<not> bit d0 n" if "n \<in> {6..14} \<or> n = 31" for n
    using that by (auto simp: d0_def bit_or_iff bit_and_iff bit_dicr_masks simp del: bit_numeral_word_iff)
  ultimately show ?thesis
    by (auto simp: dicr_ok_def dma_master_bit_iff bit_or_iff bit_dicr_masks simp del: bit_numeral_word_iff)
qed

text \<open>
  What the invariant says of the registers: unused bits of the interrupt register are clear and its master
  bit is what the others make it; base addresses have 24 bits; the only deferred channel is the sound
  channel.
\<close>

definition dma_ok :: "dma_globals \<Rightarrow> bool" where
  "dma_ok g \<longleftrightarrow> dicr_ok (dma_dicr g) \<and> (\<forall>ch. madr (dma_channels g ch) \<le> 0xFFFFFF) \<and>
     (dma_pending_channel g = - 1 \<or> dma_pending_channel g = 4)"

lemma dma_ok_chcr [simp]:
  "dma_ok (set_channel ch (\<lambda>c. c\<lparr>chcr := f c\<rparr>) g) = dma_ok g"
  "dma_ok (set_channel ch (\<lambda>c. c\<lparr>bcr := h c\<rparr>) g) = dma_ok g"
  by (auto simp: dma_ok_def)

lemma dma_ok_raise_flag: "dma_ok (dma s) \<Longrightarrow> ch < 7 \<Longrightarrow> dma_ok (dma (dma_raise_flag ch s))"
  using dicr_ok_raise_flag by (auto simp: dma_ok_def)

lemma dma_ok_complete: "dma_ok (dma s) \<Longrightarrow> ch < 7 \<Longrightarrow> dma_ok (dma (dma_complete_channel ch s))"
  by (simp add: dma_complete_channel_def dma_ok_raise_flag)

lemma dma_ok_pending [simp]: "dma_ok g \<Longrightarrow> dma_ok (g\<lparr>dma_pending_channel := - 1\<rparr>)"
  by (simp add: dma_ok_def)

lemma dma_ok_check: "dma_ok (dma s) \<Longrightarrow> dma_ok (dma (dma_check_pending s))"
  by (simp add: dma_check_pending_def Let_def, intro impI dma_ok_complete) (auto simp: dma_ok_def)

lemma dma_ok_fire: "dma_ok (dma s) \<Longrightarrow> dma_ok (dma (run_DMA_FireCompletion late s))"
  by (simp add: run_DMA_FireCompletion_def Let_def, intro impI dma_ok_pending dma_ok_complete) auto

text \<open>The part \<open>f\<close> of the state is out of reach of every operation of the parameter record.\<close>

definition devices_keep :: "('s \<Rightarrow> 'v) \<Rightarrow> 's devices \<Rightarrow> bool" where
  "devices_keep f d \<longleftrightarrow>
     (\<forall>m b c s. f (MDEC_DMA0 d m b c s) = f s \<and> f (MDEC_DMA1 d m b c s) = f s \<and>
        f (snd (GPU_DMA2 d m b c s)) = f s \<and> f (SPU_DMA4 d m b c s) = f s) \<and>
     (\<forall>s. f (snd (GPU_Read d s)) = f s \<and> f (snd (GPU_ReadStatus d s)) = f s \<and>
        f (snd (MDEC_ReadData d s)) = f s \<and> f (snd (MDEC_ReadStatus d s)) = f s) \<and>
     (\<forall>v s. f (GPU_WriteGP0 d v s) = f s \<and> f (GPU_WriteGP1 d v s) = f s \<and>
        f (MDEC_WriteCommand d v s) = f s \<and> f (MDEC_WriteControl d v s) = f s) \<and>
     (\<forall>r s. f (snd (SPU_ReadReg d r s)) = f s) \<and> (\<forall>r v s. f (SPU_WriteReg d r v s) = f s)"

lemma dma3_invalidate_keeps:
  assumes "\<And>a t. f (jit_invalidate_page a t) = f t"
  shows "dma3_invalidate phys n off s = Some t \<Longrightarrow> f t = f s"
  by (erule dma3_invalidate.raw_induct [where P = "\<lambda>_ _ _ s t. f t = f s", rotated])
    (fastforce simp: assms split: if_splits)

lemma dma6_loop_keeps:
  assumes "\<And>a v t. f (RAM_WriteWord a v t) = f t"
  shows "f (snd (dma6_loop n a s)) = f s"
  by (induction n a s rule: dma6_loop.induct) (simp_all add: assms Let_def)

lemma dma_transfer_dma:
  assumes "devices_keep dma d" "dma_transfer d ch s = Some (b, t)"
  shows "dma t = dma s"
proof -
  have "dma (GPU_DMA6 m c s) = dma s" for m c
    by (simp add: GPU_DMA6_def Let_def case_prod_unfold dma6_loop_keeps [of dma])
  moreover have "dma u = dma s" if "CDROM_DMA3 m c s = Some u" for m c u
    using that by (auto simp: CDROM_DMA3_def Let_def case_prod_unfold split: if_splits
        dest!: dma3_invalidate_keeps [of dma, OF dma_frames(4)])
  ultimately show ?thesis using assms
    by (auto simp: dma_transfer_def devices_keep_def Let_def split: if_splits) (metis snd_conv)
qed

lemma dma_ok_start:
  assumes "devices_keep dma d" "dma_ok (dma s)" "ch < 7" "dma_start d ch data s = Some t"
  shows "dma_ok (dma t)"
proof -
  have "dma_ok (dma (dma_finish ch b u))" if "dma u = dma s" for b u
    using assms(2,3) that by (auto simp: dma_finish_def dma_defer_def Let_def intro!: dma_ok_raise_flag)
      (auto simp: dma_ok_def)
  then show ?thesis
    using assms(2,4) by (auto simp: dma_start_def Let_def split: if_splits dest!: dma_transfer_dma [OF assms(1)])
qed

lemma dma_channel_index: "(a :: u32) < 0x1F8010F0 \<Longrightarrow> 0x1F801080 \<le> a \<Longrightarrow> unat ((a - 0x1F801080) div 0x10) < 7"
proof -
  assume a: "a < 0x1F8010F0" "0x1F801080 \<le> a"
  have "unat (a - 0x1F801080) = unat a - 0x1F801080" using unat_sub [OF a(2)] by simp
  moreover have "unat a < 0x1F8010F0" "0x1F801080 \<le> unat a" using a by (simp_all add: word_less_nat_alt word_le_nat_alt)
  ultimately show ?thesis by (simp add: unat_div)
qed

lemma dma_ok_Write:
  assumes "devices_keep dma d" "dma_ok (dma s)" "DMA_Write d addr data s = Some t"
  shows "dma_ok (dma t)"
proof -
  have m: "(data AND 0xFFFFFF :: u32) \<le> 0xFFFFFF" by (rule word_and_le1)
  have "dma_ok (dma (dma_write_dicr data s))"
    using assms(2) dicr_ok_write [of data s] by (auto simp: dma_ok_def dma_write_dicr_def Let_def)
  moreover have "dma_ok (set_channel ch (\<lambda>c. c\<lparr>madr := data AND 0xFFFFFF\<rparr>) (dma s))" for ch
    using assms(2) m by (simp add: dma_ok_def)
  moreover have "dma_ok ((dma s)\<lparr>dma_dpcr := data\<rparr>)" using assms(2) by (simp add: dma_ok_def)
  ultimately show ?thesis
    using assms(2,3) dma_channel_index [of "addr AND 0x1FFFFFFF"]
    by (auto simp: DMA_Write_def Let_def split: if_splits elim!: dma_ok_start [OF assms(1), rotated 2])
qed

text \<open>
  C31. The interrupt register of the DMA controller. For a machine whose other processors do not reach
  into the controller, every register access and every completion keeps the invariant: base addresses have
  24 bits, only the sound channel is ever deferred, and the master bit (bit 31) of the interrupt register is
  set exactly when the force bit is, or the master enable is and some channel is both enabled and flagged.
  Reading the register returns the stored value, so the recomputation at reads and the one at writes agree.
\<close>

theorem DMA_interrupt_register:
  assumes "devices_keep dma d" "dma_ok (dma s)"
  shows "fst (DMA_Read 0x1F8010F4 s) = dma_dicr (dma s) \<and>
    pred_option (\<lambda>t. dma_ok (dma t)) (DMA_Write d addr data s) \<and>
    dma_ok (dma (snd (DMA_Read addr s))) \<and> dma_ok (dma (run_DMA_FireCompletion late s)) \<and>
    (bit (dma_dicr (dma s)) 31 \<longleftrightarrow> bit (dma_dicr (dma s)) 15 \<or> bit (dma_dicr (dma s)) 23 \<and>
       list_ex (\<lambda>i. bit (dma_dicr (dma s)) (16 + i) \<and> bit (dma_dicr (dma s)) (24 + i)) [0..<7])"
proof -
  have ok: "dicr_ok (dma_dicr (dma s))" using assms(2) by (simp add: dma_ok_def)
  have "fst (DMA_Read 0x1F8010F4 s) = dma_dicr (dma s)"
  proof -
    have "(if dma_master_bit w then (w AND 0x7F000000) OR (w AND 0x00FF803F) OR 0x80000000
      else (w AND 0x7F000000) OR (w AND 0x00FF803F)) = w" if "dicr_ok w" for w
    proof (rule bit_word_eqI)
      fix n assume "n < LENGTH(32)"
      then consider "n < 6" | "n \<in> {6..14}" | "n \<in> {15..23}" | "n \<in> {24..30}" | "n = 31"
        by (simp, linarith)
      then show "bit (if dma_master_bit w then (w AND 0x7F000000) OR (w AND 0x00FF803F) OR 0x80000000
          else (w AND 0x7F000000) OR (w AND 0x00FF803F)) n = bit w n"
        using that by cases (auto simp: dicr_ok_def dma_master_bit_iff bit_or_iff bit_and_iff bit_dicr_masks
            simp del: bit_numeral_word_iff)
    qed
    from this [OF ok] show ?thesis by (simp add: DMA_Read_def Let_def or.assoc split: if_splits)
  qed
  moreover have "dma_ok (dma (snd (DMA_Read addr s)))"
    using assms(2) by (simp add: DMA_Read_def Let_def dma_ok_check)
  ultimately show ?thesis
    using assms dma_ok_Write [OF assms] dma_ok_fire [OF assms(2)] ok
    by (auto simp: pred_option_def dicr_ok_def list_ex_iff Bex_def)
qed

section \<open>Ordering tables\<close>

lemma link_mask:
  "(a :: u32) AND 3 = 0 \<Longrightarrow> a AND 0x1FFFFC = take_bit 21 a" "(a AND 0x1FFFFC) AND 3 = 0"
  "take_bit 21 (a AND 0x1FFFFC) = a AND 0x1FFFFC" "(a AND 0x1FFFFC) AND 0x1FFFFFFF = a AND 0x1FFFFC"
  "(a AND 0x1FFFFC) AND 0xE0000000 = 0"
proof -
  have m: "take_bit 21 x = x AND 0x1FFFFF" for x :: u32 by (simp add: take_bit_eq_mask mask_eq_exp_minus_1)
  show "a AND 0x1FFFFC = take_bit 21 a" if "a AND 3 = 0"
  proof -
    have "a AND 0x1FFFFF = (a AND 0x1FFFFC) OR ((a AND 3) AND 3)" by (simp add: and.assoc flip: bit.conj_disj_distrib)
    then show ?thesis using that by (simp add: m)
  qed
  show "(a AND 0x1FFFFC) AND 3 = 0" "take_bit 21 (a AND 0x1FFFFC) = a AND 0x1FFFFC"
    "(a AND 0x1FFFFC) AND 0x1FFFFFFF = a AND 0x1FFFFC" "(a AND 0x1FFFFC) AND 0xE0000000 = 0"
    by (simp_all add: m and.assoc)
qed

text \<open>The address of entry \<open>i\<close> of the table that starts at \<open>a\<close>.\<close>

definition otc_addr :: "u32 \<Rightarrow> nat \<Rightarrow> u32" where
  "otc_addr a i = take_bit 21 (a - 4 * of_nat i)"

lemma otc_addr_next:
  assumes "a AND 3 = 0"
  shows "otc_addr (otc_addr a i) j = otc_addr a (i + j)" "otc_addr a i AND 3 = 0"
    "(otc_addr a i - 4) AND 0x1FFFFC = otc_addr a (Suc i)" "(otc_addr a (Suc i) + 4) AND 0x1FFFFC = otc_addr a i"
proof -
  have t': "take_bit 21 (take_bit 21 x + y) = take_bit 21 (x + y)" for x y :: u32
    using take_bit_add_u32 [of 21 "take_bit 21 x" y] take_bit_add_u32 [of 21 x y] by simp
  have t: "take_bit 21 (take_bit 21 x - y) = take_bit 21 (x - y)" for x y :: u32
    using t' [of x "- y"] by simp
  have t2: "take_bit 21 (y + take_bit 21 x) = take_bit 21 (x + y)" for x y :: u32
    using t' [of x y] by (simp add: add.commute)
  show "otc_addr (otc_addr a i) j = otc_addr a (i + j)"
    by (simp add: otc_addr_def t algebra_simps)
  have al: "(a - 4 * w) AND 3 = 0" for w using assms by (rule aligned_sub)
  show al2: "otc_addr a i AND 3 = 0" for i
    using link_mask(1) [OF al] link_mask(2) by (simp add: otc_addr_def) (metis)
  have "(otc_addr a i - 4) AND 3 = 0" using aligned_sub [OF al2, of i 1] by simp
  from link_mask(1) [OF this] show "(otc_addr a i - 4) AND 0x1FFFFC = otc_addr a (Suc i)"
    by (simp add: otc_addr_def t algebra_simps)
  have "(otc_addr a (Suc i) + 4) AND 3 = 0" using aligned_sub [OF al2, of "Suc i" "- 1"] by simp
  from link_mask(1) [OF this] show "(otc_addr a (Suc i) + 4) AND 0x1FFFFC = otc_addr a i"
    by (simp add: otc_addr_def t2 algebra_simps)
qed

lemma otc_addr_inj:
  assumes "otc_addr a i = otc_addr a j" "i \<le> j" "j < i + 0x80000"
  shows "i = j"
proof -
  have "take_bit 21 (4 * of_nat (j - i) :: u32) = take_bit 21 ((a - 4 * of_nat i) - (a - 4 * of_nat j))"
    using assms(2) by (simp add: algebra_simps)
  also have "\<dots> = take_bit 21 ((a - 4 * of_nat j) + - (a - 4 * of_nat j))"
    using assms(1) take_bit_add_u32 [of 21 "a - 4 * of_nat i" "- (a - 4 * of_nat j)"]
      take_bit_add_u32 [of 21 "a - 4 * of_nat j" "- (a - 4 * of_nat j)"] by (simp add: otc_addr_def)
  finally have "unat (take_bit 21 (of_nat (4 * (j - i)) :: u32)) = 0" by simp
  moreover have "4 * (j - i) < 2097152" using assms(2,3) by linarith
  moreover have "unat (take_bit 21 (of_nat k :: u32)) = k" if "k < 2097152" for k
    using that by (simp only: unsigned_take_bit_eq unsigned_of_nat) (simp add: take_bit_eq_mod)
  ultimately have "4 * (j - i) = 0" by metis
  then show ?thesis using assms(2) by simp
qed

fun otc_walk :: "nat \<Rightarrow> bytes \<Rightarrow> u32 \<Rightarrow> u32 list" where
  "otc_walk 0 m a = []"
| "otc_walk (Suc k) m a = (if load32 m a = 0xFFFFFF then [a] else a # otc_walk k m (load32 m a))"

lemma RAM_WriteWord_otc:
  assumes "\<not> bit (cop0 (cpu s) PSX_COP0_SR) 16" "a AND 3 = 0"
  shows "psx_ram (RAM_WriteWord (otc_addr a i) v s) = store32 (psx_ram s) (otc_addr a i) v"
    "cpu (RAM_WriteWord b v s) = cpu s"
proof -
  have "otc_addr a i AND 0x1FFFFFFF = otc_addr a i"
    using link_mask(1,4) [of "a - 4 * of_nat i"] aligned_sub [OF assms(2)] by (simp add: otc_addr_def)
  then show "psx_ram (RAM_WriteWord (otc_addr a i) v s) = store32 (psx_ram s) (otc_addr a i) v"
    "cpu (RAM_WriteWord b v s) = cpu s"
    using assms(1) by (simp_all add: RAM_WriteWord_def cache_isolated_def jit_invalidate_page_def Let_def mask_simps)
qed

lemma dma6_loop_table:
  assumes "\<not> bit (cop0 (cpu s) PSX_COP0_SR) 16" "a AND 3 = 0"
  shows "fst (dma6_loop n (otc_addr a i) s) = otc_addr a (i + n) \<and>
    cpu (snd (dma6_loop n (otc_addr a i) s)) = cpu s \<and>
    (b AND 3 = 0 \<longrightarrow> load32 (psx_ram (snd (dma6_loop n (otc_addr a i) s))) b =
       (if \<exists>k<n. b = otc_addr a (i + k) then otc_addr b 1 else load32 (psx_ram s) b))"
  using assms(1)
proof (induction n arbitrary: i s)
  case (Suc n)
  let ?s = "RAM_WriteWord (otc_addr a i) (otc_addr a (Suc i)) s"
  have cpu: "cpu ?s = cpu s" using RAM_WriteWord_otc(2) [OF Suc.prems assms(2)] .
  have ih: "fst (dma6_loop n (otc_addr a (Suc i)) ?s) = otc_addr a (Suc i + n) \<and>
    cpu (snd (dma6_loop n (otc_addr a (Suc i)) ?s)) = cpu ?s \<and>
    (b AND 3 = 0 \<longrightarrow> load32 (psx_ram (snd (dma6_loop n (otc_addr a (Suc i)) ?s))) b =
       (if \<exists>k<n. b = otc_addr a (Suc i + k) then otc_addr b 1 else load32 (psx_ram ?s) b))"
    using Suc.IH [of ?s "Suc i"] Suc.prems cpu by simp
  have "load32 (psx_ram ?s) b = (if b = otc_addr a i then otc_addr b 1 else load32 (psx_ram s) b)" if "b AND 3 = 0"
    using that RAM_WriteWord_otc(1) [OF Suc.prems assms(2)] otc_addr_next(1) [OF assms(2), of i 1]
    by (simp add: load32_store32_aligned otc_addr_next(2) [OF assms(2)])
  moreover have "(\<exists>k<Suc n. b = otc_addr a (i + k)) \<longleftrightarrow> b = otc_addr a i \<or> (\<exists>k<n. b = otc_addr a (Suc i + k))"
    by (auto simp: less_Suc_eq_0_disj)
  ultimately show ?case
    using ih cpu by (auto simp: Let_def otc_addr_next(3) [OF assms(2)])
qed simp

definition otc_length :: "u32 \<Rightarrow> nat" where
  "otc_length b = unat (if b = 0 then 0x10000 else b)"

lemma otc_addr_0: "otc_addr (m AND 0x1FFFFC) 0 = m AND 0x1FFFFC"
  by (simp add: otc_addr_def link_mask(3) del: take_bit_and)

lemma otc_length_pos: "0 < otc_length b"
  using unat_gt_0 [of b] by (simp add: otc_length_def)

lemma GPU_DMA6_table:
  fixes m c :: u32
  assumes "\<not> bit (cop0 (cpu s) PSX_COP0_SR) 16" "b AND 3 = 0"
  defines "base \<equiv> m AND 0x1FFFFC" and "n \<equiv> otc_length c"
  shows "load32 (psx_ram (GPU_DMA6 m c s)) b =
    (if b = otc_addr base (n - 1) then 0xFFFFFF else if \<exists>k<n. b = otc_addr base k then otc_addr b 1
     else load32 (psx_ram s) b)"
proof -
  have al: "base AND 3 = 0" by (simp add: base_def link_mask(2))
  let ?r = "dma6_loop n (otc_addr base 0) s"
  have r: "GPU_DMA6 m c s = RAM_WriteWord ((fst ?r + 4) AND 0x1FFFFC) 0xFFFFFF (snd ?r)"
    by (simp add: GPU_DMA6_def Let_def case_prod_unfold otc_addr_0 base_def n_def otc_length_def)
  note loop = dma6_loop_table [OF assms(1) al, of n 0 b]
  have "(fst ?r + 4) AND 0x1FFFFC = otc_addr base (n - 1)"
    using loop otc_addr_next(4) [OF al, of "n - 1"] otc_length_pos [of c] by (simp add: n_def)
  moreover have "\<not> bit (cop0 (cpu (snd ?r)) PSX_COP0_SR) 16" using loop assms(1) by simp
  ultimately show ?thesis
    using loop assms(2) RAM_WriteWord_otc(1) [of "snd ?r" base] al
    by (simp add: r load32_store32_aligned otc_addr_next(2) [OF al])
qed

lemma otc_walk_table:
  assumes "\<And>k. k < n \<Longrightarrow> load32 m (otc_addr a k) = (if k = n - 1 then 0xFFFFFF else otc_addr a (Suc k))" "k < n"
  shows "otc_walk (n - k) m (otc_addr a k) = map (otc_addr a) [k..<n]"
  using assms(2)
proof (induction "n - k" arbitrary: k)
  case (Suc j)
  have "otc_addr a (Suc k) \<le> mask 21" by (simp add: otc_addr_def take_bit_eq_mask word_and_le1)
  then have neq: "otc_addr a (Suc k) \<noteq> 0xFFFFFF" by (auto simp: mask_eq_exp_minus_1)
  have "n - k = Suc (n - Suc k)" using Suc.prems by simp
  then show ?case
    using Suc assms(1) [OF Suc.prems] neq by (cases "k = n - 1") (auto simp: upt_conv_Cons)
qed simp

text \<open>
  C32. Clearing an ordering table. With the cache not isolated, starting channel 6 (enabled in the priority
  register, with the start and trigger bits) on a table of \<open>n\<close> words, at most the words of main memory,
  finishes at once; afterwards the words from the base address downwards (modulo main memory) form a linked
  list of exactly \<open>n\<close> entries ending in the end mark, every word outside the table is untouched, and the
  start and trigger bits are clear.
\<close>

theorem DMA_ordering_table:
  assumes "\<not> bit (cop0 (cpu s) PSX_COP0_SR) 16" "bit (dma_dpcr (dma s)) 27" "bit data 24" "bit data 28"
    and "otc_length (bcr (dma_channels (dma s) 6)) \<le> 0x80000"
  defines "base \<equiv> madr (dma_channels (dma s) 6) AND 0x1FFFFC" and "n \<equiv> otc_length (bcr (dma_channels (dma s) 6))"
  shows "\<exists>t. DMA_Write d 0x1F8010E8 data s = Some t \<and>
    otc_walk n (psx_ram t) base = map (otc_addr base) [0..<n] \<and>
    (\<forall>b. b AND 3 = 0 \<and> b \<notin> set (map (otc_addr base) [0..<n]) \<longrightarrow> load32 (psx_ram t) b = load32 (psx_ram s) b) \<and>
    \<not> bit (chcr (dma_channels (dma t) 6)) 24 \<and> \<not> bit (chcr (dma_channels (dma t) 6)) 28"
proof -
  have al: "base AND 3 = 0" by (simp add: base_def link_mask(2))
  have pos: "0 < n" by (simp add: n_def otc_length_pos)
  define s1 where "s1 = upd_dma (set_channel 6 (\<lambda>c. c\<lparr>chcr := (data AND 0x51000000) OR 2\<rparr>)) s"
  have b28: "(w :: u32) AND 0x10000000 = 0 \<longleftrightarrow> \<not> bit w 28" for w
    using and_exp_eq_0_iff_not_bit [of w 28] by simp
  have "bit (chcr (dma_channels (dma s1) 6)) 28" using assms(4) by (simp add: s1_def bit_simps)
  moreover define t where "t = dma_raise_flag 6 (upd_dma (set_channel 6 (\<lambda>c. c\<lparr>chcr := chcr c AND NOT 0x11000000\<rparr>))
      (GPU_DMA6 (madr (dma_channels (dma s) 6)) (bcr (dma_channels (dma s) 6)) s1))"
  ultimately have w: "DMA_Write d 0x1F8010E8 data s = Some t"
    using assms(2,3) drop_bit_and_1 [of 27 "dma_dpcr (dma s)"]
    by (simp add: DMA_Write_def dma_start_def dma_transfer_def dma_finish_def Let_def mask_simps b28 flip: s1_def)
      (simp add: s1_def)
  have tab: "load32 (psx_ram t) b = (if b = otc_addr base (n - 1) then 0xFFFFFF
      else if \<exists>k<n. b = otc_addr base k then otc_addr b 1 else load32 (psx_ram s) b)" if "b AND 3 = 0" for b
  proof -
    have "cpu s1 = cpu s" "psx_ram s1 = psx_ram s" by (simp_all add: s1_def)
    then show ?thesis
      using GPU_DMA6_table [of s1 b "madr (dma_channels (dma s) 6)" "bcr (dma_channels (dma s) 6)"] assms(1) that
      by (simp only: t_def base_def n_def dma_raise_flag_simps upd_dma_simps simp_thms)
  qed
  have "load32 (psx_ram t) (otc_addr base k) = (if k = n - 1 then 0xFFFFFF else otc_addr base (Suc k))" if "k < n" for k
  proof -
    have "otc_addr base k = otc_addr base (n - 1) \<longleftrightarrow> k = n - 1"
      using otc_addr_inj [of base k "n - 1"] that assms(5) by (auto simp: n_def)
    then show ?thesis
      using tab [OF otc_addr_next(2) [OF al]] otc_addr_next(1) [OF al, of k 1] that by auto
  qed
  from otc_walk_table [OF this pos] have "otc_walk n (psx_ram t) base = map (otc_addr base) [0..<n]"
    by (simp add: otc_addr_0 base_def)
  moreover have "load32 (psx_ram t) b = load32 (psx_ram s) b" if "b AND 3 = 0" "b \<notin> set (map (otc_addr base) [0..<n])" for b
    using tab [OF that(1)] that(2) pos by (force simp: image_iff)
  moreover have "\<not> bit (chcr (dma_channels (dma t) 6)) 24" "\<not> bit (chcr (dma_channels (dma t) 6)) 28"
    by (simp_all add: t_def bit_simps)
  ultimately show ?thesis using w by blast
qed

section \<open>Sectors into main memory\<close>

lemma store_bytes_other: "unat a + length bs \<le> 2 ^ 32 \<Longrightarrow> unat b < unat a \<or> unat a + length bs \<le> unat b \<Longrightarrow>
  store_bytes m a bs b = m b"
proof (induction bs arbitrary: m a)
  case (Cons x xs)
  show ?case
  proof (cases "xs = []")
    case True
    then show ?thesis using Cons.prems by auto
  next
    case False
    then have "unat a + 1 < 2 ^ 32" using Cons.prems(1) by (cases xs) auto
    then have "unat (a + 1) = unat a + 1" using unat_add_of_nat [of a 1] by simp
    then show ?thesis using Cons.IH [of "a + 1" "m(a := x)"] Cons.prems by (auto simp: fun_upd_def)
  qed
qed simp

lemma store_bytes_nth: "unat a + length bs \<le> 2 ^ 32 \<Longrightarrow> k < length bs \<Longrightarrow>
  store_bytes m a bs (a + of_nat k) = bs ! k"
proof (induction bs arbitrary: m a k)
  case (Cons x xs)
  show ?case
  proof (cases "xs = []")
    case True
    then show ?thesis using Cons.prems by simp
  next
    case False
    then have "unat a + 1 < 2 ^ 32" using Cons.prems(1) by (cases xs) auto
    then have u: "unat (a + 1) = unat a + 1" using unat_add_of_nat [of a 1] by simp
    show ?thesis
    proof (cases k)
      case 0
      then show ?thesis using store_bytes_other [of "a + 1" xs a "m(a := x)"] u Cons.prems(1) by simp
    next
      case (Suc j)
      then show ?thesis using Cons.IH [of "a + 1" j "m(a := x)"] Cons.prems u by (simp add: add.assoc fun_upd_def)
    qed
  qed
qed simp

lemma page_of: "unat (drop_bit 12 (w :: u32)) = unat w div 4096"
  by (simp add: drop_bit_eq_div unat_div)

lemma jit_invalidate_page_gen:
  assumes "unat a < 0x200000"
  shows "jit_page_gen (jit_invalidate_page a s) p =
    jit_page_gen s p + (if unat p = unat a div 4096 \<and> jit_l1_ram s p then 1 else 0)"
    "jit_l1_ram (jit_invalidate_page a s) = jit_l1_ram s"
proof -
  have "drop_bit 12 a < JIT_L1_RAM_PAGES"
    using assms by (simp add: word_less_nat_alt page_of JIT_L1_RAM_PAGES_def)
  moreover have "p = drop_bit 12 a \<longleftrightarrow> unat p = unat a div 4096" by (simp add: word_unat_eq_iff page_of)
  ultimately show "jit_page_gen (jit_invalidate_page a s) p =
    jit_page_gen s p + (if unat p = unat a div 4096 \<and> jit_l1_ram s p then 1 else 0)"
    "jit_l1_ram (jit_invalidate_page a s) = jit_l1_ram s"
    by (auto simp: jit_invalidate_page_def Let_def)
qed

lemma dma3_invalidate_pages:
  assumes "unat phys + unat n \<le> 0x200000" "off = of_nat (4096 * i)" "4096 * i \<le> unat n + 4095"
  shows "\<exists>t. dma3_invalidate phys n off s = Some t \<and> jit_l1_ram t = jit_l1_ram s \<and> (\<forall>p. jit_page_gen t p = jit_page_gen s p +
    (if jit_l1_ram s p \<and> unat phys div 4096 + i \<le> unat p \<and> 4096 * (unat p - unat phys div 4096) < unat n then 1 else 0))"
  using assms(2,3)
proof (induction "unat n + 4096 - 4096 * i" arbitrary: i off s rule: less_induct)
  case less
  have u: "unat off = 4096 * i"
    using less.prems assms(1) by (simp only: unsigned_of_nat) (simp add: take_bit_nat_eq_self_iff)
  show ?case
  proof (cases "off < n")
    case False
    then have "unat n \<le> 4096 * i" using u by (simp add: word_less_nat_alt)
    then show ?thesis using False by (auto simp: dma3_invalidate.simps)
  next
    case True
    then have lt: "4096 * i < unat n" using u by (simp add: word_less_nat_alt)
    define s1 where "s1 = jit_invalidate_page (phys + off) s"
    have a: "unat (phys + off) = unat phys + 4096 * i"
      using unat_add_lem [of phys off] u lt assms(1) by simp
    have off': "off + 4096 = of_nat (4096 * Suc i)" using less.prems(1) by simp
    obtain t where t: "dma3_invalidate phys n (off + 4096) s1 = Some t" "jit_l1_ram t = jit_l1_ram s1"
      "\<And>p. jit_page_gen t p = jit_page_gen s1 p +
        (if jit_l1_ram s1 p \<and> unat phys div 4096 + Suc i \<le> unat p \<and> 4096 * (unat p - unat phys div 4096) < unat n then 1 else 0)"
    proof -
      have "unat n + 4096 - 4096 * Suc i < unat n + 4096 - 4096 * i" "4096 * Suc i \<le> unat n + 4095" using lt by auto
      from less.hyps [OF this(1) off' this(2), of s1] show thesis using that by blast
    qed
    have g: "jit_page_gen s1 p = jit_page_gen s p + (if unat p = unat phys div 4096 + i \<and> jit_l1_ram s p then 1 else 0)"
      "jit_l1_ram s1 = jit_l1_ram s" for p
      using jit_invalidate_page_gen(1) [of "phys + off" s p] jit_invalidate_page_gen(2) [of "phys + off" s] a lt assms(1) by (auto simp: s1_def)
    show ?thesis
      using t g lt True by (subst dma3_invalidate.simps) (auto simp: s1_def [symmetric])
  qed
qed

definition dma_words :: "u32 \<Rightarrow> nat" where
  "dma_words b = max 1 (unat (b AND 0xFFFF)) * max 1 (unat (drop_bit 16 b AND 0xFFFF))"

lemma dma3_bytes_eq:
  assumes "unat phys + 4 * dma_words b < 2 ^ 32" "phys < PSX_RAM_SIZE"
  shows "unat (dma3_bytes b phys) = min (4 * dma_words b) (0x200000 - unat phys)"
proof -
  define x where "x = (if b AND 0xFFFF = 0 then 1 else b AND 0xFFFF)"
  define y where "y = (if drop_bit 16 b AND 0xFFFF = 0 then 1 else drop_bit 16 b AND 0xFFFF)"
  have one: "unat (if w = 0 then 1 else w) = max 1 (unat w)" for w :: u32
    using unat_gt_0 [of w] by auto
  have w: "unat x * unat y = dma_words b" unfolding x_def y_def one dma_words_def ..
  have xy: "unat (x * y) = dma_words b" using unat_mult_lem [of x y] w assms(1) by simp
  have t: "unat (x * y * 4) = 4 * dma_words b" using unat_mult_lem [of "x * y" 4] xy assms(1) by simp
  have p: "unat (phys + x * y * 4) = unat phys + 4 * dma_words b"
    using unat_add_lem [of phys "x * y * 4"] t assms(1) by simp
  have q: "unat (PSX_RAM_SIZE - phys) = 0x200000 - unat phys"
    using assms(2) by (simp add: unat_sub less_imp_le PSX_RAM_SIZE_def)
  have "dma3_bytes b phys = (if phys + x * y * 4 > PSX_RAM_SIZE then PSX_RAM_SIZE - phys else x * y * 4)"
    by (simp add: dma3_bytes_def Let_def x_def y_def)
  moreover have "phys + x * y * 4 > PSX_RAM_SIZE \<longleftrightarrow> 0x200000 < unat phys + 4 * dma_words b"
    by (simp only: word_less_nat_alt p) (simp add: PSX_RAM_SIZE_def)
  ultimately show ?thesis using t q by auto
qed

lemma ReadDataFIFO_take:
  assumes "cdrom_ok (cdrom s)"
  shows "fst (CDROM_ReadDataFIFO n s) =
      take (min (unat n) (unat (data_len (cdrom s)) - unat (data_pos (cdrom s))))
        (drop (unat (data_pos (cdrom s))) (data_fifo (cdrom s)))"
    "unat (data_pos (cdrom (snd (CDROM_ReadDataFIFO n s)))) =
      unat (data_pos (cdrom s)) + length (fst (CDROM_ReadDataFIFO n s))"
    "length (fst (CDROM_ReadDataFIFO n s)) = min (unat n) (unat (data_len (cdrom s)) - unat (data_pos (cdrom s)))"
proof -
  let ?c = "cdrom s"
  have le: "data_pos ?c \<le> data_len ?c" "unat (data_len ?c) \<le> length (data_fifo ?c)"
    using assms by (auto simp: cdrom_ok_def)
  have av: "unat (data_len ?c - data_pos ?c) = unat (data_len ?c) - unat (data_pos ?c)" using le(1) by (simp add: unat_sub)
  define k where "k = (if n > data_len ?c - data_pos ?c then data_len ?c - data_pos ?c else n)"
  have k: "unat k = min (unat n) (unat (data_len ?c) - unat (data_pos ?c))"
    by (simp add: k_def av word_less_nat_alt min_def)
  show bs: "fst (CDROM_ReadDataFIFO n s) =
      take (min (unat n) (unat (data_len ?c) - unat (data_pos ?c))) (drop (unat (data_pos ?c)) (data_fifo ?c))"
    using k unat_gt_0 [of k] by (auto simp: CDROM_ReadDataFIFO_def Let_def k_def [symmetric] word_gt_0)
  show l: "length (fst (CDROM_ReadDataFIFO n s)) = min (unat n) (unat (data_len ?c) - unat (data_pos ?c))"
    using le by (simp add: bs word_le_nat_alt)
  have "unat k \<le> unat (data_len ?c) - unat (data_pos ?c)" using k by simp
  then have "unat (data_pos ?c) + unat k \<le> unat (data_len ?c)" using le(1) unfolding word_le_nat_alt by linarith
  then have "unat (data_pos ?c + k) = unat (data_pos ?c) + unat k"
    using unat_add_lem [of "data_pos ?c" k] unat_u32_less [of "data_len ?c"] by simp
  then show "unat (data_pos (cdrom (snd (CDROM_ReadDataFIFO n s)))) = unat (data_pos ?c) + length (fst (CDROM_ReadDataFIFO n s))"
    using k l unat_gt_0 [of k] by (auto simp: CDROM_ReadDataFIFO_def Let_def k_def [symmetric] word_gt_0)
qed

lemma psx_ram_fixed [simp]:
  "psx_ram (snd (CDROM_ReadDataFIFO n s)) = psx_ram s" "psx_ram (jit_invalidate_page a s) = psx_ram s"
  "cdrom (jit_invalidate_page a s) = cdrom s"
  "jit_page_gen (snd (CDROM_ReadDataFIFO n s)) = jit_page_gen s" "jit_l1_ram (snd (CDROM_ReadDataFIFO n s)) = jit_l1_ram s"
  by (simp_all add: CDROM_ReadDataFIFO_def jit_invalidate_page_def Let_def)

lemma page_of_offset:
  assumes "k < (n :: nat)" "p = (P + k) div 4096"
  shows "P div 4096 \<le> p \<and> (4096 * (p - P div 4096) < n \<or> p = (P + n - 1) div 4096)"
proof -
  have "P div 4096 \<le> p" using assms(2) by (simp add: div_le_mono)
  moreover have "p = (P + n - 1) div 4096" if "\<not> 4096 * (p - P div 4096) < n"
  proof (rule antisym)
    show "p \<le> (P + n - 1) div 4096" using assms by (simp add: div_le_mono)
    have "P + n - 1 < 4096 * (p + 1)"
      using that calculation div_mult_mod_eq [of P 4096] mod_less_divisor [of 4096 P] by simp
    then show "(P + n - 1) div 4096 \<le> p" by (simp add: less_mult_imp_div_less less_Suc_eq_le [symmetric] mult.commute)
  qed
  ultimately show ?thesis by blast
qed

lemma CDROM_DMA3_effect:
  fixes m b :: u32
  assumes "cdrom_ok (cdrom s)" "unat (m AND 0x1FFFFC) + 4 * dma_words b < 2 ^ 32"
  defines "phys \<equiv> m AND 0x1FFFFC"
  defines "n \<equiv> min (4 * dma_words b) (0x200000 - unat phys)"
  shows "\<exists>t. CDROM_DMA3 m b s = Some t \<and>
    psx_ram t = store_bytes (psx_ram s) phys (fst (CDROM_ReadDataFIFO (dma3_bytes b phys) s)) \<and>
    cdrom t = cdrom (snd (CDROM_ReadDataFIFO (dma3_bytes b phys) s)) \<and> dma t = dma s \<and>
    (\<forall>k<n. jit_l1_ram s (drop_bit 12 (phys + of_nat k)) \<longrightarrow>
       jit_get_page_gen (phys + of_nat k) t \<noteq> jit_get_page_gen (phys + of_nat k) s)"
proof -
  have "phys \<le> 0x1FFFFC" by (simp add: phys_def word_and_le1)
  then have phys: "unat phys \<le> 0x1FFFFC" "phys < PSX_RAM_SIZE"
    by (simp_all add: word_le_nat_alt word_less_nat_alt PSX_RAM_SIZE_def)
  define w where "w = dma3_bytes b phys"
  have w: "unat w = n" using dma3_bytes_eq [of phys b] assms(2) phys(2) by (simp add: w_def n_def phys_def)
  have npos: "0 < n" using phys(1) by (simp add: n_def dma_words_def less_max_iff_disj)
  have le: "unat phys + n \<le> 0x200000" using phys(1) by (simp add: n_def)
  define s2 where "s2 = (snd (CDROM_ReadDataFIFO w s))\<lparr>psx_ram := store_bytes (psx_ram s) phys (fst (CDROM_ReadDataFIFO w s))\<rparr>"
  have s2: "jit_l1_ram s2 = jit_l1_ram s" "jit_page_gen s2 = jit_page_gen s" by (simp_all add: s2_def)
  obtain t where t: "dma3_invalidate phys w 0 s2 = Some t" "jit_l1_ram t = jit_l1_ram s2"
    "\<And>p. jit_page_gen t p = jit_page_gen s2 p + (if jit_l1_ram s2 p \<and> unat phys div 4096 \<le> unat p \<and>
       4096 * (unat p - unat phys div 4096) < n then 1 else 0)"
    using dma3_invalidate_pages [of phys w 0 0 s2] le w by auto
  note keep = dma3_invalidate_keeps [OF _ t(1)]
  define u where "u = jit_invalidate_page (phys + w - 1) t"
  have last: "unat (phys + w - 1) = unat phys + n - 1"
  proof -
    have "unat (phys + w) = unat phys + n" using unat_add_lem [of phys w] w le by simp
    moreover from this have "1 \<le> phys + w" using npos by (simp add: word_le_nat_alt)
    ultimately show ?thesis using npos by (simp add: unat_sub)
  qed
  then have gen: "jit_page_gen u p = jit_page_gen t p + (if unat p = (unat phys + n - 1) div 4096 \<and> jit_l1_ram t p then 1 else 0)" for p
    using jit_invalidate_page_gen(1) [of "phys + w - 1" t p] le npos by (simp add: u_def)
  have "0 < w" using w npos by (simp add: word_less_nat_alt)
  then have run: "CDROM_DMA3 m b s = Some u"
    using t(1) by (simp add: CDROM_DMA3_def Let_def case_prod_unfold phys_def [symmetric] w_def [symmetric] s2_def u_def)
  have "jit_get_page_gen (phys + of_nat k) u \<noteq> jit_get_page_gen (phys + of_nat k) s"
    if "k < n" "jit_l1_ram s (drop_bit 12 (phys + of_nat k))" for k
  proof -
    let ?p = "drop_bit 12 (phys + of_nat k)"
    have "unat (phys + of_nat k) = unat phys + k" using unat_add_of_nat [of phys k] le that(1) by simp
    then have p: "unat ?p = (unat phys + k) div 4096" by (simp add: page_of)
    then have "?p < JIT_L1_RAM_PAGES" using le that(1) by (simp add: word_less_nat_alt JIT_L1_RAM_PAGES_def)
    then show ?thesis
      using page_of_offset [OF that(1) p] that(2) gen [of ?p] t(2,3) s2 by (auto simp: jit_get_page_gen_def Let_def)
  qed
  moreover have "psx_ram u = psx_ram s2" "cdrom u = cdrom s2" "dma u = dma s2"
    using keep [of psx_ram] keep [of cdrom] keep [of dma] by (simp_all add: u_def)
  ultimately show ?thesis using run by (simp add: s2_def w_def)
qed

lemma dma_raise_flag_keeps [simp]:
  "cdrom (dma_raise_flag ch s) = cdrom s" "jit_get_page_gen a (dma_raise_flag ch s) = jit_get_page_gen a s"
  "jit_get_page_gen a (upd_dma f s) = jit_get_page_gen a s" "jit_l1_ram (upd_dma f s) = jit_l1_ram s"
  by (simp_all add: dma_raise_flag_def jit_get_page_gen_def upd_dma_def Let_def SignalInterrupt_def
      update_irq_pending_def cap_cycles_for_irq_def)

text \<open>
  C33. Sectors into main memory. Starting the enabled CD-ROM channel returns, provided the byte count does not
  overflow 32 bits: the bytes the drive's data queue still holds, up to the count and up to the end of main
  memory, are stored from the base address on and taken from the queue; nothing else in memory changes; no
  byte beyond main memory is written; the generation of every page of the transfer that holds compiled code
  changes, so stale code is found; and the start bit is clear.
\<close>

theorem DMA_sector_transfer:
  assumes "cdrom_ok (cdrom s)" "bit (dma_dpcr (dma s)) 15" "bit data 24"
    and "unat (madr (dma_channels (dma s) 3) AND 0x1FFFFC) + 4 * dma_words (bcr (dma_channels (dma s) 3)) < 2 ^ 32"
  defines "phys \<equiv> madr (dma_channels (dma s) 3) AND 0x1FFFFC" and "c \<equiv> cdrom s"
  defines "n \<equiv> min (4 * dma_words (bcr (dma_channels (dma s) 3))) (0x200000 - unat phys)"
  defines "bs \<equiv> take (min n (unat (data_len c) - unat (data_pos c))) (drop (unat (data_pos c)) (data_fifo c))"
  shows "\<exists>t. DMA_Write d 0x1F8010B8 data s = Some t \<and>
    (\<forall>k<length bs. psx_ram t (phys + of_nat k) = bs ! k) \<and>
    (\<forall>b. unat b < unat phys \<or> unat phys + length bs \<le> unat b \<longrightarrow> psx_ram t b = psx_ram s b) \<and>
    unat phys + length bs \<le> 0x200000 \<and> unat (data_pos (cdrom t)) = unat (data_pos c) + length bs \<and>
    (\<forall>k<n. jit_l1_ram s (drop_bit 12 (phys + of_nat k)) \<longrightarrow>
       jit_get_page_gen (phys + of_nat k) t \<noteq> jit_get_page_gen (phys + of_nat k) s) \<and>
    \<not> bit (chcr (dma_channels (dma t) 3)) 24"
proof -
  define s1 where "s1 = upd_dma (set_channel 3 (\<lambda>c. c\<lparr>chcr := data\<rparr>)) s"
  let ?m = "madr (dma_channels (dma s) 3)" and ?b = "bcr (dma_channels (dma s) 3)"
  have s1: "cdrom s1 = cdrom s" "psx_ram s1 = psx_ram s" "jit_l1_ram s1 = jit_l1_ram s"
    "jit_get_page_gen a s1 = jit_get_page_gen a s" "madr (dma_channels (dma s1) 3) = ?m" "bcr (dma_channels (dma s1) 3) = ?b" for a
    by (simp_all add: s1_def)
  obtain u where u: "CDROM_DMA3 ?m ?b s1 = Some u"
    "psx_ram u = store_bytes (psx_ram s) phys (fst (CDROM_ReadDataFIFO (dma3_bytes ?b phys) s1))"
    "cdrom u = cdrom (snd (CDROM_ReadDataFIFO (dma3_bytes ?b phys) s1))" "dma u = dma s1"
    "\<And>k. k < n \<Longrightarrow> jit_l1_ram s (drop_bit 12 (phys + of_nat k)) \<Longrightarrow>
       jit_get_page_gen (phys + of_nat k) u \<noteq> jit_get_page_gen (phys + of_nat k) s"
    using CDROM_DMA3_effect [of s1 ?m ?b] assms(1,4) by (auto simp: s1 n_def phys_def)
  define t where "t = dma_finish 3 False u"
  have start: "DMA_Write d 0x1F8010B8 data s = Some t"
    using assms(2,3) u(1) drop_bit_and_1 [of 15 "dma_dpcr (dma s)"]
    by (simp add: DMA_Write_def dma_start_def dma_transfer_def Let_def mask_simps s1 t_def flip: s1_def) (simp add: s1_def)
  have ph: "phys \<le> 0x1FFFFC" by (simp add: phys_def word_and_le1)
  then have ph: "unat phys \<le> 0x1FFFFC" "phys < PSX_RAM_SIZE"
    by (simp_all add: word_le_nat_alt word_less_nat_alt PSX_RAM_SIZE_def)
  have w: "unat (dma3_bytes ?b phys) = n"
    using dma3_bytes_eq [of phys ?b] assms(4) ph(2) by (simp add: n_def phys_def)
  have bs: "fst (CDROM_ReadDataFIFO (dma3_bytes ?b phys) s1) = bs"
    using ReadDataFIFO_take(1) [of s1] assms(1) w by (simp add: s1 bs_def c_def)
  have len: "length bs \<le> n" by (simp add: bs_def)
  then have "length bs \<le> 0x200000 - unat phys" by (simp add: n_def)
  then have fits: "unat phys + length bs \<le> 0x200000" using ph(1) by linarith
  have t: "psx_ram t = store_bytes (psx_ram s) phys bs" "cdrom t = cdrom u" "\<not> bit (chcr (dma_channels (dma t) 3)) 24"
    "jit_get_page_gen a t = jit_get_page_gen a u" for a
    by (simp_all add: t_def dma_finish_def u(2) bs bit_simps)
  have "unat (data_pos (cdrom t)) = unat (data_pos c) + length bs"
    using ReadDataFIFO_take(2) [of s1] assms(1) by (simp add: t u(3) s1 bs c_def)
  with start t fits u(5) store_bytes_nth [of phys bs] store_bytes_other [of phys bs]
  show ?thesis by auto
qed

lemma dma3_invalidate_ends:
  "dma3_invalidate phys n off s = Some t \<Longrightarrow> take_bit 12 off = 0 \<longrightarrow> n \<le> 0xFFFFF000"
proof (erule dma3_invalidate.raw_induct [where P = "\<lambda>_ n off _ _. take_bit 12 off = 0 \<longrightarrow> n \<le> 0xFFFFF000", rotated])
  fix rec :: "u32 \<Rightarrow> u32 \<Rightarrow> u32 \<Rightarrow> 'a dmachine_scheme \<Rightarrow> 'a dmachine_scheme option" and phys n off :: u32 and s t
  assume ih: "\<And>phys n off s t. rec phys n off s = Some t \<Longrightarrow> take_bit 12 off = 0 \<longrightarrow> n \<le> 0xFFFFF000"
    and run: "(if off < n then rec phys n (off + 4096) (jit_invalidate_page (phys + off) s) else Some s) = Some t"
  show "take_bit 12 off = 0 \<longrightarrow> n \<le> 0xFFFFF000"
  proof
    assume al: "take_bit 12 off = 0"
    show "n \<le> 0xFFFFF000"
    proof (cases "off < n")
      case True
      have "take_bit 12 (off + 4096) = 0" using al take_bit_add_u32 [of 12 off 4096] by simp
      then show ?thesis using ih run True by auto
    next
      case False
      have "unat off mod 4096 = 0"
        using al by (simp only: word_unat_eq_iff unsigned_take_bit_eq) (simp add: take_bit_eq_mod)
      then obtain q where "unat off = 4096 * q" by blast
      then have "unat off \<le> 0xFFFFF000" using unat_u32_less [of off] by simp
      then have "off \<le> 0xFFFFF000" by (simp add: word_le_nat_alt)
      then show ?thesis using False by (simp add: not_less)
    qed
  qed
qed

text \<open>
  A block count the CD-ROM channel never finishes. For 0x8001 blocks of 0x7FFF words the byte count wraps to
  \<open>2 ^ 32 - 4\<close>; with a base address of at least 4 the sum with it wraps again and passes the check
  against the end of main memory, and the loop that invalidates the pages of the transfer, which steps a 32-bit
  offset by 4096 while it is below the byte count, has no end.
\<close>

theorem DMA_sector_transfer_diverges:
  assumes "bit (dma_dpcr (dma s)) 15" "bit data 24" "bcr (dma_channels (dma s) 3) = 0x80017FFF"
    and "4 \<le> madr (dma_channels (dma s) 3) AND 0x1FFFFC"
  shows "DMA_Write d 0x1F8010B8 data s = None"
proof -
  let ?m = "madr (dma_channels (dma s) 3)"
  define s1 where "s1 = upd_dma (set_channel 3 (\<lambda>c. c\<lparr>chcr := data\<rparr>)) s"
  have "?m AND 0x1FFFFC \<le> 0x1FFFFC" by (rule word_and_le1)
  then have "unat ((?m AND 0x1FFFFC) - 4) \<le> 0x1FFFF8"
    using assms(4) by (simp add: unat_sub word_le_nat_alt)
  moreover have e: "x + 0xFFFFFFFC = x - (4 :: u32)" for x by (simp only: diff_conv_add_uminus) simp
  ultimately have "\<not> PSX_RAM_SIZE < (?m AND 0x1FFFFC) + 0xFFFFFFFC"
    unfolding e by (simp add: PSX_RAM_SIZE_def word_less_nat_alt)
  then have bytes: "dma3_bytes 0x80017FFF (?m AND 0x1FFFFC) = 0xFFFFFFFC"
    by (simp add: dma3_bytes_def Let_def)
  have "dma3_invalidate p 0xFFFFFFFC 0 u = None" for p and u :: "'a dmachine_scheme"
    using dma3_invalidate_ends [of p "0xFFFFFFFC" 0 u] by (cases "dma3_invalidate p 0xFFFFFFFC 0 u") auto
  then have "CDROM_DMA3 ?m 0x80017FFF s1 = None"
    by (simp add: CDROM_DMA3_def Let_def case_prod_unfold bytes)
  then show ?thesis
    using assms(1-3) drop_bit_and_1 [of 15 "dma_dpcr (dma s)"]
    by (simp add: DMA_Write_def dma_start_def dma_transfer_def Let_def mask_simps s1_def)
qed

section \<open>Sound transfers\<close>

definition dma_delay :: "u32 \<Rightarrow> u64" where
  "dma_delay b = (let size = b AND 0xFFFF; count = drop_bit 16 b AND 0xFFFF;
       words = (if size = 0 then 1 else size) * (if count = 0 then 1 else count); delay = ucast words * 8
     in if delay < 32 then 32 else delay)"

lemma EFFECTIVE_CYCLES_Sched [simp]:
  "EFFECTIVE_CYCLES (Sched_Add e t cb s) = EFFECTIVE_CYCLES s" "EFFECTIVE_CYCLES (Sched_Remove e s) = EFFECTIVE_CYCLES s"
  by (simp_all add: EFFECTIVE_CYCLES_def frame_simps)

lemma dma_raise_flag_determined: "dma u = dma s \<Longrightarrow> dma (dma_raise_flag ch u) = dma (dma_raise_flag ch s)"
  by (simp add: dma_raise_flag_def Let_def)

lemma sched_pending_raise_flag [simp]: "sched_pending (dma_raise_flag ch s) = sched_pending s"
  by (simp add: dma_raise_flag_def Let_def fun_eq_iff sched_pending_def SignalInterrupt_def
      update_irq_pending_def cap_cycles_for_irq_def upd_dma_def)

text \<open>
  Sound transfers take time. Starting the enabled sound channel leaves its start bit set and defers the
  completion by eight cycles a word, at least 32, for the event and for polling. In any later state with the
  controller untouched, reading the control register before the deadline changes nothing and shows the start bit;
  from the deadline on it shows the start bit clear, leaves the controller as the event's callback would, and
  cancels the event; and after the callback, polling finds nothing more to do. So the transfer is completed, and its
  interrupt flag raised, exactly once.
\<close>

theorem DMA_sound_completion:
  fixes s :: "'a dmachine_scheme"
  assumes "devices_keep dma d" "devices_keep EFFECTIVE_CYCLES d" "devices_keep global_cycles d"
    and "bit (dma_dpcr (dma s)) 19" "bit data 24"
  defines "delay \<equiv> dma_delay (bcr (dma_channels (dma s) 4))"
  shows "\<exists>t. DMA_Write d 0x1F8010C8 data s = Some t \<and> DMA_IsPending t \<and>
    sched_pending t SCHED_EVENT_DMA = Some (global_cycles s + delay, Some DMA_FireCompletion) \<and>
    (\<forall>u :: 'a dmachine_scheme. dma u = dma t \<longrightarrow>
       (EFFECTIVE_CYCLES u < EFFECTIVE_CYCLES s + delay \<longrightarrow> DMA_Read 0x1F8010C8 u = (data, u)) \<and>
       (EFFECTIVE_CYCLES s + delay \<le> EFFECTIVE_CYCLES u \<longrightarrow>
          fst (DMA_Read 0x1F8010C8 u) = data AND NOT 0x01000000 \<and>
          dma (snd (DMA_Read 0x1F8010C8 u)) = dma (run_DMA_FireCompletion late u) \<and>
          sched_pending (snd (DMA_Read 0x1F8010C8 u)) SCHED_EVENT_DMA = None) \<and>
       DMA_Read 0x1F8010C8 (run_DMA_FireCompletion late u) =
         (data AND NOT 0x01000000, run_DMA_FireCompletion late u) \<and>
       \<not> DMA_IsPending (run_DMA_FireCompletion late u))"
proof -
  define s1 where "s1 = upd_dma (set_channel 4 (\<lambda>c. c\<lparr>chcr := data\<rparr>)) s"
  let ?m = "madr (dma_channels (dma s) 4)" and ?b = "bcr (dma_channels (dma s) 4)"
  define s2 where "s2 = SPU_DMA4 d ?m ?b data s1"
  have s2: "dma s2 = dma s1" "EFFECTIVE_CYCLES s2 = EFFECTIVE_CYCLES s" "global_cycles s2 = global_cycles s"
    using assms(1-3) by (simp_all add: s2_def devices_keep_def s1_def)
  define t where "t = dma_defer 4 s2"
  have start: "DMA_Write d 0x1F8010C8 data s = Some t"
    using assms(4,5) drop_bit_and_1 [of 19 "dma_dpcr (dma s)"]
    by (simp add: DMA_Write_def dma_start_def dma_transfer_def dma_finish_def Let_def mask_simps t_def s2_def s1_def)
  have t: "dma t = (dma s1)\<lparr>dma_pending_channel := 4, dma_pending_deadline := EFFECTIVE_CYCLES s + delay\<rparr>"
    "sched_pending t SCHED_EVENT_DMA = Some (global_cycles s + delay, Some DMA_FireCompletion)"
    using s2 by (simp_all add: t_def dma_defer_def Let_def s1_def delay_def dma_delay_def SPU_DMA_CYCLES_PER_WORD_def
        sched_pending_Sched_Add sched_event_defs)
  have s1: "dma_channels (dma s1) 4 = (dma_channels (dma s) 4)\<lparr>chcr := data\<rparr>" by (simp add: s1_def)
  have "(EFFECTIVE_CYCLES u < EFFECTIVE_CYCLES s + delay \<longrightarrow> DMA_Read 0x1F8010C8 u = (data, u)) \<and>
       (EFFECTIVE_CYCLES s + delay \<le> EFFECTIVE_CYCLES u \<longrightarrow>
          fst (DMA_Read 0x1F8010C8 u) = data AND NOT 0x01000000 \<and>
          dma (snd (DMA_Read 0x1F8010C8 u)) = dma (run_DMA_FireCompletion late u) \<and>
          sched_pending (snd (DMA_Read 0x1F8010C8 u)) SCHED_EVENT_DMA = None) \<and>
       DMA_Read 0x1F8010C8 (run_DMA_FireCompletion late u) =
         (data AND NOT 0x01000000, run_DMA_FireCompletion late u) \<and>
       \<not> DMA_IsPending (run_DMA_FireCompletion late u)" if u: "dma u = dma t" for u :: "'a dmachine_scheme"
  proof -
    have r: "DMA_Read 0x1F8010C8 v = (let v1 = (if dma_pending_channel (dma v) = 4 then dma_check_pending v else v)
        in (chcr (dma_channels (dma v1) 4), v1))" for v :: "'a dmachine_scheme"
      by (simp add: DMA_Read_def Let_def)
    have c: "dma (dma_complete_channel 4 (Sched_Remove SCHED_EVENT_DMA (upd_dma (\<lambda>g. g\<lparr>dma_pending_channel := - 1\<rparr>) u)))
        = (dma (dma_complete_channel 4 u))\<lparr>dma_pending_channel := - 1\<rparr>"
      by (simp add: dma_complete_channel_def dma_raise_flag_def Let_def set_channel_def)
    have p: "sched_pending (dma_complete_channel 4 (Sched_Remove SCHED_EVENT_DMA v)) SCHED_EVENT_DMA = None" for v :: "'a dmachine_scheme"
      by (simp add: dma_complete_channel_def sched_pending_def frame_simps)
    have ch: "chcr (dma_channels (dma (dma_complete_channel 4 v)) 4) = chcr (dma_channels (dma v) 4) AND NOT 0x01000000" for v :: "'a dmachine_scheme"
      by (simp add: dma_complete_channel_def)
    show ?thesis
      using u c p [of "upd_dma (\<lambda>g. g\<lparr>dma_pending_channel := - 1\<rparr>) u"]
      by (auto simp: r t s1 dma_check_pending_def run_DMA_FireCompletion_def DMA_IsPending_def Let_def ch)
  qed
  with start t show ?thesis by (auto simp: DMA_IsPending_def)
qed

section \<open>Scheduler\<close>

lemma sched_ops_dma [ops_simps]:
  "sched_ops s (t\<lparr>dma := g\<rparr>) = sched_ops s t" "sched_ops s (upd_dma f t) = sched_ops s t"
  "sched_ops s (dma_raise_flag ch t) = sched_ops s t" "sched_ops s (run_DMA_FireCompletion late t) = sched_ops s t"
proof -
  have same: "sched_same t (upd_dma f t)" "sched_same t (dma_raise_flag ch t)" for t :: "'a dmachine_scheme" and f ch
    by (simp_all add: sched_same_def upd_dma_def dma_raise_flag_def SignalInterrupt_def update_irq_pending_def
        cap_cycles_for_irq_def Let_def)
  show "sched_ops s (t\<lparr>dma := g\<rparr>) = sched_ops s t"
    by (rule sched_ops_same_iff) (simp add: sched_same_def)
  show 1: "sched_ops s (upd_dma f t) = sched_ops s t" for t f by (rule sched_ops_same_iff) (rule same)
  show 2: "sched_ops s (dma_raise_flag ch t) = sched_ops s t" for t ch by (rule sched_ops_same_iff) (rule same)
  show "sched_ops s (run_DMA_FireCompletion late t) = sched_ops s t"
    by (simp add: run_DMA_FireCompletion_def dma_complete_channel_def Let_def 1 2)
qed

section \<open>Instances\<close>

text \<open>Processors that do nothing, and a machine with a disc sector waiting.\<close>

definition idle_devices :: "'s devices" where
  "idle_devices = \<lparr>MDEC_DMA0 = (\<lambda>_ _ _ s. s), MDEC_DMA1 = (\<lambda>_ _ _ s. s), GPU_DMA2 = (\<lambda>_ _ _ s. (False, s)),
     SPU_DMA4 = (\<lambda>_ _ _ s. s), GPU_Read = (\<lambda>s. (0, s)), GPU_ReadStatus = (\<lambda>s. (0x1C000000, s)),
     GPU_WriteGP0 = (\<lambda>_ s. s), GPU_WriteGP1 = (\<lambda>_ s. s), MDEC_ReadData = (\<lambda>s. (0, s)),
     MDEC_ReadStatus = (\<lambda>s. (0x80040000, s)), MDEC_WriteCommand = (\<lambda>_ s. s), MDEC_WriteControl = (\<lambda>_ s. s),
     SPU_ReadReg = (\<lambda>_ s. (0, s)), SPU_WriteReg = (\<lambda>_ _ s. s)\<rparr>"

lemma idle_devices_keep: "devices_keep f idle_devices"
  by (simp add: devices_keep_def idle_devices_def)

definition dmachine_with :: "'a \<Rightarrow> 'a dmachine_scheme" where
  "dmachine_with x = cmachine_with \<lparr>dma = dma_init, jit_l1_ram = (\<lambda>_. True), jit_page_gen = (\<lambda>_. 0), \<dots> = x\<rparr>"

definition dma_machine :: "nat \<Rightarrow> u32 \<Rightarrow> u32 \<Rightarrow> dmachine" where
  "dma_machine ch m b = (dmachine_with ())\<lparr>dma := dma_init\<lparr>dma_dpcr := 0x0FFFFFFF, dma_dicr := 0x00FF0000,
     dma_channels := (\<lambda>_. \<lparr>madr = 0, bcr = 0, chcr = 0\<rparr>)(ch := \<lparr>madr = m, bcr = b, chcr = 0\<rparr>)\<rparr>,
     cdrom := cdrom_reset\<lparr>data_len := 2048\<rparr>\<rparr>"

lemma dma_machine_simps [simp]:
  "dma_dpcr (dma (dma_machine ch m b)) = 0x0FFFFFFF" "dma_dicr (dma (dma_machine ch m b)) = 0x00FF0000"
  "dma_channels (dma (dma_machine ch m b)) ch = \<lparr>madr = m, bcr = b, chcr = 0\<rparr>"
  "dma_pending_channel (dma (dma_machine ch m b)) = - 1"
  "cdrom (dma_machine ch m b) = cdrom_reset\<lparr>data_len := 2048\<rparr>"
  "cop0 (cpu (dma_machine ch m b)) PSX_COP0_SR = 0"
  by (simp_all add: dma_machine_def dma_init_def dmachine_with_def cmachine_with_def smachine_with_def tmachine_with_def
      cpu_zero_def)

lemma reset_sector_ok: "cdrom_ok (cdrom_reset\<lparr>data_len := 2048\<rparr>)"
  by (simp add: cdrom_ok_def cdrom_reset_def cdrom_sizes)

theorem DMA_interrupt_register_witness:
  "fst (DMA_Read 0x1F8010F4 (dma_machine 4 0 0)) = 0x00FF0000 \<and>
   pred_option (\<lambda>t. dma_ok (dma t)) (DMA_Write idle_devices 0x1F8010C8 0x01000201 (dma_machine 4 0 0))"
proof -
  have "madr (dma_channels (dma (dma_machine 4 0 0)) ch) = 0" for ch by (simp add: dma_machine_def)
  then have "dma_ok (dma (dma_machine 4 0 0))"
    using dicr_ok_write [of "0x00FF0000" "dma_machine 4 0 0"]
    by (simp add: dma_ok_def dma_write_dicr_def dma_master_bit_def Let_def)
  then show ?thesis
    using DMA_interrupt_register [OF idle_devices_keep, of "dma_machine 4 0 0" "0x1F8010C8" "0x01000201"] by simp
qed

theorem DMA_ordering_table_witness:
  "\<exists>t. DMA_Write idle_devices 0x1F8010E8 0x11000002 (dma_machine 6 0x80000108 3) = Some t \<and>
     otc_walk 3 (psx_ram t) 0x108 = [0x108, 0x104, 0x100]"
  using DMA_ordering_table [of "dma_machine 6 0x80000108 3" "0x11000002" idle_devices]
  by (auto simp: otc_length_def otc_addr_def upt_rec)

theorem DMA_sector_transfer_witness:
  "\<exists>t. DMA_Write idle_devices 0x1F8010B8 0x11000000 (dma_machine 3 0x1000 0x00010200) = Some t \<and>
     unat (data_pos (cdrom t)) = 2048"
  using DMA_sector_transfer [of "dma_machine 3 0x1000 0x00010200" "0x11000000" idle_devices] reset_sector_ok
  by (auto simp: dma_words_def cdrom_reset_def cdrom_sizes)

theorem DMA_sector_transfer_diverges_witness:
  "DMA_Write idle_devices 0x1F8010B8 0x11000000 (dma_machine 3 0x1000 0x80017FFF) = None"
  using DMA_sector_transfer_diverges [of "dma_machine 3 0x1000 0x80017FFF" "0x11000000" idle_devices] by simp

theorem DMA_sound_completion_witness:
  "\<exists>t. DMA_Write idle_devices 0x1F8010C8 0x01000201 (dma_machine 4 0x1000 0x00100010) = Some t \<and> DMA_IsPending t \<and>
     sched_pending t SCHED_EVENT_DMA = Some (2048, Some DMA_FireCompletion)"
  using DMA_sound_completion [of idle_devices "dma_machine 4 0x1000 0x00100010" "0x01000201" 0]
  by (auto simp: idle_devices_keep dma_delay_def dma_machine_def dmachine_with_def cmachine_with_def smachine_with_def tmachine_with_def)

end
