(* ===== verification/Bus.thy ===== *)
theory Bus
  imports Dma "HOL-Library.Monad_Syntax"
begin

text \<open>
  The memory map of \<^verbatim>\<open>src/memory.c\<close> and the register dispatch of \<^verbatim>\<open>src/hardware.c\<close>:
  main memory, scratchpad and BIOS through their mirrors, alignment traps, cache isolation, the unaligned
  load and store helpers, the interrupt registers with the level-triggered drive line and the early
  serial acknowledge, and the table of directly mapped pages.

  A write can start a transfer that never returns, so writes yield an option, as \<open>DMA_Write\<close> does; reads
  always return a value and the new state.

  Shown here: what is written to main memory or the scratchpad is read back through every mirror and nothing
  else changes; the unaligned helpers together load and store exactly the four bytes at an address;
  misaligned accesses trap with the right cause and touch no memory; an isolated cache swallows writes
  except through the uncached segment; acknowledging interrupts clears only what may be cleared; the page
  table maps the mirrors of main memory, which the access functions read as zero.
\<close>

section \<open>State\<close>

record machine = dmachine +
  psx_bios :: bytes
  scratchpad_buf :: bytes
  cache_ctrl :: u32
  mem_ctrl :: "u32 \<Rightarrow> u32"
  ram_size :: u32
  tty :: "u8 list"

definition PSX_BIOS_SIZE :: u32 where "PSX_BIOS_SIZE = 0x80000"
definition PSX_I_MASK_VALID :: u32 where "PSX_I_MASK_VALID = 0xFFFF07FF"
definition PSX_SPU_END :: u32 where "PSX_SPU_END = 0x1F801E00"

definition translate_addr :: "u32 \<Rightarrow> u32" where
  "translate_addr addr = addr AND 0x1FFFFFFF"

definition in_ram :: "u32 \<Rightarrow> bool" where "in_ram phys \<longleftrightarrow> phys < PSX_RAM_SIZE"
definition in_bios :: "u32 \<Rightarrow> bool" where "in_bios phys \<longleftrightarrow> phys \<ge> 0x1FC00000 \<and> phys < 0x1FC00000 + PSX_BIOS_SIZE"
definition in_scratch :: "u32 \<Rightarrow> bool" where "in_scratch phys \<longleftrightarrow> phys \<ge> 0x1F800000 \<and> phys < 0x1F800400"
definition in_hw :: "u32 \<Rightarrow> bool" where "in_hw phys \<longleftrightarrow> phys \<ge> 0x1F801000 \<and> phys < 0x1F803000"
definition in_sio :: "u32 \<Rightarrow> bool" where "in_sio phys \<longleftrightarrow> phys \<ge> 0x1F801040 \<and> phys \<le> 0x1F80105E"

lemmas region_defs = in_ram_def in_bios_def in_scratch_def in_hw_def in_sio_def PSX_RAM_SIZE_def PSX_BIOS_SIZE_def

section \<open>Hardware registers\<close>

definition spu_register_offset :: "u32 \<Rightarrow> u32" where
  "spu_register_offset phys = drop_bit 1 (phys - 0x1F801C00)"

text \<open>Whether the acknowledge consumed a scheduled serial interrupt, and the state after it.\<close>

definition handle_sio_irq_ack :: "u32 \<Rightarrow> 'a machine_scheme \<Rightarrow> bool \<times> 'a machine_scheme" where
  "handle_sio_irq_ack data s =
     (if sio_irq_pending (sio s) \<and> data AND 0x80 = 0
      then (True, SignalInterrupt 7 (Sched_Remove SCHED_EVENT_SIO_IRQ
              (s\<lparr>sio := (sio s)\<lparr>sio_irq_pending := False, sio_irq_delay_cycle := 0\<rparr>\<rparr>)))
      else (False, s))"

definition hw_read_low :: "u32 \<Rightarrow> 'a machine_scheme \<Rightarrow> u32 \<times> 'a machine_scheme" where
  "hw_read_low phys s =
     (if phys = 0x1F801070 then (i_stat (cpu s), s)
      else if phys = 0x1F801074 then (i_mask (cpu s), s)
      else if phys < 0x1F801024 then (mem_ctrl s (drop_bit 2 (phys - 0x1F801000)), s)
      else if in_sio phys then SIO_Read phys s
      else if phys = 0x1F801060 then (ram_size s, s)
      else if phys \<ge> 0x1F801080 then DMA_Read phys s
      else (0, s))"

definition hw_read_media :: "'a machine_scheme devices \<Rightarrow> u32 \<Rightarrow> 'a machine_scheme \<Rightarrow> u32 \<times> 'a machine_scheme" where
  "hw_read_media d phys s =
     (if phys \<le> 0x1F801803
      then let (v, s1) = CDROM_Read phys s; b = v AND 0xFF
           in (b OR push_bit 8 b OR push_bit 16 b OR push_bit 24 b, s1)
      else if phys = 0x1F801810 then GPU_Read d s
      else if phys = 0x1F801814 then GPU_ReadStatus d s
      else if phys = 0x1F801820 then MDEC_ReadData d s
      else if phys = 0x1F801824 then MDEC_ReadStatus d s
      else (0, s))"

definition hw_read_spu :: "'a machine_scheme devices \<Rightarrow> u32 \<Rightarrow> 'a machine_scheme \<Rightarrow> u32 \<times> 'a machine_scheme" where
  "hw_read_spu d phys s =
     (let sreg = spu_register_offset phys; (low, s1) = SPU_ReadReg d sreg s;
          (high, s2) = (if phys + 2 < PSX_SPU_END then SPU_ReadReg d (sreg + 1) s1 else (0, s1))
      in (ucast low OR push_bit 16 (ucast high), s2))"

definition ReadHardware :: "'a machine_scheme devices \<Rightarrow> u32 \<Rightarrow> 'a machine_scheme \<Rightarrow> u32 \<times> 'a machine_scheme" where
  "ReadHardware d phys s =
     (let block = drop_bit 8 (phys - 0x1F801000);
          (result, s1) = (if block = 0x00 then hw_read_low phys s
             else if block = 0x01 then Timers_Read phys s
             else if block = 0x08 then hw_read_media d phys s
             else if block = 0x0C \<or> block = 0x0D then hw_read_spu d phys s
             else if 0x10 \<le> block \<and> block \<le> 0x1F then (0xFFFFFFFF, s)
             else (0, s))
      in (result, if \<not> interpreter_mode (psx_config s1)
                  then s1\<lparr>cpu := (cpu s1)\<lparr>cycles_left := cycles_left (cpu s1) - 1\<rparr>\<rparr> else s1))"

definition hw_write_istat :: "u32 \<Rightarrow> 'a machine_scheme \<Rightarrow> 'a machine_scheme" where
  "hw_write_istat data s =
     (let st = i_stat (cpu s) AND data;
          st' = (if cdrom_irq_active s \<and> st AND 4 = 0 then st OR 4 else st);
          (done, s1) = handle_sio_irq_ack data (s\<lparr>cpu := (cpu s)\<lparr>i_stat := st'\<rparr>\<rparr>)
      in if done then s1 else update_irq_pending s1)"

definition hw_write_imask :: "u32 \<Rightarrow> 'a machine_scheme \<Rightarrow> 'a machine_scheme" where
  "hw_write_imask data s = update_irq_pending (s\<lparr>cpu := (cpu s)\<lparr>i_mask := data AND PSX_I_MASK_VALID\<rparr>\<rparr>)"

definition hw_write_low ::
  "pads \<Rightarrow> 'a machine_scheme devices \<Rightarrow> u32 \<Rightarrow> u32 \<Rightarrow> 'a machine_scheme \<Rightarrow> 'a machine_scheme option" where
  "hw_write_low p d phys data s =
     (if phys < 0x1F801024 then Some (s\<lparr>mem_ctrl := (mem_ctrl s)(drop_bit 2 (phys - 0x1F801000) := data)\<rparr>)
      else if in_sio phys then Some (SIO_Write p phys data s)
      else if phys = 0x1F801060 then Some (s\<lparr>ram_size := data\<rparr>)
      else if phys = 0x1F801070 then Some (hw_write_istat data s)
      else if phys = 0x1F801074 then Some (hw_write_imask data s)
      else if phys \<ge> 0x1F801080 then DMA_Write d phys data s
      else Some s)"

definition hw_write_media :: "'a machine_scheme devices \<Rightarrow> u32 \<Rightarrow> u32 \<Rightarrow> 'a machine_scheme \<Rightarrow> 'a machine_scheme" where
  "hw_write_media d phys data s =
     (if phys \<le> 0x1F801803 then CDROM_Write phys data s
      else if phys = 0x1F801810 then GPU_WriteGP0 d data s
      else if phys = 0x1F801814 then GPU_WriteGP1 d data s
      else if phys = 0x1F801820 then MDEC_WriteCommand d data s
      else if phys = 0x1F801824 then MDEC_WriteControl d data s
      else s)"

definition hw_write_spu :: "'a machine_scheme devices \<Rightarrow> u32 \<Rightarrow> u32 \<Rightarrow> nat \<Rightarrow> 'a machine_scheme \<Rightarrow> 'a machine_scheme" where
  "hw_write_spu d phys data sz s =
     (let soff = spu_register_offset phys; s1 = SPU_WriteReg d soff (ucast data) s
      in if sz = 4 \<and> phys + 2 < PSX_SPU_END then SPU_WriteReg d (soff + 1) (ucast (drop_bit 16 data)) s1 else s1)"

definition WriteHardware ::
  "pads \<Rightarrow> 'a machine_scheme devices \<Rightarrow> u32 \<Rightarrow> u32 \<Rightarrow> nat \<Rightarrow> 'a machine_scheme \<Rightarrow> 'a machine_scheme option" where
  "WriteHardware p d phys data sz s =
     (let block = drop_bit 8 (phys - 0x1F801000)
      in if block = 0x00 then hw_write_low p d phys data s
         else if block = 0x01 then Some (Timers_Write phys data s)
         else if block = 0x08 then Some (hw_write_media d phys data s)
         else if block = 0x0C \<or> block = 0x0D then Some (hw_write_spu d phys data sz s)
         else if phys = 0x1F802002 then Some (s\<lparr>tty := tty s @ [ucast data]\<rparr>)
         else Some s)"

section \<open>Reads\<close>

text \<open>The trap of a misaligned access: cause 4 for loads, 5 for stores.\<close>

definition address_error :: "u32 \<Rightarrow> u32 \<Rightarrow> 'a core_scheme \<Rightarrow> 'a core_scheme" where
  "address_error cause_code addr s =
     (let c = cpu s
      in PSX_Exception cause_code (s\<lparr>cpu := c\<lparr>cop0 := (cop0 c)(PSX_COP0_BADVADDR := addr), pc := current_pc c\<rparr>\<rparr>))"

definition ReadByte :: "'a machine_scheme devices \<Rightarrow> u32 \<Rightarrow> 'a machine_scheme \<Rightarrow> u8 \<times> 'a machine_scheme" where
  "ReadByte d addr s =
     (let phys = translate_addr addr
      in if in_ram phys then (psx_ram s phys, s)
         else if in_bios phys then (psx_bios s (phys - 0x1FC00000), s)
         else if in_scratch phys then (scratchpad_buf s (phys - 0x1F800000), s)
         else if in_hw phys then apfst ucast (ReadHardware d phys s)
         else (0, s))"

definition ReadHalf :: "'a machine_scheme devices \<Rightarrow> u32 \<Rightarrow> 'a machine_scheme \<Rightarrow> u16 \<times> 'a machine_scheme" where
  "ReadHalf d addr s =
     (if addr AND 1 \<noteq> 0 then (0, address_error 4 addr s)
      else let phys = translate_addr addr
      in if in_ram phys then (load16 (psx_ram s) phys, s)
         else if in_bios phys then (load16 (psx_bios s) (phys - 0x1FC00000), s)
         else if in_scratch phys then (load16 (scratchpad_buf s) (phys - 0x1F800000), s)
         else if in_hw phys then apfst ucast (ReadHardware d phys s)
         else (0, s))"

definition ReadWord :: "'a machine_scheme devices \<Rightarrow> u32 \<Rightarrow> 'a machine_scheme \<Rightarrow> u32 \<times> 'a machine_scheme" where
  "ReadWord d addr s =
     (if addr AND 3 \<noteq> 0 then (0, address_error 4 addr s)
      else let phys = translate_addr addr
      in if in_ram phys then (load32 (psx_ram s) phys, s)
         else if in_bios phys then (load32 (psx_bios s) (phys - 0x1FC00000), s)
         else if in_scratch phys then (load32 (scratchpad_buf s) (phys - 0x1F800000), s)
         else if in_hw phys then ReadHardware d phys s
         else if phys = 0x1FFE0130 then (cache_ctrl s, s)
         else (0, s))"

section \<open>Writes\<close>

definition WriteByte ::
  "pads \<Rightarrow> 'a machine_scheme devices \<Rightarrow> u32 \<Rightarrow> u8 \<Rightarrow> 'a machine_scheme \<Rightarrow> 'a machine_scheme option" where
  "WriteByte p d addr data s =
     (if cache_isolated addr s then Some s
      else let phys = translate_addr addr
      in if in_sio phys then Some (SIO_Write p phys (ucast data) s)
         else if in_ram phys then Some (s\<lparr>psx_ram := (psx_ram s)(phys := data)\<rparr>)
         else if in_scratch phys then Some (s\<lparr>scratchpad_buf := (scratchpad_buf s)(phys - 0x1F800000 := data)\<rparr>)
         else if in_hw phys then WriteHardware p d phys (ucast data) 1 s
         else Some s)"

definition WriteHalf ::
  "pads \<Rightarrow> 'a machine_scheme devices \<Rightarrow> u32 \<Rightarrow> u16 \<Rightarrow> 'a machine_scheme \<Rightarrow> 'a machine_scheme option" where
  "WriteHalf p d addr data s =
     (if addr AND 1 \<noteq> 0 then Some (address_error 5 addr s)
      else if cache_isolated addr s then Some s
      else let phys = translate_addr addr
      in if in_sio phys then Some (SIO_Write p phys (ucast data) s)
         else if in_ram phys then Some (s\<lparr>psx_ram := store16 (psx_ram s) phys data\<rparr>)
         else if in_scratch phys then Some (s\<lparr>scratchpad_buf := store16 (scratchpad_buf s) (phys - 0x1F800000) data\<rparr>)
         else if in_hw phys then WriteHardware p d phys (ucast data) 2 s
         else Some s)"

definition WriteWord ::
  "pads \<Rightarrow> 'a machine_scheme devices \<Rightarrow> u32 \<Rightarrow> u32 \<Rightarrow> 'a machine_scheme \<Rightarrow> 'a machine_scheme option" where
  "WriteWord p d addr data s =
     (if addr AND 3 \<noteq> 0 then Some (address_error 5 addr s)
      else if cache_isolated addr s then Some s
      else let phys = translate_addr addr
      in if in_ram phys then Some (jit_invalidate_page phys (s\<lparr>psx_ram := store32 (psx_ram s) phys data\<rparr>))
         else if in_scratch phys then Some (s\<lparr>scratchpad_buf := store32 (scratchpad_buf s) (phys - 0x1F800000) data\<rparr>)
         else if in_hw phys then WriteHardware p d phys data 4 s
         else if phys = 0x1FFE0130 then Some (s\<lparr>cache_ctrl := data\<rparr>)
         else Some s)"

section \<open>Unaligned access\<close>

definition lwl_merge :: "u32 \<Rightarrow> u32 \<Rightarrow> u32 \<Rightarrow> u32" where
  "lwl_merge addr word cur_rt =
     (if addr AND 3 = 0 then push_bit 24 (word AND 0x000000FF) OR (cur_rt AND 0x00FFFFFF)
      else if addr AND 3 = 1 then push_bit 16 (word AND 0x0000FFFF) OR (cur_rt AND 0x0000FFFF)
      else if addr AND 3 = 2 then push_bit 8 (word AND 0x00FFFFFF) OR (cur_rt AND 0x000000FF)
      else word)"

definition lwr_merge :: "u32 \<Rightarrow> u32 \<Rightarrow> u32 \<Rightarrow> u32" where
  "lwr_merge addr word cur_rt =
     (if addr AND 3 = 0 then word
      else if addr AND 3 = 1 then drop_bit 8 word OR (cur_rt AND 0xFF000000)
      else if addr AND 3 = 2 then drop_bit 16 word OR (cur_rt AND 0xFFFF0000)
      else drop_bit 24 word OR (cur_rt AND 0xFFFFFF00))"

definition swl_merge :: "u32 \<Rightarrow> u32 \<Rightarrow> u32 \<Rightarrow> u32" where
  "swl_merge addr word rt_val =
     (if addr AND 3 = 0 then (word AND 0xFFFFFF00) OR drop_bit 24 rt_val
      else if addr AND 3 = 1 then (word AND 0xFFFF0000) OR drop_bit 16 rt_val
      else if addr AND 3 = 2 then (word AND 0xFF000000) OR drop_bit 8 rt_val
      else rt_val)"

definition swr_merge :: "u32 \<Rightarrow> u32 \<Rightarrow> u32 \<Rightarrow> u32" where
  "swr_merge addr word rt_val =
     (if addr AND 3 = 0 then rt_val
      else if addr AND 3 = 1 then (word AND 0x000000FF) OR push_bit 8 rt_val
      else if addr AND 3 = 2 then (word AND 0x0000FFFF) OR push_bit 16 rt_val
      else (word AND 0x00FFFFFF) OR push_bit 24 rt_val)"

definition Helper_LWL :: "'a machine_scheme devices \<Rightarrow> u32 \<Rightarrow> u32 \<Rightarrow> 'a machine_scheme \<Rightarrow> u32 \<times> 'a machine_scheme" where
  "Helper_LWL d addr cur_rt s = apfst (\<lambda>word. lwl_merge addr word cur_rt) (ReadWord d (addr AND NOT 3) s)"

definition Helper_LWR :: "'a machine_scheme devices \<Rightarrow> u32 \<Rightarrow> u32 \<Rightarrow> 'a machine_scheme \<Rightarrow> u32 \<times> 'a machine_scheme" where
  "Helper_LWR d addr cur_rt s = apfst (\<lambda>word. lwr_merge addr word cur_rt) (ReadWord d (addr AND NOT 3) s)"

definition Helper_SWL ::
  "pads \<Rightarrow> 'a machine_scheme devices \<Rightarrow> u32 \<Rightarrow> u32 \<Rightarrow> 'a machine_scheme \<Rightarrow> 'a machine_scheme option" where
  "Helper_SWL p d addr rt_val s =
     (let aligned = addr AND NOT 3; (word, s1) = ReadWord d aligned s
      in WriteWord p d aligned (swl_merge addr word rt_val) s1)"

definition Helper_SWR ::
  "pads \<Rightarrow> 'a machine_scheme devices \<Rightarrow> u32 \<Rightarrow> u32 \<Rightarrow> 'a machine_scheme \<Rightarrow> 'a machine_scheme option" where
  "Helper_SWR p d addr rt_val s =
     (let aligned = addr AND NOT 3; (word, s1) = ReadWord d aligned s
      in WriteWord p d aligned (swr_merge addr word rt_val) s1)"

section \<open>The page table\<close>

text \<open>A host pointer: a byte offset into main memory or into the BIOS image.\<close>

datatype host_page = RAM_page u32 | BIOS_page u32

definition lut_ram_page :: "nat \<Rightarrow> (u32 \<Rightarrow> host_page option) \<Rightarrow> u32 \<Rightarrow> host_page option" where
  "lut_ram_page k l =
     (let pg = of_nat k; b = Some (RAM_page (pg * 0x10000))
      in l(0x0000 + pg := b, 0x8000 + pg := b, 0xA000 + pg := b,
           0x0020 + pg := b, 0x0040 + pg := b, 0x0060 + pg := b,
           0x8020 + pg := b, 0x8040 + pg := b, 0x8060 + pg := b,
           0xA020 + pg := b, 0xA040 + pg := b, 0xA060 + pg := b))"

definition lut_bios_page :: "nat \<Rightarrow> (u32 \<Rightarrow> host_page option) \<Rightarrow> u32 \<Rightarrow> host_page option" where
  "lut_bios_page k l =
     (let pg = of_nat k; b = Some (BIOS_page (pg * 0x10000))
      in l(0x1FC0 + pg := b, 0x9FC0 + pg := b, 0xBFC0 + pg := b))"

definition Init_MemoryLUT :: "u32 \<Rightarrow> host_page option" where
  "Init_MemoryLUT = fold lut_bios_page [0..<8] (fold lut_ram_page [0..<0x20] (\<lambda>_. None))"

section \<open>Regions\<close>

lemma region_disjoint:
  "in_ram a \<Longrightarrow> \<not> in_bios a" "in_ram a \<Longrightarrow> \<not> in_scratch a" "in_ram a \<Longrightarrow> \<not> in_hw a" "in_ram a \<Longrightarrow> \<not> in_sio a"
  "in_scratch a \<Longrightarrow> \<not> in_ram a" "in_scratch a \<Longrightarrow> \<not> in_bios a" "in_scratch a \<Longrightarrow> \<not> in_hw a" "in_scratch a \<Longrightarrow> \<not> in_sio a"
  by (auto simp: region_defs word_less_nat_alt word_le_nat_alt)

lemma translate_aligned: "translate_addr a AND 3 = a AND 3"
  by (simp add: translate_addr_def and.assoc and.left_commute and.commute)

text \<open>Main memory and the scratchpad, as the words a program can write and read back.\<close>

definition bus_word :: "u32 \<Rightarrow> 'a machine_scheme \<Rightarrow> u32" where
  "bus_word a s = (let phys = translate_addr a in
     if in_ram phys then load32 (psx_ram s) phys else load32 (scratchpad_buf s) (phys - 0x1F800000))"

definition writable :: "u32 \<Rightarrow> 'a machine_scheme \<Rightarrow> bool" where
  "writable a s \<longleftrightarrow> a AND 3 = 0 \<and> (in_ram (translate_addr a) \<or> in_scratch (translate_addr a)) \<and> \<not> cache_isolated a s"

lemma psx_ram_invalidate [simp]:
  "scratchpad_buf (jit_invalidate_page a s) = scratchpad_buf s" "psx_bios (jit_invalidate_page a s) = psx_bios s"
  "cpu (jit_invalidate_page a s) = cpu s"
  by (simp_all add: jit_invalidate_page_def Let_def)

lemma ReadWord_bus:
  "a AND 3 = 0 \<Longrightarrow> in_ram (translate_addr a) \<or> in_scratch (translate_addr a) \<Longrightarrow> ReadWord d a s = (bus_word a s, s)"
  by (auto simp: ReadWord_def bus_word_def Let_def region_disjoint)

lemma aligned_offset: "a AND 3 = 0 \<Longrightarrow> (a - 0x1F800000 :: u32) AND 3 = 0"
  using aligned_sub [of a "0x7E00000"] by simp

lemma WriteWord_bus:
  assumes "writable a s"
  shows "\<exists>t. WriteWord p d a v s = Some t \<and> cpu t = cpu s \<and>
    (b AND 3 = 0 \<and> (in_ram (translate_addr b) \<or> in_scratch (translate_addr b)) \<longrightarrow>
       bus_word b t = (if translate_addr b = translate_addr a then v else bus_word b s))"
proof -
  have al: "translate_addr a AND 3 = 0" "a AND 3 = 0" using assms by (simp_all add: writable_def translate_aligned)
  show ?thesis
  proof (cases "in_ram (translate_addr a)")
    case True
    then have "WriteWord p d a v s = Some (jit_invalidate_page (translate_addr a)
        (s\<lparr>psx_ram := store32 (psx_ram s) (translate_addr a) v\<rparr>))"
      using assms by (simp add: WriteWord_def writable_def Let_def)
    then show ?thesis using True al
      by (auto simp: bus_word_def Let_def load32_store32_aligned translate_aligned)
  next
    case False
    then have r: "in_scratch (translate_addr a)" using assms by (simp add: writable_def)
    then have "WriteWord p d a v s = Some (s\<lparr>scratchpad_buf := store32 (scratchpad_buf s) (translate_addr a - 0x1F800000) v\<rparr>)"
      using assms False by (simp add: WriteWord_def writable_def Let_def)
    then show ?thesis using r al False
      by (auto simp: bus_word_def Let_def load32_store32_aligned aligned_offset translate_aligned region_disjoint)
  qed
qed

section \<open>Unaligned words over an aligned store\<close>

lemma low_bits_plus_3:
  "(a :: u32) AND 3 = 0 \<and> (a + 3) AND 3 = 3 \<or> a AND 3 = 1 \<and> (a + 3) AND 3 = 0 \<or>
   a AND 3 = 2 \<and> (a + 3) AND 3 = 1 \<or> a AND 3 = 3 \<and> (a + 3) AND 3 = 2"
proof -
  have m: "x AND 3 = take_bit 2 x" for x :: u32 by (simp add: take_bit_eq_mask mask_eq_exp_minus_1)
  have "unat (take_bit 2 a) < 4" by (simp only: unsigned_take_bit_eq) (simp add: take_bit_eq_mod)
  then have "unat (take_bit 2 a) \<in> {0, 1, 2, 3}" by auto
  then have "take_bit 2 a \<in> {0, 1, 2, 3}" by (auto simp: word_unat_eq_iff)
  moreover have "take_bit 2 (a + 3) = take_bit 2 (take_bit 2 a + take_bit 2 3)" by (rule take_bit_add_u32) simp
  ultimately show ?thesis unfolding m by (elim insertE emptyE) simp_all
qed

lemma unaligned_merge:
  "a AND 3 \<noteq> 0 \<Longrightarrow> lwl_merge (a + 3) (swl_merge (a + 3) w' v) (lwr_merge a (swr_merge a w v) x) = v"
  using low_bits_plus_3 [of a] unfolding u32_eq_bits [of _ v]
  by (elim disjE) (simp_all add: lwl_merge_def swl_merge_def lwr_merge_def swr_merge_def bit_simps)

lemma align_eq: "(x :: u32) AND NOT 3 = x - (x AND 3)"
proof -
  have "(x AND NOT 3) + (x AND 3) = (x AND NOT 3) OR (x AND 3)"
    by (rule disjunctive_add_eq_or) (simp add: and.assoc and.left_commute)
  also have "\<dots> = x" by (simp add: bit.conj_disj_distrib [symmetric])
  finally show ?thesis by (simp add: eq_diff_eq)
qed

text \<open>
  What the unaligned helpers rely on: aligned words that are written are read back, at every address of
  the same location, and other locations keep theirs.
\<close>

locale word_memory =
  fixes rd :: "u32 \<Rightarrow> 's \<Rightarrow> u32" and wr :: "u32 \<Rightarrow> u32 \<Rightarrow> 's \<Rightarrow> 's option"
    and live :: "u32 \<Rightarrow> 's \<Rightarrow> bool" and loc :: "u32 \<Rightarrow> u32"
  assumes wr_live: "live a s \<Longrightarrow> \<exists>t. wr a v s = Some t \<and> (\<forall>b. live b t = live b s) \<and>
    (\<forall>b. live b s \<longrightarrow> rd b t = (if loc b = loc a then v else rd b s))"
begin

definition ustore :: "u32 \<Rightarrow> u32 \<Rightarrow> 's \<Rightarrow> 's option" where
  "ustore a v s = Option.bind (wr (a AND NOT 3) (swr_merge a (rd (a AND NOT 3) s) v) s)
     (\<lambda>t. wr ((a + 3) AND NOT 3) (swl_merge (a + 3) (rd ((a + 3) AND NOT 3) t) v) t)"

definition uload :: "u32 \<Rightarrow> 's \<Rightarrow> u32 \<Rightarrow> u32" where
  "uload a s x = lwl_merge (a + 3) (rd ((a + 3) AND NOT 3) s) (lwr_merge a (rd (a AND NOT 3) s) x)"

lemma wr_cases:
  assumes "live a s"
  obtains t where "wr a v s = Some t" "\<And>b. live b t = live b s"
    "\<And>b. live b s \<Longrightarrow> rd b t = (if loc b = loc a then v else rd b s)"
  using wr_live [OF assms, of v] by auto

lemma uload_ustore:
  assumes "live (a AND NOT 3) s" "live ((a + 3) AND NOT 3) s"
    and "a AND 3 = 0 \<or> loc (a AND NOT 3) \<noteq> loc ((a + 3) AND NOT 3)"
  shows "\<exists>t. ustore a v s = Some t \<and> uload a t x = v \<and> (\<forall>b. live b t = live b s) \<and>
    (\<forall>b. live b s \<and> loc b \<noteq> loc (a AND NOT 3) \<and> loc b \<noteq> loc ((a + 3) AND NOT 3) \<longrightarrow> rd b t = rd b s)"
proof -
  obtain s1 where s1: "wr (a AND NOT 3) (swr_merge a (rd (a AND NOT 3) s) v) s = Some s1" "\<And>b. live b s1 = live b s"
    "\<And>b. live b s \<Longrightarrow> rd b s1 = (if loc b = loc (a AND NOT 3) then swr_merge a (rd (a AND NOT 3) s) v else rd b s)"
    by (rule wr_cases [OF assms(1), of "swr_merge a (rd (a AND NOT 3) s) v"]) blast
  obtain t where t: "wr ((a + 3) AND NOT 3) (swl_merge (a + 3) (rd ((a + 3) AND NOT 3) s1) v) s1 = Some t"
    "\<And>b. live b t = live b s1"
    "\<And>b. live b s1 \<Longrightarrow> rd b t = (if loc b = loc ((a + 3) AND NOT 3)
       then swl_merge (a + 3) (rd ((a + 3) AND NOT 3) s1) v else rd b s1)"
    by (rule wr_cases [of "(a + 3) AND NOT 3" s1 "swl_merge (a + 3) (rd ((a + 3) AND NOT 3) s1) v"])
      (simp only: s1(2) assms(2), blast)
  have run: "ustore a v s = Some t" by (simp only: ustore_def s1(1) t(1) bind.simps)
  have "uload a t x = v"
  proof (cases "a AND 3 = 0")
    case True
    then have three: "(a + 3) AND 3 = 3" using low_bits_plus_3 [of a] by force
    have "rd ((a + 3) AND NOT 3) t = v"
      using t(3) [of "(a + 3) AND NOT 3"] s1(2) assms(2) three by (simp only: swl_merge_def) simp
    then show ?thesis using three by (simp only: uload_def lwl_merge_def) simp
  next
    case False
    then show ?thesis
      using assms t(3) s1(2,3) unaligned_merge [OF False] by (simp add: uload_def)
  qed
  then show ?thesis using run t(2,3) s1(2,3) by auto
qed

end

interpretation bus_mem: word_memory bus_word "WriteWord p d" writable translate_addr for p d
proof unfold_locales
  fix a v and s :: "'a machine_scheme"
  assume w: "writable a s"
  obtain t where t: "WriteWord p d a v s = Some t" using WriteWord_bus [OF w] by blast
  have "cpu t = cpu s" "b AND 3 = 0 \<and> (in_ram (translate_addr b) \<or> in_scratch (translate_addr b)) \<longrightarrow>
       bus_word b t = (if translate_addr b = translate_addr a then v else bus_word b s)" for b
    using WriteWord_bus [OF w, of p d v b] t by auto
  then show "\<exists>t. WriteWord p d a v s = Some t \<and> (\<forall>b. writable b t = writable b s) \<and>
      (\<forall>b. writable b s \<longrightarrow> bus_word b t = (if translate_addr b = translate_addr a then v else bus_word b s))"
    using t by (auto simp: writable_def cache_isolated_def)
qed

lemma ReadWord_writable: "writable a s \<Longrightarrow> ReadWord d a s = (bus_word a s, s)"
  by (simp add: writable_def ReadWord_bus)

text \<open>
  C34. Memory. A word written to main memory or the scratchpad is read back at every address of the same
  physical location, whichever segment names it; every other word of main memory and scratchpad keeps
  its value; and reading changes nothing.
\<close>

theorem bus_read_back:
  assumes "writable a s"
  shows "\<exists>t. WriteWord p d a v s = Some t \<and> (\<forall>b. writable b s \<longrightarrow>
    ReadWord d b t = (if translate_addr b = translate_addr a then v else fst (ReadWord d b s), t))"
  using bus_mem.wr_live [OF assms, of p d v] ReadWord_writable by (fastforce simp: ReadWord_writable)

lemma translate_next: "translate_addr (x + 4) \<noteq> translate_addr x"
proof -
  have m: "translate_addr y = take_bit 29 y" for y by (simp add: translate_addr_def take_bit_eq_mask mask_eq_exp_minus_1)
  have "unat (take_bit 29 y) = unat y mod 2 ^ 29" for y :: u32
    by (simp only: unsigned_take_bit_eq) (simp add: take_bit_eq_mod)
  moreover have "unat (x + 4) mod 2 ^ 29 = (unat x + 4) mod 2 ^ 29"
    by (simp add: unat_word_ariths mod_mod_cancel)
  moreover have "(k + 4) mod 536870912 \<noteq> k mod (536870912 :: nat)" for k
    using mod_eq_dvd_iff_nat [of k "k + 4" 536870912] by (simp add: dvd_imp_le nat_dvd_not_less)
  ultimately show ?thesis unfolding m by (simp add: word_unat_eq_iff)
qed

lemma align_up: "(a :: u32) AND 3 \<noteq> 0 \<Longrightarrow> (a + 3) AND NOT 3 = (a AND NOT 3) + 4"
  using low_bits_plus_3 [of a] align_eq [of a] align_eq [of "a + 3"] by auto

text \<open>
  C35. Unaligned words. The pair of unaligned stores followed by the pair of unaligned loads at the same
  address returns the stored word, at every alignment, in main memory and in the scratchpad, and leaves
  every other aligned word alone.
\<close>

theorem bus_unaligned_roundtrip:
  assumes "writable (a AND NOT 3) s" "writable ((a + 3) AND NOT 3) s"
  shows "\<exists>t. Option.bind (Helper_SWR p d a v s) (Helper_SWL p d (a + 3) v) = Some t \<and>
    fst (Helper_LWL d (a + 3) (fst (Helper_LWR d a x t)) t) = v \<and>
    (\<forall>b. writable b s \<and> translate_addr b \<noteq> translate_addr (a AND NOT 3) \<and>
       translate_addr b \<noteq> translate_addr ((a + 3) AND NOT 3) \<longrightarrow> ReadWord d b t = (fst (ReadWord d b s), t))"
proof -
  have "a AND 3 = 0 \<or> translate_addr (a AND NOT 3) \<noteq> translate_addr ((a + 3) AND NOT 3)"
    using align_up [of a] translate_next [of "a AND NOT 3"] by metis
  from bus_mem.uload_ustore [OF assms this, of p d v x]
  obtain t where t: "bus_mem.ustore p d a v s = Some t" "bus_mem.uload a t x = v" "\<And>b. writable b t = writable b s"
    "\<And>b. writable b s \<Longrightarrow> translate_addr b \<noteq> translate_addr (a AND NOT 3) \<Longrightarrow>
       translate_addr b \<noteq> translate_addr ((a + 3) AND NOT 3) \<Longrightarrow> bus_word b t = bus_word b s" by blast
  have r: "ReadWord d b u = (bus_word b u, u)" if "writable b s" "\<And>b. writable b u = writable b s" for b u
    using that ReadWord_writable by blast
  obtain s1 where s1: "WriteWord p d (a AND NOT 3) (swr_merge a (bus_word (a AND NOT 3) s) v) s = Some s1"
    "\<And>b. writable b s1 = writable b s"
    by (rule bus_mem.wr_cases [OF assms(1)]) blast
  have "Option.bind (Helper_SWR p d a v s) (Helper_SWL p d (a + 3) v) = bus_mem.ustore p d a v s"
    by (simp only: bus_mem.ustore_def Helper_SWR_def Helper_SWL_def Let_def r [OF assms(1) refl] s1 bind.simps case_prod_conv
        r [OF assms(2) s1(2)])
  moreover have "fst (Helper_LWL d (a + 3) (fst (Helper_LWR d a x t)) t) = bus_mem.uload a t x"
    by (simp only: bus_mem.uload_def Helper_LWL_def Helper_LWR_def r [OF assms(1) t(3)] r [OF assms(2) t(3)] fst_apfst fst_conv)
  ultimately show ?thesis using t r [OF _ t(3)] r [OF _ refl] by auto
qed

text \<open>The transfer of the ordering table writes main memory as the bus does.\<close>

lemma WriteWord_RAM: "a AND 3 = 0 \<Longrightarrow> in_ram (translate_addr a) \<Longrightarrow> WriteWord p d a v s = Some (RAM_WriteWord a v s)"
  by (simp add: WriteWord_def RAM_WriteWord_def Let_def translate_addr_def)

lemma load_merge_cases:
  "a AND 3 = 0 \<Longrightarrow> lwl_merge a w r = push_bit 24 (w AND 0x000000FF) OR (r AND 0x00FFFFFF)"
  "a AND 3 = 1 \<Longrightarrow> lwl_merge a w r = push_bit 16 (w AND 0x0000FFFF) OR (r AND 0x0000FFFF)"
  "a AND 3 = 2 \<Longrightarrow> lwl_merge a w r = push_bit 8 (w AND 0x00FFFFFF) OR (r AND 0x000000FF)"
  "a AND 3 = 3 \<Longrightarrow> lwl_merge a w r = w"
  "a AND 3 = 0 \<Longrightarrow> lwr_merge a w r = w"
  "a AND 3 = 1 \<Longrightarrow> lwr_merge a w r = drop_bit 8 w OR (r AND 0xFF000000)"
  "a AND 3 = 2 \<Longrightarrow> lwr_merge a w r = drop_bit 16 w OR (r AND 0xFFFF0000)"
  "a AND 3 = 3 \<Longrightarrow> lwr_merge a w r = drop_bit 24 w OR (r AND 0xFFFFFF00)"
  by (simp_all add: lwl_merge_def lwr_merge_def)

lemma unaligned_bytes:
  "lwl_merge (a + 3) (load32 m ((a + 3) AND NOT 3)) (lwr_merge a (load32 m (a AND NOT 3)) x) = load32 m a"
proof -
  consider "a AND 3 = 0" "(a + 3) AND 3 = 3" | "a AND 3 = 1" "(a + 3) AND 3 = 0" |
    "a AND 3 = 2" "(a + 3) AND 3 = 1" | "a AND 3 = 3" "(a + 3) AND 3 = 2"
    using low_bits_plus_3 [of a] by blast
  then show ?thesis
    unfolding u32_eq_bits [of _ "load32 m a"] align_eq
    by cases (simp_all only: load_merge_cases, simp_all add: load32_def bit_simps add.commute)
qed

lemma translate_no_carry:
  assumes "translate_addr a < 0x1FFFFFFC"
  shows "translate_addr (a + 3) = translate_addr a + 3"
proof -
  have m: "translate_addr y = take_bit 29 y" for y by (simp add: translate_addr_def take_bit_eq_mask mask_eq_exp_minus_1)
  have u: "unat (take_bit 29 y) = unat y mod 2 ^ 29" for y :: u32
    by (simp only: unsigned_take_bit_eq) (simp add: take_bit_eq_mod)
  have "unat (take_bit 29 a + 3) = unat (take_bit 29 a) + 3"
    using unat_add_of_nat [of "take_bit 29 a" 3] u [of a] by simp
  moreover have "unat (take_bit 29 (take_bit 29 a + 3)) = (unat (take_bit 29 a) + 3) mod 2 ^ 29"
    by (simp only: u calculation)
  moreover have "unat (take_bit 29 a) + 3 < 2 ^ 29" using assms by (simp add: m word_less_nat_alt)
  ultimately have "take_bit 29 (take_bit 29 a + 3) = take_bit 29 a + 3" by (simp add: word_unat_eq_iff)
  then show ?thesis using take_bit_add_u32 [of 29 a 3] by (simp add: m)
qed

text \<open>
  Unaligned loads, byte by byte. At any address of main memory whose four bytes lie in main memory, the
  pair of unaligned loads assembles exactly these four bytes, least significant first, and changes nothing,
  whatever the register held before.
\<close>

theorem bus_unaligned_load:
  assumes "in_ram (translate_addr a)" "in_ram (translate_addr a + 3)"
  shows "let (w, s1) = Helper_LWR d a x s in Helper_LWL d (a + 3) w s1 = (load32 (psx_ram s) (translate_addr a), s)"
proof -
  let ?p = "translate_addr a"
  have low: "?p AND 3 = a AND 3" "(?p + 3) AND 3 = (a + 3) AND 3"
    using translate_aligned [of a] low_bits_plus_3 [of a] low_bits_plus_3 [of ?p] by auto
  have n: "translate_addr (a + 3) = ?p + 3"
    using assms(1) by (intro translate_no_carry) (simp add: region_defs word_less_nat_alt)
  have al: "translate_addr (y AND NOT 3) = translate_addr y AND NOT 3" for y
    unfolding translate_addr_def by (simp only: and.assoc and.commute [of "NOT 3"])
  have le: "x AND NOT 3 \<le> x" for x :: u32 by (rule word_and_le2)
  have in1: "in_ram (?p AND NOT 3)" "in_ram ((?p + 3) AND NOT 3)"
    using order_le_less_trans [OF le] assms unfolding in_ram_def by blast+
  have rd: "ReadWord d (y AND NOT 3) s = (load32 (psx_ram s) (translate_addr y AND NOT 3), s)"
    if "in_ram (translate_addr y AND NOT 3)" for y
    using that ReadWord_bus [of "y AND NOT 3" d s] al [of y] by (simp add: and.assoc bus_word_def Let_def)
  have "lwl_merge (a + 3) w w' = lwl_merge (?p + 3) w w'" "lwr_merge a w w' = lwr_merge ?p w w'" for w w'
    unfolding lwl_merge_def lwr_merge_def low by (rule refl)+
  then show ?thesis
    using rd [of a] rd [of "a + 3"] in1 n unaligned_bytes [of ?p "psx_ram s" x]
    by (simp only: Helper_LWR_def Helper_LWL_def Let_def apfst_conv case_prod_conv)
qed

section \<open>Errors and isolation\<close>

lemma address_error_frame:
  "psx_ram (address_error k a s) = psx_ram s" "core.more (address_error k a s) = core.more s"
  "regs (cpu (address_error k a s)) = regs (cpu s)"
  "cop0 (cpu (address_error k a s)) PSX_COP0_BADVADDR = a"
  "cop0 (cpu (address_error k a s)) PSX_COP0_EPC = current_pc (cpu s)"
  "drop_bit 2 (cop0 (cpu (address_error k a s)) PSX_COP0_CAUSE) AND 0x1F = k AND 0x1F"
  "k \<noteq> 0 \<Longrightarrow> pc (cpu (address_error k a s)) = (if bit (cop0 (cpu s) PSX_COP0_SR) 22 then 0xBFC00180 else 0x80000080)"
  by (simp_all add: address_error_def Let_def frame_simps state_simps exc_cause_facts(1) cop0_defs)
    (simp add: PSX_Exception_def Let_def frame_simps mask_simps exc_push_kernel cop0_defs)

text \<open>The state \<open>t\<close> is \<open>s\<close> after a trap with the given code at the given address.\<close>

definition trapped :: "u32 \<Rightarrow> u32 \<Rightarrow> 'a core_scheme \<Rightarrow> 'a core_scheme \<Rightarrow> bool" where
  "trapped code addr s t \<longleftrightarrow> cop0 (cpu t) PSX_COP0_BADVADDR = addr \<and> cop0 (cpu t) PSX_COP0_EPC = current_pc (cpu s) \<and>
     drop_bit 2 (cop0 (cpu t) PSX_COP0_CAUSE) AND 0x1F = code \<and> psx_ram t = psx_ram s \<and> core.more t = core.more s \<and>
     regs (cpu t) = regs (cpu s) \<and>
     pc (cpu t) = (if bit (cop0 (cpu s) PSX_COP0_SR) 22 then 0xBFC00180 else 0x80000080)"

lemma address_error_trapped: "trapped 4 a s (address_error 4 a s)" "trapped 5 a s (address_error 5 a s)"
  by (simp_all add: trapped_def address_error_frame)

text \<open>
  C36. Misaligned accesses. A misaligned load returns zero and raises an address error on load, a misaligned store
  an address error on store: the exception code is 4 or 5, the bad address and the address of the instruction
  are recorded, control goes to the general vector, and no memory, device or register is touched.
\<close>

theorem bus_address_error:
  assumes "addr AND 3 \<noteq> 0"
  shows "fst (ReadWord d addr s) = 0 \<and> trapped 4 addr s (snd (ReadWord d addr s)) \<and>
    (\<exists>t. WriteWord p d addr v s = Some t \<and> trapped 5 addr s t) \<and>
    (bit addr 0 \<longrightarrow> fst (ReadHalf d addr s) = 0 \<and> trapped 4 addr s (snd (ReadHalf d addr s)) \<and>
       (\<exists>t. WriteHalf p d addr h s = Some t \<and> trapped 5 addr s t))"
  using assms by (simp add: ReadWord_def WriteWord_def ReadHalf_def WriteHalf_def address_error_trapped mask_simps)

text \<open>
  Cache isolation. While the cache is isolated, every aligned store outside the uncached segment is
  swallowed; in the uncached segment isolation makes no difference to where a word goes.
\<close>

theorem bus_cache_isolation:
  assumes "bit (cop0 (cpu s) PSX_COP0_SR) 16"
  shows "(addr AND 0xE0000000 \<noteq> 0xA0000000 \<longrightarrow> WriteByte p d addr b s = Some s \<and>
      (addr AND 1 = 0 \<longrightarrow> WriteHalf p d addr h s = Some s) \<and> (addr AND 3 = 0 \<longrightarrow> WriteWord p d addr v s = Some s)) \<and>
    (addr AND 0xE0000000 = 0xA0000000 \<and> addr AND 3 = 0 \<and> in_ram (translate_addr addr) \<longrightarrow>
      map_option psx_ram (WriteWord p d addr v s) = Some (store32 (psx_ram s) (translate_addr addr) v))"
  using assms by (auto simp: WriteByte_def WriteHalf_def WriteWord_def cache_isolated_def mask_simps Let_def)

section \<open>Interrupt registers\<close>

text \<open>
  Acknowledging interrupts. Writing the status register keeps a line's bit only where a one is written, except
  that the drive's line stays up while the drive still asserts it, and that clearing the serial line while its
  interrupt is scheduled delivers that interrupt at once and cancels the event. The latches the recompiled
  code tests are brought up to date. Writing the mask stores its eleven lines and brings the latches up to date.
\<close>

theorem bus_interrupt_acknowledge:
  assumes "\<not> cache_isolated 0x1F801070 s"
  shows "\<exists>t. WriteWord p d 0x1F801070 v s = Some t \<and>
    (\<forall>n<11. bit (i_stat (cpu t)) n \<longleftrightarrow> bit (i_stat (cpu s)) n \<and> bit v n \<or> n = 2 \<and> cdrom_irq_active s \<or>
       n = 7 \<and> sio_irq_pending (sio s) \<and> \<not> bit v 7) \<and>
    irq_latched (cpu t) \<and> i_mask (cpu t) = i_mask (cpu s) \<and>
    (sio_irq_pending (sio t) \<longleftrightarrow> sio_irq_pending (sio s) \<and> bit v 7) \<and>
    (sio_irq_pending (sio s) \<and> \<not> bit v 7 \<longrightarrow> sched_pending t SCHED_EVENT_SIO_IRQ = None)"
proof -
  have iso: "\<not> cache_isolated 0x1F801070 s" using assms .
  have b7: "(w :: u32) AND 0x80 = 0 \<longleftrightarrow> \<not> bit w 7" for w using and_exp_eq_0_iff_not_bit [of w 7] by simp
  have b2: "(w :: u32) AND 4 = 0 \<longleftrightarrow> \<not> bit w 2" for w using and_exp_eq_0_iff_not_bit [of w 2] by simp
  have four: "bit (4 :: u32) n \<longleftrightarrow> n = 2" for n using bit_exp_iff [where 'a = u32, of 2 n] by (auto simp: possible_bit_word)
  have run: "WriteWord p d 0x1F801070 v s = Some (hw_write_istat v s)"
    using iso by (simp add: WriteWord_def WriteHardware_def hw_write_low_def Let_def translate_addr_def region_defs)
  define st where "st = (i_stat (cpu s) AND v) OR (if cdrom_irq_active s then 4 else 0)"
  have st: "(if cdrom_irq_active s \<and> (i_stat (cpu s) AND v) AND 4 = 0 then (i_stat (cpu s) AND v) OR 4 else i_stat (cpu s) AND v) = st"
    by (rule bit_word_eqI) (auto simp: st_def b2 bit_or_iff bit_and_iff four simp del: bit_numeral_word_iff)
  define s1 where "s1 = s\<lparr>cpu := (cpu s)\<lparr>i_stat := st\<rparr>\<rparr>"
  have istat: "bit st n \<longleftrightarrow> bit (i_stat (cpu s)) n \<and> bit v n \<or> n = 2 \<and> cdrom_irq_active s" for n
    by (auto simp: st_def bit_or_iff bit_and_iff four simp del: bit_numeral_word_iff)
  show ?thesis
  proof (cases "sio_irq_pending (sio s) \<and> \<not> bit v 7")
    case True
    define s2 where "s2 = Sched_Remove SCHED_EVENT_SIO_IRQ (s1\<lparr>sio := (sio s)\<lparr>sio_irq_pending := False, sio_irq_delay_cycle := 0\<rparr>\<rparr>)"
    have "hw_write_istat v s = SignalInterrupt 7 s2"
      using True by (simp add: hw_write_istat_def handle_sio_irq_ack_def Let_def st b7 s1_def s2_def)
    moreover have "irq_latched (cpu (SignalInterrupt 7 s2))" by (simp add: SignalInterrupt_def update_irq_latched)
    moreover have "bit (128 :: u32) n \<longleftrightarrow> n = 7" for n using bit_exp_iff [where 'a = u32, of 7 n] by (auto simp: possible_bit_word)
    ultimately show ?thesis
      using True run istat
      by (auto simp: state_simps frame_simps s2_def s1_def bit_or_iff sched_event_defs sched_pending_def SignalInterrupt_def
          update_irq_pending_def cap_cycles_for_irq_def Let_def simp del: bit_numeral_word_iff)
  next
    case False
    then have "hw_write_istat v s = update_irq_pending s1"
      by (auto simp: hw_write_istat_def handle_sio_irq_ack_def Let_def st b7 s1_def)
    then show ?thesis
      using False run istat update_irq_latched [of s1]
      by (auto simp: frame_simps s1_def update_irq_pending_def cap_cycles_for_irq_def Let_def)
  qed
qed

section \<open>Mirrors\<close>

text \<open>
  The memory map says that main memory is mirrored, and the page table maps the mirrors up to eight megabytes; the access
  functions read zero there and drop writes.
\<close>

lemma ram_mirror_unmapped:
  assumes "0x200000 \<le> translate_addr a" "translate_addr a < 0x800000" "a AND 3 = 0"
  shows "ReadWord d a s = (0, s)" "WriteWord p d a v s = Some s"
proof -
  have "\<not> in_ram (translate_addr a)" "\<not> in_bios (translate_addr a)" "\<not> in_scratch (translate_addr a)"
    "\<not> in_hw (translate_addr a)" "translate_addr a \<noteq> 0x1FFE0130"
    using assms(1,2) by (auto simp: region_defs word_less_nat_alt word_le_nat_alt)
  then show "ReadWord d a s = (0, s)" "WriteWord p d a v s = Some s"
    using assms(3) by (simp_all add: ReadWord_def WriteWord_def Let_def)
qed

lemma lut_ram_at: "lut_ram_page k l v =
  (if v - of_nat k \<in> {0x0000, 0x8000, 0xA000, 0x0020, 0x0040, 0x0060, 0x8020, 0x8040, 0x8060, 0xA020, 0xA040, 0xA060}
   then Some (RAM_page (of_nat k * 0x10000)) else l v)"
  by (auto simp: lut_ram_page_def Let_def diff_eq_eq)

lemma lut_bios_at: "lut_bios_page k l v = (if v - of_nat k \<in> {0x1FC0, 0x9FC0, 0xBFC0} then Some (BIOS_page (of_nat k * 0x10000)) else l v)"
  by (auto simp: lut_bios_page_def Let_def diff_eq_eq)

lemma page_table_mirror: "Init_MemoryLUT 0x8020 = Some (RAM_page 0)"
  by (simp add: Init_MemoryLUT_def lut_ram_at lut_bios_at upt_rec)

section \<open>Instances\<close>

definition machine_with :: "'a \<Rightarrow> 'a machine_scheme" where
  "machine_with x = dmachine_with \<lparr>psx_bios = (\<lambda>_. 0), scratchpad_buf = (\<lambda>_. 0), cache_ctrl = 0,
     mem_ctrl = (\<lambda>_. 0), ram_size = 0x00000B88, tty = [], \<dots> = x\<rparr>"

definition bus_machine :: machine where
  "bus_machine = machine_with ()"

lemma bus_machine_simps [simp]:
  "cop0 (cpu bus_machine) r = 0" "psx_ram bus_machine a = 0" "sio_irq_pending (sio bus_machine) = False"
  "cdrom_irq_active bus_machine = False" "i_stat (cpu bus_machine) = 0" "current_pc (cpu bus_machine) = 0"
  by (simp_all add: bus_machine_def machine_with_def dmachine_with_def cmachine_with_def smachine_with_def
      tmachine_with_def cpu_zero_def sio_zero_def)

lemma bus_machine_writable:
  "a AND 3 = 0 \<Longrightarrow> in_ram (translate_addr a) \<or> in_scratch (translate_addr a) \<Longrightarrow> writable a bus_machine"
  by (simp add: writable_def cache_isolated_def)

theorem bus_read_back_witness:
  "\<exists>t. WriteWord one_pad idle_devices 0x80000100 42 bus_machine = Some t \<and> ReadWord idle_devices 0xA0000100 t = (42, t)"
proof -
  have "writable 0x80000100 bus_machine" "writable 0xA0000100 bus_machine"
    by (rule bus_machine_writable; simp add: translate_addr_def region_defs)+
  then show ?thesis
    using bus_read_back [of "0x80000100" bus_machine one_pad idle_devices 42] by (auto simp: translate_addr_def)
qed

theorem bus_unaligned_roundtrip_witness:
  "\<exists>t. Option.bind (Helper_SWR one_pad idle_devices 0x1F800001 0x12345678 bus_machine)
       (Helper_SWL one_pad idle_devices (0x1F800001 + 3) 0x12345678) = Some t \<and>
     fst (Helper_LWL idle_devices (0x1F800001 + 3) (fst (Helper_LWR idle_devices 0x1F800001 0 t)) t) = 0x12345678"
proof -
  have "writable (0x1F800001 AND NOT 3) bus_machine" "writable ((0x1F800001 + 3) AND NOT 3) bus_machine"
    by (rule bus_machine_writable; simp add: translate_addr_def region_defs)+
  from bus_unaligned_roundtrip [OF this, of one_pad idle_devices "0x12345678" 0] show ?thesis by blast
qed

theorem bus_unaligned_load_witness:
  "let (w, s1) = Helper_LWR idle_devices 0x80000101 0 bus_machine
   in Helper_LWL idle_devices (0x80000101 + 3) w s1 = (load32 (psx_ram bus_machine) 0x101, bus_machine)"
  using bus_unaligned_load [of "0x80000101" idle_devices 0 bus_machine] by (simp add: translate_addr_def region_defs)

theorem bus_address_error_witness:
  "fst (ReadWord idle_devices 0x80000102 bus_machine) = 0 \<and>
   cop0 (cpu (snd (ReadWord idle_devices 0x80000102 bus_machine))) PSX_COP0_BADVADDR = 0x80000102"
  using bus_address_error [of "0x80000102" idle_devices bus_machine one_pad 0 0] by (simp add: trapped_def)

definition isolated_machine :: machine where
  "isolated_machine = bus_machine\<lparr>cpu := (cpu bus_machine)\<lparr>cop0 := (\<lambda>_. 0x10000)\<rparr>\<rparr>"

theorem bus_cache_isolation_witness:
  "WriteWord one_pad idle_devices 0x80000100 7 isolated_machine = Some isolated_machine"
  using bus_cache_isolation [of isolated_machine "0x80000100" one_pad idle_devices 0 0 7]
  by (simp add: isolated_machine_def)

theorem bus_interrupt_acknowledge_witness:
  "\<exists>t. WriteWord one_pad idle_devices 0x1F801070 0 bus_machine = Some t \<and> irq_latched (cpu t)"
  using bus_interrupt_acknowledge [of bus_machine one_pad idle_devices 0] by (auto simp: cache_isolated_def)

end
