(* ===== verification/Gte.thy ===== *)
theory Gte
  imports Cpu
begin

text \<open>
  The geometry engine of \<^verbatim>\<open>src/gte.c\<close>: its data and control registers, the saturating
  arithmetic with its flag register, the table-driven division, the twenty-two commands and the entry points the
  recompiler calls.  Commands work on the two register files and the flag word (\<^verbatim>\<open>gte_flag\<close>,
  which every command clears first).  Values of type \<^verbatim>\<open>int64_t\<close> are integers; that none of
  them leaves the 64-bit range is a theorem.  Conversions to narrower types truncate, as the
  compilers used for this code do.  The single-precision paths for the vector units of the two consoles
  (\<^verbatim>\<open>gte_use_vu0\<close>, \<^verbatim>\<open>gte_use_vfpu\<close>) are not modelled: this is the exact path that is
  taken when they are off.

  Shown in the theories of its laws: the registers keep their formats under every command and register write; matrix
  multiplication computes the exact sums, saturates them and reports saturation and overflow faithfully; no
  accumulator overflows; the division is within its table, terminates, and is accurate; counting leading bits
  terminates and is correct; colours survive the five-bit format; the recompiler's entry points do what
  the dispatcher does.
\<close>

section \<open>Registers\<close>

abbreviation d_VXY0 :: u32 where "d_VXY0 \<equiv> 0"
abbreviation d_VZ0 :: u32 where "d_VZ0 \<equiv> 1"
abbreviation d_VXY1 :: u32 where "d_VXY1 \<equiv> 2"
abbreviation d_VZ1 :: u32 where "d_VZ1 \<equiv> 3"
abbreviation d_VXY2 :: u32 where "d_VXY2 \<equiv> 4"
abbreviation d_VZ2 :: u32 where "d_VZ2 \<equiv> 5"
abbreviation d_RGBC :: u32 where "d_RGBC \<equiv> 6"
abbreviation d_OTZ :: u32 where "d_OTZ \<equiv> 7"
abbreviation d_IR0 :: u32 where "d_IR0 \<equiv> 8"
abbreviation d_IR1 :: u32 where "d_IR1 \<equiv> 9"
abbreviation d_IR2 :: u32 where "d_IR2 \<equiv> 10"
abbreviation d_IR3 :: u32 where "d_IR3 \<equiv> 11"
abbreviation d_SXY0 :: u32 where "d_SXY0 \<equiv> 12"
abbreviation d_SXY1 :: u32 where "d_SXY1 \<equiv> 13"
abbreviation d_SXY2 :: u32 where "d_SXY2 \<equiv> 14"
abbreviation d_SXYP :: u32 where "d_SXYP \<equiv> 15"
abbreviation d_SZ0 :: u32 where "d_SZ0 \<equiv> 16"
abbreviation d_SZ1 :: u32 where "d_SZ1 \<equiv> 17"
abbreviation d_SZ2 :: u32 where "d_SZ2 \<equiv> 18"
abbreviation d_SZ3 :: u32 where "d_SZ3 \<equiv> 19"
abbreviation d_RGB0 :: u32 where "d_RGB0 \<equiv> 20"
abbreviation d_RGB1 :: u32 where "d_RGB1 \<equiv> 21"
abbreviation d_RGB2 :: u32 where "d_RGB2 \<equiv> 22"
abbreviation d_RES1 :: u32 where "d_RES1 \<equiv> 23"
abbreviation d_MAC0 :: u32 where "d_MAC0 \<equiv> 24"
abbreviation d_MAC1 :: u32 where "d_MAC1 \<equiv> 25"
abbreviation d_MAC2 :: u32 where "d_MAC2 \<equiv> 26"
abbreviation d_MAC3 :: u32 where "d_MAC3 \<equiv> 27"
abbreviation d_IRGB :: u32 where "d_IRGB \<equiv> 28"
abbreviation d_ORGB :: u32 where "d_ORGB \<equiv> 29"
abbreviation d_LZCS :: u32 where "d_LZCS \<equiv> 30"
abbreviation d_LZCR :: u32 where "d_LZCR \<equiv> 31"

abbreviation c_RT11RT12 :: u32 where "c_RT11RT12 \<equiv> 0"
abbreviation c_RT13RT21 :: u32 where "c_RT13RT21 \<equiv> 1"
abbreviation c_RT22RT23 :: u32 where "c_RT22RT23 \<equiv> 2"
abbreviation c_RT31RT32 :: u32 where "c_RT31RT32 \<equiv> 3"
abbreviation c_RT33 :: u32 where "c_RT33 \<equiv> 4"
abbreviation c_TRX :: u32 where "c_TRX \<equiv> 5"
abbreviation c_TRY :: u32 where "c_TRY \<equiv> 6"
abbreviation c_TRZ :: u32 where "c_TRZ \<equiv> 7"
abbreviation c_L11L12 :: u32 where "c_L11L12 \<equiv> 8"
abbreviation c_L13L21 :: u32 where "c_L13L21 \<equiv> 9"
abbreviation c_L22L23 :: u32 where "c_L22L23 \<equiv> 10"
abbreviation c_L31L32 :: u32 where "c_L31L32 \<equiv> 11"
abbreviation c_L33 :: u32 where "c_L33 \<equiv> 12"
abbreviation c_RBK :: u32 where "c_RBK \<equiv> 13"
abbreviation c_GBK :: u32 where "c_GBK \<equiv> 14"
abbreviation c_BBK :: u32 where "c_BBK \<equiv> 15"
abbreviation c_LR1LR2 :: u32 where "c_LR1LR2 \<equiv> 16"
abbreviation c_LR3LG1 :: u32 where "c_LR3LG1 \<equiv> 17"
abbreviation c_LG2LG3 :: u32 where "c_LG2LG3 \<equiv> 18"
abbreviation c_LB1LB2 :: u32 where "c_LB1LB2 \<equiv> 19"
abbreviation c_LB3 :: u32 where "c_LB3 \<equiv> 20"
abbreviation c_RFC :: u32 where "c_RFC \<equiv> 21"
abbreviation c_GFC :: u32 where "c_GFC \<equiv> 22"
abbreviation c_BFC :: u32 where "c_BFC \<equiv> 23"
abbreviation c_OFX :: u32 where "c_OFX \<equiv> 24"
abbreviation c_OFY :: u32 where "c_OFY \<equiv> 25"
abbreviation c_H :: u32 where "c_H \<equiv> 26"
abbreviation c_DQA :: u32 where "c_DQA \<equiv> 27"
abbreviation c_DQB :: u32 where "c_DQB \<equiv> 28"
abbreviation c_ZSF3 :: u32 where "c_ZSF3 \<equiv> 29"
abbreviation c_ZSF4 :: u32 where "c_ZSF4 \<equiv> 30"
abbreviation c_FLAG :: u32 where "c_FLAG \<equiv> 31"

record gte =
  gte_data :: "u32 \<Rightarrow> u32"
  gte_ctrl :: "u32 \<Rightarrow> u32"
  gte_flag :: u32

abbreviation set_data :: "u32 \<Rightarrow> u32 \<Rightarrow> gte \<Rightarrow> gte" where
  "set_data r v g \<equiv> g\<lparr>gte_data := (gte_data g)(r := v)\<rparr>"

text \<open>\<^verbatim>\<open>(int16_t)(v & 0xFFFF)\<close>, \<^verbatim>\<open>(int16_t)(v >> 16)\<close> and the cast of a stored value to
  \<^verbatim>\<open>int32_t\<close> after a conversion from 64 bits.\<close>

definition lo16 :: "u32 \<Rightarrow> int" where "lo16 v = sint (ucast v :: u16)"
definition hi16 :: "u32 \<Rightarrow> int" where "hi16 v = sint (ucast (drop_bit 16 v) :: u16)"
definition to_int32 :: "int \<Rightarrow> int" where "to_int32 x = sint (word_of_int x :: u32)"

section \<open>Flags and saturation\<close>

definition flag_set :: "nat \<Rightarrow> u32 \<Rightarrow> u32" where
  "flag_set n f = f OR push_bit n 1"

definition flag_update_bit31 :: "u32 \<Rightarrow> u32" where
  "flag_update_bit31 f = (if f AND 0x7F87E000 \<noteq> 0 then f OR 0x80000000 else f)"

definition check_mac_overflow :: "int \<Rightarrow> nat \<Rightarrow> u32 \<Rightarrow> u32" where
  "check_mac_overflow val n f =
     (let f1 = (if val > 0x7FFFFFFFFFF then flag_set (30 + 1 - n) f else f)
      in if val < - 0x80000000000 then flag_set (27 + 1 - n) f1 else f1)"

definition wrap44 :: "int \<Rightarrow> int" where
  "wrap44 val = signed_take_bit 43 val"

definition check_mac0_overflow :: "int \<Rightarrow> u32 \<Rightarrow> u32" where
  "check_mac0_overflow val f =
     (let f1 = (if val > 0x7FFFFFFF then flag_set 16 f else f)
      in if val < - 0x80000000 then flag_set 15 f1 else f1)"

definition ir_low :: "bool \<Rightarrow> int" where "ir_low lm = (if lm then 0 else - 0x8000)"

definition saturate_ir :: "int \<Rightarrow> nat \<Rightarrow> bool \<Rightarrow> u32 \<Rightarrow> int \<times> u32" where
  "saturate_ir val n lm f =
     (let low = ir_low lm; f1 = (if val < low \<or> val > 0x7FFF then flag_set (24 + 1 - n) f else f)
      in if val < low then (low, f1) else if val > 0x7FFF then (0x7FFF, f1) else (val, f1))"

definition saturate_ir0 :: "int \<Rightarrow> u32 \<Rightarrow> int \<times> u32" where
  "saturate_ir0 val f =
     (if val < 0 then (0, flag_set 12 f) else if val > 0x1000 then (0x1000, flag_set 12 f) else (val, f))"

definition saturate_sx :: "int \<Rightarrow> u32 \<Rightarrow> int \<times> u32" where
  "saturate_sx val f =
     (if val < - 0x400 then (- 0x400, flag_set 14 f) else if val > 0x3FF then (0x3FF, flag_set 14 f) else (val, f))"

definition saturate_sy :: "int \<Rightarrow> u32 \<Rightarrow> int \<times> u32" where
  "saturate_sy val f =
     (if val < - 0x400 then (- 0x400, flag_set 13 f) else if val > 0x3FF then (0x3FF, flag_set 13 f) else (val, f))"

definition saturate_sz :: "int \<Rightarrow> u32 \<Rightarrow> int \<times> u32" where
  "saturate_sz val f =
     (if val < 0 then (0, flag_set 18 f) else if val > 0xFFFF then (0xFFFF, flag_set 18 f) else (val, f))"

definition saturate_color :: "nat \<Rightarrow> int \<Rightarrow> u32 \<Rightarrow> u8 \<times> u32" where
  "saturate_color ch val f =
     (if val < 0 then (0, flag_set (21 - ch) f)
      else if val > 0xFF then (0xFF, flag_set (21 - ch) f) else (word_of_int val, f))"

section \<open>Matrices and vectors\<close>

definition get_matrix :: "nat \<Rightarrow> nat \<Rightarrow> nat \<Rightarrow> gte \<Rightarrow> int" where
  "get_matrix mx row col g =
     (let i = row * 3 + col; r = uint (gte_data g d_RGBC AND 0xFF)
      in if mx \<le> 2
         then let reg = of_nat (8 * mx + i div 2) in if odd i then hi16 (gte_ctrl g reg) else lo16 (gte_ctrl g reg)
         else if i = 0 then - (r * 16)
         else if i = 1 then r * 16
         else if i = 2 then lo16 (gte_data g d_IR0)
         else if i \<le> 5 then lo16 (gte_ctrl g c_RT13RT21)
         else if i \<le> 8 then lo16 (gte_ctrl g c_RT22RT23)
         else 0)"

definition get_vector :: "nat \<Rightarrow> nat \<Rightarrow> gte \<Rightarrow> int" where
  "get_vector v k g =
     (if v \<le> 2
      then let xy = of_nat (2 * v) in
           if k = 0 then lo16 (gte_data g xy) else if k = 1 then hi16 (gte_data g xy)
           else lo16 (gte_data g (xy + 1))
      else if v = 3
      then if k = 0 then lo16 (gte_data g d_IR1) else if k = 1 then lo16 (gte_data g d_IR2)
           else lo16 (gte_data g d_IR3)
      else 0)"

definition get_translation :: "nat \<Rightarrow> nat \<Rightarrow> gte \<Rightarrow> int" where
  "get_translation cv k g =
     (if cv = 0 then sint (gte_ctrl g (c_TRX + of_nat k))
      else if cv = 1 then sint (gte_ctrl g (c_RBK + of_nat k))
      else if cv = 2 then sint (gte_ctrl g (c_RFC + of_nat k))
      else 0)"

text \<open>\<^verbatim>\<open>trunc44\<close> has the body of \<open>wrap44\<close>; \<^verbatim>\<open>>> 12\<close> on a signed value is
  division rounding down.\<close>

definition mac_shift :: "int \<Rightarrow> bool \<Rightarrow> int" where
  "mac_shift val sf = (if sf then val div 0x1000 else val)"

section \<open>Division\<close>

definition gte_unr_table :: "u32 list" where
  "gte_unr_table =
    [0xFF, 0xFD, 0xFB, 0xF9, 0xF7, 0xF5, 0xF3, 0xF1, 0xEF, 0xEE, 0xEC, 0xEA, 0xE8, 0xE6, 0xE4, 0xE3,
     0xE1, 0xDF, 0xDD, 0xDC, 0xDA, 0xD8, 0xD6, 0xD5, 0xD3, 0xD1, 0xD0, 0xCE, 0xCD, 0xCB, 0xC9, 0xC8,
     0xC6, 0xC5, 0xC3, 0xC1, 0xC0, 0xBE, 0xBD, 0xBB, 0xBA, 0xB8, 0xB7, 0xB5, 0xB4, 0xB2, 0xB1, 0xB0,
     0xAE, 0xAD, 0xAB, 0xAA, 0xA9, 0xA7, 0xA6, 0xA4, 0xA3, 0xA2, 0xA0, 0x9F, 0x9E, 0x9C, 0x9B, 0x9A,
     0x99, 0x97, 0x96, 0x95, 0x94, 0x92, 0x91, 0x90, 0x8F, 0x8D, 0x8C, 0x8B, 0x8A, 0x89, 0x87, 0x86,
     0x85, 0x84, 0x83, 0x82, 0x81, 0x7F, 0x7E, 0x7D, 0x7C, 0x7B, 0x7A, 0x79, 0x78, 0x77, 0x75, 0x74,
     0x73, 0x72, 0x71, 0x70, 0x6F, 0x6E, 0x6D, 0x6C, 0x6B, 0x6A, 0x69, 0x68, 0x67, 0x66, 0x65, 0x64,
     0x63, 0x62, 0x61, 0x60, 0x5F, 0x5E, 0x5D, 0x5D, 0x5C, 0x5B, 0x5A, 0x59, 0x58, 0x57, 0x56, 0x55,
     0x54, 0x53, 0x53, 0x52, 0x51, 0x50, 0x4F, 0x4E, 0x4D, 0x4D, 0x4C, 0x4B, 0x4A, 0x49, 0x48, 0x48,
     0x47, 0x46, 0x45, 0x44, 0x43, 0x43, 0x42, 0x41, 0x40, 0x3F, 0x3F, 0x3E, 0x3D, 0x3C, 0x3C, 0x3B,
     0x3A, 0x39, 0x39, 0x38, 0x37, 0x36, 0x36, 0x35, 0x34, 0x33, 0x33, 0x32, 0x31, 0x31, 0x30, 0x2F,
     0x2E, 0x2E, 0x2D, 0x2C, 0x2C, 0x2B, 0x2A, 0x2A, 0x29, 0x28, 0x28, 0x27, 0x26, 0x26, 0x25, 0x24,
     0x24, 0x23, 0x22, 0x22, 0x21, 0x20, 0x20, 0x1F, 0x1E, 0x1E, 0x1D, 0x1D, 0x1C, 0x1B, 0x1B, 0x1A,
     0x19, 0x19, 0x18, 0x18, 0x17, 0x16, 0x16, 0x15, 0x15, 0x14, 0x14, 0x13, 0x12, 0x12, 0x11, 0x11,
     0x10, 0x0F, 0x0F, 0x0E, 0x0E, 0x0D, 0x0D, 0x0C, 0x0C, 0x0B, 0x0A, 0x0A, 0x09, 0x09, 0x08, 0x08,
     0x07, 0x07, 0x06, 0x06, 0x05, 0x05, 0x04, 0x04, 0x03, 0x03, 0x02, 0x02, 0x01, 0x01, 0x00, 0x00,
     0x00]"

text \<open>The normalisation loop: shift the divisor up to its top bit.\<close>

function gte_norm :: "nat \<Rightarrow> u16 \<Rightarrow> nat \<times> u16" where
  "gte_norm z d = (if z < 16 \<and> d AND 0x8000 = 0 then gte_norm (z + 1) (push_bit 1 d) else (z, d))"
  by pat_completeness auto
termination by (relation "measure (\<lambda>(z, _). 16 - z)") auto

declare gte_norm.simps [simp del]

definition gte_divide :: "u16 \<Rightarrow> u16 \<Rightarrow> u32 \<Rightarrow> u32 \<times> u32" where
  "gte_divide h sz3 f =
     (if uint h < uint sz3 * 2
      then let (z, d) = gte_norm 0 sz3; n = push_bit z (ucast h :: u64); du = (ucast d :: u32);
               u_val = gte_unr_table ! unat (drop_bit 7 (du - 0x7FC0)) + 0x101;
               du1 = drop_bit 8 (0x2000080 - du * u_val);
               du2 = drop_bit 8 (0x80 + du1 * u_val);
               n1 = drop_bit 16 (n * ucast du2 + 0x8000)
           in (ucast (if n1 > 0x1FFFF then 0x1FFFF else n1), f)
      else (0x1FFFF, flag_set 17 f))"

section \<open>Result queues\<close>

definition push_sxy :: "int \<Rightarrow> int \<Rightarrow> gte \<Rightarrow> gte" where
  "push_sxy sx sy g =
     (let d = gte_data g; (x, f1) = saturate_sx sx (gte_flag g); (y, f2) = saturate_sy sy f1
      in g\<lparr>gte_data := d(d_SXY0 := d d_SXY1, d_SXY1 := d d_SXY2,
             d_SXY2 := ucast (word_of_int x :: u16) OR push_bit 16 (ucast (word_of_int y :: u16))),
           gte_flag := f2\<rparr>)"

definition push_sz :: "int \<Rightarrow> gte \<Rightarrow> gte" where
  "push_sz val g =
     (let d = gte_data g; (z, f) = saturate_sz val (gte_flag g)
      in g\<lparr>gte_data := d(d_SZ0 := d d_SZ1, d_SZ1 := d d_SZ2, d_SZ2 := d d_SZ3, d_SZ3 := word_of_int z),
           gte_flag := f\<rparr>)"

definition push_color :: "gte \<Rightarrow> gte" where
  "push_color g =
     (let d = gte_data g;
          (r, f1) = saturate_color 0 (sint (d d_MAC1) div 16) (gte_flag g);
          (gr, f2) = saturate_color 1 (sint (d d_MAC2) div 16) f1;
          (b, f3) = saturate_color 2 (sint (d d_MAC3) div 16) f2;
          code = drop_bit 24 (d d_RGBC) AND 0xFF
      in g\<lparr>gte_data := d(d_RGB0 := d d_RGB1, d_RGB1 := d d_RGB2,
             d_RGB2 := ucast r OR push_bit 8 (ucast gr) OR push_bit 16 (ucast b) OR push_bit 24 code),
           gte_flag := f3\<rparr>)"

definition store_mac_ir :: "int \<Rightarrow> int \<Rightarrow> int \<Rightarrow> bool \<Rightarrow> bool \<Rightarrow> gte \<Rightarrow> gte" where
  "store_mac_ir m1 m2 m3 sf lm g =
     (let f0 = check_mac_overflow m3 3 (check_mac_overflow m2 2 (check_mac_overflow m1 1 (gte_flag g)));
          w1 = word_of_int (mac_shift m1 sf); w2 = word_of_int (mac_shift m2 sf); w3 = word_of_int (mac_shift m3 sf);
          (i1, f1) = saturate_ir (sint w1) 1 lm f0;
          (i2, f2) = saturate_ir (sint w2) 2 lm f1;
          (i3, f3) = saturate_ir (sint w3) 3 lm f2
      in g\<lparr>gte_data := (gte_data g)(d_MAC1 := w1, d_MAC2 := w2, d_MAC3 := w3, d_IR1 := word_of_int i1,
             d_IR2 := word_of_int i2, d_IR3 := word_of_int i3),
           gte_flag := f3\<rparr>)"

section \<open>Matrix multiplication\<close>

text \<open>\<^verbatim>\<open>MVMVA_STEP\<close>: the exact sum, the 44-bit accumulator and the flags.\<close>

definition mac_step :: "int \<Rightarrow> nat \<Rightarrow> int \<times> int \<times> u32 \<Rightarrow> int \<times> int \<times> u32" where
  "mac_step p n s = (case s of (acc_m, acc_hw, f) \<Rightarrow>
     let unwrapped = acc_hw + p in (acc_m + p, wrap44 unwrapped, check_mac_overflow unwrapped n f))"

text \<open>One row of the product: translation, then the three terms in order; the sum and the flags.\<close>

definition mac_row :: "int \<Rightarrow> int \<Rightarrow> int \<Rightarrow> int \<Rightarrow> nat \<Rightarrow> u32 \<Rightarrow> int \<times> u32" where
  "mac_row tx p1 p2 p3 n f =
     (case mac_step p3 n (mac_step p2 n (mac_step p1 n (tx, wrap44 tx, check_mac_overflow tx n f)))
      of (m, hw, f1) \<Rightarrow> (m, f1))"

text \<open>The far-colour translation does not add it: the two last terms are the result, the first only sets flags.\<close>

definition gte_mvmva_fc :: "bool \<Rightarrow> bool \<Rightarrow> nat \<Rightarrow> nat \<Rightarrow> gte \<Rightarrow> gte" where
  "gte_mvmva_fc sf lm mx v g =
     (let vx = get_vector v 0 g; vy = get_vector v 1 g; vz = get_vector v 2 g;
          fc = (\<lambda>i. sint (gte_ctrl g (c_RFC + of_nat i)) * 0x1000);
          m = (\<lambda>i. get_matrix mx i 1 g * vy + get_matrix mx i 2 g * vz);
          f0 = check_mac_overflow (m 2) 3 (check_mac_overflow (m 1) 2 (check_mac_overflow (m 0) 1 (gte_flag g)));
          w1 = word_of_int (mac_shift (m 0) sf); w2 = word_of_int (mac_shift (m 1) sf); w3 = word_of_int (mac_shift (m 2) sf);
          b = (\<lambda>i. fc i + get_matrix mx i 0 g * vx);
          f1 = check_mac_overflow (b 2) 3 (check_mac_overflow (b 1) 2 (check_mac_overflow (b 0) 1 f0));
          (_, f2) = saturate_ir (to_int32 (mac_shift (b 0) sf)) 1 False f1;
          (_, f3) = saturate_ir (to_int32 (mac_shift (b 1) sf)) 2 False f2;
          (_, f4) = saturate_ir (to_int32 (mac_shift (b 2) sf)) 3 False f3;
          (i1, f5) = saturate_ir (sint (w1 :: u32)) 1 lm f4;
          (i2, f6) = saturate_ir (sint (w2 :: u32)) 2 lm f5;
          (i3, f7) = saturate_ir (sint (w3 :: u32)) 3 lm f6
      in g\<lparr>gte_data := (gte_data g)(d_MAC1 := w1, d_MAC2 := w2, d_MAC3 := w3, d_IR1 := word_of_int i1,
             d_IR2 := word_of_int i2, d_IR3 := word_of_int i3),
           gte_flag := f7\<rparr>)"

definition mvmva_row :: "nat \<Rightarrow> nat \<Rightarrow> nat \<Rightarrow> nat \<Rightarrow> gte \<Rightarrow> u32 \<Rightarrow> int \<times> u32" where
  "mvmva_row mx v cv i g f =
     mac_row (if cv = 3 then 0 else get_translation cv i g * 0x1000)
       (get_matrix mx i 0 g * get_vector v 0 g) (get_matrix mx i 1 g * get_vector v 1 g)
       (get_matrix mx i 2 g * get_vector v 2 g) (i + 1) f"

definition gte_mvmva :: "bool \<Rightarrow> bool \<Rightarrow> nat \<Rightarrow> nat \<Rightarrow> nat \<Rightarrow> gte \<Rightarrow> gte" where
  "gte_mvmva sf lm mx v cv g =
     (if cv = 2 then gte_mvmva_fc sf lm mx v g
      else let (m1, f1) = mvmva_row mx v cv 0 g (gte_flag g); (m2, f2) = mvmva_row mx v cv 1 g f1;
               (m3, f3) = mvmva_row mx v cv 2 g f2
           in store_mac_ir m1 m2 m3 sf lm (g\<lparr>gte_flag := f3\<rparr>))"

section \<open>Perspective transformation\<close>

text \<open>Projection with the quotient of the division: screen position and, for the last vertex, depth cue.\<close>

definition rtps_screen :: "u32 \<Rightarrow> gte \<Rightarrow> gte" where
  "rtps_screen q g =
     (let sx_mac = sint q * lo16 (gte_data g d_IR1) + sint (gte_ctrl g c_OFX);
          sy_mac = sint q * lo16 (gte_data g d_IR2) + sint (gte_ctrl g c_OFY);
          f = check_mac0_overflow sy_mac (check_mac0_overflow sx_mac (gte_flag g))
      in push_sxy (to_int32 (sx_mac div 0x10000)) (to_int32 (sy_mac div 0x10000)) (g\<lparr>gte_flag := f\<rparr>))"

definition rtps_depth :: "u32 \<Rightarrow> gte \<Rightarrow> gte" where
  "rtps_depth q g =
     (let dq_mac = lo16 (gte_ctrl g c_DQA) * sint q + sint (gte_ctrl g c_DQB);
          f = check_mac0_overflow dq_mac (gte_flag g); (i0, f1) = saturate_ir0 (dq_mac div 0x1000) f
      in g\<lparr>gte_data := (gte_data g)(d_MAC0 := word_of_int dq_mac, d_IR0 := word_of_int i0), gte_flag := f1\<rparr>)"

definition rtps_transform :: "nat \<Rightarrow> bool \<Rightarrow> bool \<Rightarrow> gte \<Rightarrow> gte" where
  "rtps_transform v sf lm g =
     (let (m1, f1) = mvmva_row 0 v 0 0 g (gte_flag g); (m2, f2) = mvmva_row 0 v 0 1 g f1;
          (m3, f3) = mvmva_row 0 v 0 2 g f2;
          w1 = word_of_int (mac_shift m1 sf); w2 = word_of_int (mac_shift m2 sf); w3 = word_of_int (mac_shift m3 sf);
          (i1, f4) = saturate_ir (sint (w1 :: u32)) 1 lm f3;
          (i2, f5) = saturate_ir (sint (w2 :: u32)) 2 lm f4;
          val_12 = m3 div 0x1000;
          f6 = (if val_12 < - 0x8000 \<or> val_12 > 0x7FFF then flag_set 22 f5 else f5);
          val_sf = to_int32 (mac_shift m3 sf); low = ir_low lm;
          i3 = (if val_sf < low then low else if val_sf > 0x7FFF then 0x7FFF else val_sf)
      in push_sz (wrap44 m3 div 0x1000)
           (g\<lparr>gte_data := (gte_data g)(d_MAC1 := w1, d_MAC2 := w2, d_MAC3 := w3, d_IR1 := word_of_int i1,
                d_IR2 := word_of_int i2, d_IR3 := word_of_int i3),
              gte_flag := f6\<rparr>))"

definition gte_rtps_core :: "nat \<Rightarrow> bool \<Rightarrow> bool \<Rightarrow> bool \<Rightarrow> gte \<Rightarrow> gte" where
  "gte_rtps_core v sf lm last_v g =
     (let g1 = rtps_transform v sf lm g;
          (q, f) = gte_divide (ucast (gte_ctrl g1 c_H)) (ucast (gte_data g1 d_SZ3)) (gte_flag g1);
          g2 = rtps_screen q (g1\<lparr>gte_flag := f\<rparr>)
      in if last_v then rtps_depth q g2 else g2)"

definition gte_cmd_rtps :: "bool \<Rightarrow> bool \<Rightarrow> gte \<Rightarrow> gte" where
  "gte_cmd_rtps sf lm g = gte_rtps_core 0 sf lm True g"

definition gte_cmd_rtpt :: "bool \<Rightarrow> bool \<Rightarrow> gte \<Rightarrow> gte" where
  "gte_cmd_rtpt sf lm g = gte_rtps_core 2 sf lm True (gte_rtps_core 1 sf lm False (gte_rtps_core 0 sf lm False g))"

section \<open>Clipping and depth averages\<close>

definition gte_cmd_nclip :: "gte \<Rightarrow> gte" where
  "gte_cmd_nclip g =
     (let d = gte_data g; sx0 = lo16 (d d_SXY0); sy0 = hi16 (d d_SXY0); sx1 = lo16 (d d_SXY1); sy1 = hi16 (d d_SXY1);
          sx2 = lo16 (d d_SXY2); sy2 = hi16 (d d_SXY2);
          val = sx0 * (sy1 - sy2) + sx1 * (sy2 - sy0) + sx2 * (sy0 - sy1)
      in (set_data d_MAC0 (word_of_int val) g)\<lparr>gte_flag := check_mac0_overflow val (gte_flag g)\<rparr>)"

definition gte_average :: "int \<Rightarrow> gte \<Rightarrow> gte" where
  "gte_average val g =
     (let (z, f) = saturate_sz (val div 0x1000) (check_mac0_overflow val (gte_flag g))
      in g\<lparr>gte_data := (gte_data g)(d_MAC0 := word_of_int val, d_OTZ := word_of_int z), gte_flag := f\<rparr>)"

definition gte_cmd_avsz3 :: "gte \<Rightarrow> gte" where
  "gte_cmd_avsz3 g =
     (let d = gte_data g
      in gte_average (lo16 (gte_ctrl g c_ZSF3) * (uint (d d_SZ1) + uint (d d_SZ2) + uint (d d_SZ3))) g)"

definition gte_cmd_avsz4 :: "gte \<Rightarrow> gte" where
  "gte_cmd_avsz4 g =
     (let d = gte_data g
      in gte_average (lo16 (gte_ctrl g c_ZSF4) *
           (uint (d d_SZ0) + uint (d d_SZ1) + uint (d d_SZ2) + uint (d d_SZ3))) g)"

section \<open>Vectors and colours\<close>

definition gte_cmd_op :: "bool \<Rightarrow> bool \<Rightarrow> gte \<Rightarrow> gte" where
  "gte_cmd_op sf lm g =
     (let d1 = lo16 (gte_ctrl g c_RT11RT12); d2 = lo16 (gte_ctrl g c_RT22RT23); d3 = lo16 (gte_ctrl g c_RT33);
          ir1 = lo16 (gte_data g d_IR1); ir2 = lo16 (gte_data g d_IR2); ir3 = lo16 (gte_data g d_IR3)
      in store_mac_ir (ir3 * d2 - ir2 * d3) (ir1 * d3 - ir3 * d1) (ir2 * d1 - ir1 * d2) sf lm g)"

definition gte_cmd_mvmva :: "bool \<Rightarrow> bool \<Rightarrow> nat \<Rightarrow> nat \<Rightarrow> nat \<Rightarrow> gte \<Rightarrow> gte" where
  "gte_cmd_mvmva sf lm mx v cv g = gte_mvmva sf lm mx v cv g"

definition gte_cmd_sqr :: "bool \<Rightarrow> bool \<Rightarrow> gte \<Rightarrow> gte" where
  "gte_cmd_sqr sf lm g =
     (let ir1 = lo16 (gte_data g d_IR1); ir2 = lo16 (gte_data g d_IR2); ir3 = lo16 (gte_data g d_IR3)
      in store_mac_ir (ir1 * ir1) (ir2 * ir2) (ir3 * ir3) sf lm g)"

definition interpolate_color_acc :: "int \<Rightarrow> int \<Rightarrow> int \<Rightarrow> bool \<Rightarrow> bool \<Rightarrow> gte \<Rightarrow> gte" where
  "interpolate_color_acc acc1 acc2 acc3 sf lm g =
     (let d1 = sint (gte_ctrl g c_RFC) * 0x1000 - acc1; d2 = sint (gte_ctrl g c_GFC) * 0x1000 - acc2;
          d3 = sint (gte_ctrl g c_BFC) * 0x1000 - acc3;
          f0 = check_mac_overflow d3 3 (check_mac_overflow d2 2 (check_mac_overflow d1 1 (gte_flag g)));
          (t1, f1) = saturate_ir (to_int32 (mac_shift d1 sf)) 1 False f0;
          (t2, f2) = saturate_ir (to_int32 (mac_shift d2 sf)) 2 False f1;
          (t3, f3) = saturate_ir (to_int32 (mac_shift d3 sf)) 3 False f2;
          ir0 = lo16 (gte_data g d_IR0)
      in store_mac_ir (t1 * ir0 + acc1) (t2 * ir0 + acc2) (t3 * ir0 + acc3) sf lm (g\<lparr>gte_flag := f3\<rparr>))"

text \<open>The bytes of a colour word, and the products of the colour with the vector \<open>IR\<close>, shifted by four.\<close>

definition color_byte :: "nat \<Rightarrow> u32 \<Rightarrow> int" where
  "color_byte i w = uint (drop_bit (8 * i) w AND 0xFF)"

definition color_product :: "nat \<Rightarrow> gte \<Rightarrow> int" where
  "color_product i g = color_byte i (gte_data g d_RGBC) * lo16 (gte_data g (d_IR1 + of_nat i)) * 16"

definition gte_light :: "nat \<Rightarrow> bool \<Rightarrow> bool \<Rightarrow> gte \<Rightarrow> gte" where
  "gte_light v sf lm g = gte_mvmva sf lm 2 3 1 (gte_mvmva sf lm 1 v 3 g)"

definition gte_ncs_core :: "nat \<Rightarrow> bool \<Rightarrow> bool \<Rightarrow> gte \<Rightarrow> gte" where
  "gte_ncs_core v sf lm g = push_color (gte_light v sf lm g)"

definition gte_cmd_ncs :: "bool \<Rightarrow> bool \<Rightarrow> gte \<Rightarrow> gte" where
  "gte_cmd_ncs sf lm g = gte_ncs_core 0 sf lm g"

definition gte_cmd_nct :: "bool \<Rightarrow> bool \<Rightarrow> gte \<Rightarrow> gte" where
  "gte_cmd_nct sf lm g = gte_ncs_core 2 sf lm (gte_ncs_core 1 sf lm (gte_ncs_core 0 sf lm g))"

definition color_color :: "bool \<Rightarrow> bool \<Rightarrow> gte \<Rightarrow> gte" where
  "color_color sf lm g = push_color (store_mac_ir (color_product 0 g) (color_product 1 g) (color_product 2 g) sf lm g)"

definition color_depth :: "bool \<Rightarrow> bool \<Rightarrow> gte \<Rightarrow> gte" where
  "color_depth sf lm g =
     push_color (interpolate_color_acc (color_product 0 g) (color_product 1 g) (color_product 2 g) sf lm g)"

definition gte_nccs_core :: "nat \<Rightarrow> bool \<Rightarrow> bool \<Rightarrow> gte \<Rightarrow> gte" where
  "gte_nccs_core v sf lm g = color_color sf lm (gte_light v sf lm g)"

definition gte_cmd_nccs :: "bool \<Rightarrow> bool \<Rightarrow> gte \<Rightarrow> gte" where
  "gte_cmd_nccs sf lm g = gte_nccs_core 0 sf lm g"

definition gte_cmd_ncct :: "bool \<Rightarrow> bool \<Rightarrow> gte \<Rightarrow> gte" where
  "gte_cmd_ncct sf lm g = gte_nccs_core 2 sf lm (gte_nccs_core 1 sf lm (gte_nccs_core 0 sf lm g))"

definition gte_ncds_core :: "nat \<Rightarrow> bool \<Rightarrow> bool \<Rightarrow> gte \<Rightarrow> gte" where
  "gte_ncds_core v sf lm g = color_depth sf lm (gte_light v sf lm g)"

definition gte_cmd_ncds :: "bool \<Rightarrow> bool \<Rightarrow> gte \<Rightarrow> gte" where
  "gte_cmd_ncds sf lm g = gte_ncds_core 0 sf lm g"

definition gte_cmd_ncdt :: "bool \<Rightarrow> bool \<Rightarrow> gte \<Rightarrow> gte" where
  "gte_cmd_ncdt sf lm g = gte_ncds_core 2 sf lm (gte_ncds_core 1 sf lm (gte_ncds_core 0 sf lm g))"

definition gte_cmd_cc :: "bool \<Rightarrow> bool \<Rightarrow> gte \<Rightarrow> gte" where
  "gte_cmd_cc sf lm g = color_color sf lm (gte_mvmva sf lm 2 3 1 g)"

definition gte_cmd_cdp :: "bool \<Rightarrow> bool \<Rightarrow> gte \<Rightarrow> gte" where
  "gte_cmd_cdp sf lm g = color_depth sf lm (gte_mvmva sf lm 2 3 1 g)"

text \<open>Depth cueing of the colour in a register, over the accumulator \<^verbatim>\<open>[R, G, B] << 16\<close>.\<close>

definition depth_cue :: "u32 \<Rightarrow> bool \<Rightarrow> bool \<Rightarrow> gte \<Rightarrow> gte" where
  "depth_cue reg sf lm g =
     (let w = gte_data g reg;
          m1 = color_byte 0 w * 0x10000; m2 = color_byte 1 w * 0x10000; m3 = color_byte 2 w * 0x10000;
          f = check_mac_overflow m3 3 (check_mac_overflow m2 2 (check_mac_overflow m1 1 (gte_flag g)))
      in push_color (interpolate_color_acc m1 m2 m3 sf lm (g\<lparr>gte_flag := f\<rparr>)))"

definition gte_cmd_dpcs :: "bool \<Rightarrow> bool \<Rightarrow> gte \<Rightarrow> gte" where
  "gte_cmd_dpcs sf lm g = depth_cue d_RGBC sf lm g"

definition gte_cmd_dpct :: "bool \<Rightarrow> bool \<Rightarrow> gte \<Rightarrow> gte" where
  "gte_cmd_dpct sf lm g = (depth_cue d_RGB0 sf lm ^^ 3) g"

definition gte_cmd_intpl :: "bool \<Rightarrow> bool \<Rightarrow> gte \<Rightarrow> gte" where
  "gte_cmd_intpl sf lm g =
     push_color (interpolate_color_acc (lo16 (gte_data g d_IR1) * 0x1000) (lo16 (gte_data g d_IR2) * 0x1000)
       (lo16 (gte_data g d_IR3) * 0x1000) sf lm g)"

definition gte_cmd_dcpl :: "bool \<Rightarrow> bool \<Rightarrow> gte \<Rightarrow> gte" where
  "gte_cmd_dcpl sf lm g = color_depth sf lm g"

definition gte_cmd_gpf :: "bool \<Rightarrow> bool \<Rightarrow> gte \<Rightarrow> gte" where
  "gte_cmd_gpf sf lm g =
     (let ir0 = lo16 (gte_data g d_IR0); ir1 = lo16 (gte_data g d_IR1); ir2 = lo16 (gte_data g d_IR2);
          ir3 = lo16 (gte_data g d_IR3)
      in push_color (store_mac_ir (ir1 * ir0) (ir2 * ir0) (ir3 * ir0) sf lm g))"

definition gte_cmd_gpl :: "bool \<Rightarrow> bool \<Rightarrow> gte \<Rightarrow> gte" where
  "gte_cmd_gpl sf lm g =
     (let ir0 = lo16 (gte_data g d_IR0); ir1 = lo16 (gte_data g d_IR1); ir2 = lo16 (gte_data g d_IR2);
          ir3 = lo16 (gte_data g d_IR3);
          base = (\<lambda>r. sint (gte_data g r) * (if sf then 0x1000 else 1))
      in push_color (store_mac_ir (ir1 * ir0 + base d_MAC1) (ir2 * ir0 + base d_MAC2) (ir3 * ir0 + base d_MAC3) sf lm g))"

section \<open>Register access\<close>

text \<open>The loop that counts; it would not end on zero.\<close>

partial_function (option) count_leading_loop :: "u32 \<Rightarrow> u32 \<Rightarrow> u32 option" where
  [code]: "count_leading_loop target count =
     (if target AND 0x80000000 = 0 then count_leading_loop (push_bit 1 target) (count + 1) else Some count)"

definition gte_count_leading :: "u32 \<Rightarrow> u32 option" where
  "gte_count_leading val =
     (if val = 0 then Some 32
      else if sint val < 0 then (if NOT val = 0 then Some 32 else count_leading_loop (NOT val) 0)
      else count_leading_loop val 0)"

definition irgb_field :: "u32 \<Rightarrow> u32" where
  "irgb_field w = (let v = sint w div 0x80 in if v < 0 then 0 else if v > 0x1F then 0x1F else word_of_int v)"

definition GTE_ReadData :: "u32 \<Rightarrow> R3000CPU \<Rightarrow> u32" where
  "GTE_ReadData reg c =
     (let d = cp2_data c
      in if reg = 15 then d 14
         else if reg = 28 \<or> reg = 29
         then irgb_field (d 9) OR push_bit 5 (irgb_field (d 10)) OR push_bit 10 (irgb_field (d 11))
         else d (reg AND 0x1F))"

definition sext_low16 :: "u32 \<Rightarrow> u32" where
  "sext_low16 v = sext16 (ucast v)"

definition GTE_WriteData :: "u32 \<Rightarrow> u32 \<Rightarrow> R3000CPU \<Rightarrow> R3000CPU" where
  "GTE_WriteData reg val c =
     (let d = cp2_data c
      in if reg \<in> {1, 3, 5, 8, 9, 10, 11} then c\<lparr>cp2_data := d(reg := sext_low16 val)\<rparr>
         else if reg \<in> {7, 16, 17, 18, 19} then c\<lparr>cp2_data := d(reg := val AND 0xFFFF)\<rparr>
         else if reg = 15 then c\<lparr>cp2_data := d(12 := d 13, 13 := d 14, 14 := val, 15 := val)\<rparr>
         else if reg = 28
         then c\<lparr>cp2_data := d(9 := sext_low16 (push_bit 7 (val AND 0x1F)),
                10 := sext_low16 (push_bit 7 (drop_bit 5 val AND 0x1F)),
                11 := sext_low16 (push_bit 7 (drop_bit 10 val AND 0x1F)))\<rparr>
         else if reg = 29 then c
         else if reg = 30 then c\<lparr>cp2_data := d(30 := val, 31 := the (gte_count_leading val))\<rparr>
         else if reg = 31 then c
         else c\<lparr>cp2_data := d(reg AND 0x1F := val)\<rparr>)"

definition GTE_ReadCtrl :: "u32 \<Rightarrow> R3000CPU \<Rightarrow> u32" where
  "GTE_ReadCtrl reg c = cp2_ctrl c (reg AND 0x1F)"

definition GTE_WriteCtrl :: "u32 \<Rightarrow> u32 \<Rightarrow> R3000CPU \<Rightarrow> R3000CPU" where
  "GTE_WriteCtrl reg val c =
     (let k = cp2_ctrl c
      in if reg \<in> {4, 12, 20, 26, 27, 29, 30} then c\<lparr>cp2_ctrl := k(reg := sext_low16 val)\<rparr>
         else if reg = 31 then c\<lparr>cp2_ctrl := k(31 := flag_update_bit31 (val AND 0x7FFFF000))\<rparr>
         else c\<lparr>cp2_ctrl := k(reg AND 0x1F := val)\<rparr>)"

section \<open>Commands\<close>

text \<open>What every entry point does around a command: clear the flags, run it, complete and store the flags.\<close>

definition gte_run :: "(gte \<Rightarrow> gte) \<Rightarrow> R3000CPU \<Rightarrow> R3000CPU" where
  "gte_run cmd c =
     (let g = cmd \<lparr>gte_data = cp2_data c, gte_ctrl = cp2_ctrl c, gte_flag = 0\<rparr>
      in c\<lparr>cp2_data := gte_data g, cp2_ctrl := (gte_ctrl g)(c_FLAG := flag_update_bit31 (gte_flag g))\<rparr>)"

definition gte_command :: "u32 \<Rightarrow> gte \<Rightarrow> gte" where
  "gte_command opcode =
     (let func = opcode AND 0x3F; sf = bit opcode 19; lm = bit opcode 10;
          mx = unat (drop_bit 17 opcode AND 3); v = unat (drop_bit 15 opcode AND 3); cv = unat (drop_bit 13 opcode AND 3)
      in if func = 0x01 then gte_cmd_rtps sf lm
         else if func = 0x06 then gte_cmd_nclip
         else if func = 0x0C then gte_cmd_op sf lm
         else if func = 0x10 then gte_cmd_dpcs sf lm
         else if func = 0x11 then gte_cmd_intpl sf lm
         else if func = 0x12 then gte_cmd_mvmva sf lm mx v cv
         else if func = 0x13 then gte_cmd_ncds sf lm
         else if func = 0x14 then gte_cmd_cdp sf lm
         else if func = 0x16 then gte_cmd_ncdt sf lm
         else if func = 0x1B then gte_cmd_nccs sf lm
         else if func = 0x1C then gte_cmd_cc sf lm
         else if func = 0x1E then gte_cmd_ncs sf lm
         else if func = 0x20 then gte_cmd_nct sf lm
         else if func = 0x28 then gte_cmd_sqr sf lm
         else if func = 0x29 then gte_cmd_dcpl sf lm
         else if func = 0x2A then gte_cmd_dpct sf lm
         else if func = 0x2D then gte_cmd_avsz3
         else if func = 0x2E then gte_cmd_avsz4
         else if func = 0x30 then gte_cmd_rtpt sf lm
         else if func = 0x3D then gte_cmd_gpf sf lm
         else if func = 0x3E then gte_cmd_gpl sf lm
         else if func = 0x3F then gte_cmd_ncct sf lm
         else (\<lambda>g. g))"

definition GTE_Execute :: "u32 \<Rightarrow> R3000CPU \<Rightarrow> R3000CPU" where
  "GTE_Execute opcode c = gte_run (gte_command opcode) c"

section \<open>Entry points of the recompiler\<close>

text \<open>The projection after a transformation done in native code; unlike the command it does not check the
  intermediate sums for overflow.\<close>

definition GTE_RTPS_Project :: "bool \<Rightarrow> gte \<Rightarrow> gte" where
  "GTE_RTPS_Project last_v g =
     (let (q, f) = gte_divide (ucast (gte_ctrl g c_H)) (ucast (gte_data g d_SZ3)) (gte_flag g);
          sx_mac = sint q * lo16 (gte_data g d_IR1) + sint (gte_ctrl g c_OFX);
          sy_mac = sint q * lo16 (gte_data g d_IR2) + sint (gte_ctrl g c_OFY);
          g1 = push_sxy (to_int32 (sx_mac div 0x10000)) (to_int32 (sy_mac div 0x10000)) (g\<lparr>gte_flag := f\<rparr>);
          dq_mac = lo16 (gte_ctrl g c_DQA) * sint q + sint (gte_ctrl g c_DQB);
          (i0, f1) = saturate_ir0 (dq_mac div 0x1000) (gte_flag g1)
      in if last_v
         then g1\<lparr>gte_data := (gte_data g1)(d_MAC0 := word_of_int dq_mac, d_IR0 := word_of_int i0), gte_flag := f1\<rparr>
         else g1)"

definition GTE_Inline_RTPS :: "bool \<Rightarrow> bool \<Rightarrow> R3000CPU \<Rightarrow> R3000CPU" where
  "GTE_Inline_RTPS sf lm c = gte_run (gte_cmd_rtps sf lm) c"

definition GTE_Inline_NCLIP :: "R3000CPU \<Rightarrow> R3000CPU" where
  "GTE_Inline_NCLIP c = gte_run gte_cmd_nclip c"

definition GTE_Inline_OP :: "bool \<Rightarrow> bool \<Rightarrow> R3000CPU \<Rightarrow> R3000CPU" where
  "GTE_Inline_OP sf lm c = gte_run (gte_cmd_op sf lm) c"

definition GTE_Inline_DPCS :: "bool \<Rightarrow> bool \<Rightarrow> R3000CPU \<Rightarrow> R3000CPU" where
  "GTE_Inline_DPCS sf lm c = gte_run (gte_cmd_dpcs sf lm) c"

definition GTE_Inline_INTPL :: "bool \<Rightarrow> bool \<Rightarrow> R3000CPU \<Rightarrow> R3000CPU" where
  "GTE_Inline_INTPL sf lm c = gte_run (gte_cmd_intpl sf lm) c"

definition GTE_Inline_NCDS :: "bool \<Rightarrow> bool \<Rightarrow> R3000CPU \<Rightarrow> R3000CPU" where
  "GTE_Inline_NCDS sf lm c = gte_run (gte_cmd_ncds sf lm) c"

definition GTE_Inline_CDP :: "bool \<Rightarrow> bool \<Rightarrow> R3000CPU \<Rightarrow> R3000CPU" where
  "GTE_Inline_CDP sf lm c = gte_run (gte_cmd_cdp sf lm) c"

definition GTE_Inline_NCDT :: "bool \<Rightarrow> bool \<Rightarrow> R3000CPU \<Rightarrow> R3000CPU" where
  "GTE_Inline_NCDT sf lm c = gte_run (gte_cmd_ncdt sf lm) c"

definition GTE_Inline_NCCS :: "bool \<Rightarrow> bool \<Rightarrow> R3000CPU \<Rightarrow> R3000CPU" where
  "GTE_Inline_NCCS sf lm c = gte_run (gte_cmd_nccs sf lm) c"

definition GTE_Inline_CC :: "bool \<Rightarrow> bool \<Rightarrow> R3000CPU \<Rightarrow> R3000CPU" where
  "GTE_Inline_CC sf lm c = gte_run (gte_cmd_cc sf lm) c"

definition GTE_Inline_NCS :: "bool \<Rightarrow> bool \<Rightarrow> R3000CPU \<Rightarrow> R3000CPU" where
  "GTE_Inline_NCS sf lm c = gte_run (gte_cmd_ncs sf lm) c"

definition GTE_Inline_NCT :: "bool \<Rightarrow> bool \<Rightarrow> R3000CPU \<Rightarrow> R3000CPU" where
  "GTE_Inline_NCT sf lm c = gte_run (gte_cmd_nct sf lm) c"

definition GTE_Inline_SQR :: "bool \<Rightarrow> bool \<Rightarrow> R3000CPU \<Rightarrow> R3000CPU" where
  "GTE_Inline_SQR sf lm c = gte_run (gte_cmd_sqr sf lm) c"

definition GTE_Inline_DCPL :: "bool \<Rightarrow> bool \<Rightarrow> R3000CPU \<Rightarrow> R3000CPU" where
  "GTE_Inline_DCPL sf lm c = gte_run (gte_cmd_dcpl sf lm) c"

definition GTE_Inline_DPCT :: "bool \<Rightarrow> bool \<Rightarrow> R3000CPU \<Rightarrow> R3000CPU" where
  "GTE_Inline_DPCT sf lm c = gte_run (gte_cmd_dpct sf lm) c"

definition GTE_Inline_AVSZ3 :: "R3000CPU \<Rightarrow> R3000CPU" where
  "GTE_Inline_AVSZ3 c = gte_run gte_cmd_avsz3 c"

definition GTE_Inline_AVSZ4 :: "R3000CPU \<Rightarrow> R3000CPU" where
  "GTE_Inline_AVSZ4 c = gte_run gte_cmd_avsz4 c"

definition GTE_Inline_RTPT :: "bool \<Rightarrow> bool \<Rightarrow> R3000CPU \<Rightarrow> R3000CPU" where
  "GTE_Inline_RTPT sf lm c = gte_run (gte_cmd_rtpt sf lm) c"

definition GTE_Inline_GPF :: "bool \<Rightarrow> bool \<Rightarrow> R3000CPU \<Rightarrow> R3000CPU" where
  "GTE_Inline_GPF sf lm c = gte_run (gte_cmd_gpf sf lm) c"

definition GTE_Inline_GPL :: "bool \<Rightarrow> bool \<Rightarrow> R3000CPU \<Rightarrow> R3000CPU" where
  "GTE_Inline_GPL sf lm c = gte_run (gte_cmd_gpl sf lm) c"

definition GTE_Inline_NCCT :: "bool \<Rightarrow> bool \<Rightarrow> R3000CPU \<Rightarrow> R3000CPU" where
  "GTE_Inline_NCCT sf lm c = gte_run (gte_cmd_ncct sf lm) c"

definition GTE_Inline_MVMVA :: "u32 \<Rightarrow> R3000CPU \<Rightarrow> R3000CPU" where
  "GTE_Inline_MVMVA packed c =
     gte_run (gte_cmd_mvmva (bit packed 0) (bit packed 1) (unat (drop_bit 2 packed AND 3))
       (unat (drop_bit 4 packed AND 3)) (unat (drop_bit 6 packed AND 3))) c"

text \<open>
  The entry point that code compiled from an opcode calls when the vector unit is not used, with its arguments
  (\<^verbatim>\<open>src/dynarec_gte.c\<close>); other opcodes call the dispatcher.
\<close>

definition gte_packed :: "u32 \<Rightarrow> u32" where
  "gte_packed opcode =
     (drop_bit 19 opcode AND 1) OR push_bit 1 (drop_bit 10 opcode AND 1) OR push_bit 2 (drop_bit 17 opcode AND 3) OR
     push_bit 4 (drop_bit 15 opcode AND 3) OR push_bit 6 (drop_bit 13 opcode AND 3)"

definition gte_recompiled :: "u32 \<Rightarrow> R3000CPU \<Rightarrow> R3000CPU" where
  "gte_recompiled opcode c =
     (let func = opcode AND 0x3F; sf = bit opcode 19; lm = bit opcode 10
      in if func = 0x01 then GTE_Inline_RTPS sf lm c
         else if func = 0x06 then GTE_Inline_NCLIP c
         else if func = 0x0C then GTE_Inline_OP sf lm c
         else if func = 0x10 then GTE_Inline_DPCS sf lm c
         else if func = 0x11 then GTE_Inline_INTPL sf lm c
         else if func = 0x12 then GTE_Inline_MVMVA (gte_packed opcode) c
         else if func = 0x13 then GTE_Inline_NCDS sf lm c
         else if func = 0x14 then GTE_Inline_CDP sf lm c
         else if func = 0x16 then GTE_Inline_NCDT sf lm c
         else if func = 0x1B then GTE_Inline_NCCS sf lm c
         else if func = 0x1C then GTE_Inline_CC sf lm c
         else if func = 0x1E then GTE_Inline_NCS sf lm c
         else if func = 0x20 then GTE_Inline_NCT sf lm c
         else if func = 0x28 then GTE_Inline_SQR sf lm c
         else if func = 0x29 then GTE_Inline_DCPL sf lm c
         else if func = 0x2A then GTE_Inline_DPCT sf lm c
         else if func = 0x2D then GTE_Inline_AVSZ3 c
         else if func = 0x2E then GTE_Inline_AVSZ4 c
         else if func = 0x30 then GTE_Inline_RTPT sf lm c
         else if func = 0x3D then GTE_Inline_GPF sf lm c
         else if func = 0x3E then GTE_Inline_GPL sf lm c
         else if func = 0x3F then GTE_Inline_NCCT sf lm c
         else GTE_Execute opcode c)"

end
