(* ===== verification/Gte_Division.thy ===== *)
theory Gte_Division
  imports Gte
begin

text \<open>
  Accuracy of the geometry engine's division: normalisation scales the divisor to its top bit, the table entry
  is a reciprocal to one part in 256, one Newton step squares that error, and rounding adds at most half a unit.
\<close>

section \<open>Accuracy of the division\<close>

lemma u16_top: "(d :: u16) AND 0x8000 = 0 \<longleftrightarrow> uint d < 0x8000"
proof -
  have "d AND 0x8000 = 0 \<longleftrightarrow> \<not> bit d 15"
    using and_exp_eq_0_iff_not_bit [of d 15] by simp
  also have "\<dots> \<longleftrightarrow> drop_bit 15 (uint d) = 0"
  proof -
    have "bit (uint d) (15 + n) \<longleftrightarrow> n = 0 \<and> bit d 15" for n
      by (cases "n = 0") (auto simp: bit_uint_iff)
    then show ?thesis
      by (auto simp: bit_eq_iff [of "drop_bit 15 (uint d)"] bit_drop_bit_eq)
  qed
  also have "\<dots> \<longleftrightarrow> uint d < 0x8000"
    by (auto simp: drop_bit_eq_div zdiv_eq_0_iff)
  finally show ?thesis .
qed

lemma gte_norm_scaled:
  assumes "uint d = uint s * 2 ^ z" "z < 16" "s \<noteq> (0 :: u16)"
  shows "\<exists>z1 d1. gte_norm z d = (z1, d1) \<and> z1 < 16 \<and> uint d1 = uint s * 2 ^ z1 \<and> 0x8000 \<le> uint d1"
  using assms
proof (induction z d rule: gte_norm.induct)
  case (1 z d)
  have s: "1 \<le> uint s" using 1(4) word_gt_0 [of s] by (simp add: word_less_def)
  show ?case
  proof (cases "uint d < 0x8000")
    case True
    then have d: "uint (push_bit 1 d) = uint s * 2 ^ (z + 1)"
      using 1 by (simp add: push_bit_eq_mult uint_mult_lem uint_word_ariths)
    have "2 ^ z \<le> uint d" using 1(2) s by simp
    then have "(2::int) ^ z < 2 ^ 15" using True by simp
    then have "z + 1 < 16" using power_less_imp_less_exp [of "2::int" z 15] by simp
    with d show ?thesis using 1 True by (simp add: gte_norm.simps [of z d] u16_top)
  next
    case False
    then show ?thesis using 1 by (auto simp: gte_norm.simps [of z d] u16_top)
  qed
qed

fun unr_close :: "u32 list \<Rightarrow> nat \<Rightarrow> bool" where
  "unr_close [] d = True"
| "unr_close (u # us) d =
     (0xFF0000 \<le> max 0x8000 d * (unat u + 0x101) \<and> min 0xFFFF (d + 127) * (unat u + 0x101) \<le> 0x1010000 \<and>
      unat u \<le> 0xFF \<and> unr_close us (d + 128))"

lemma unr_close_table: "unr_close gte_unr_table 0x7FC0"
  by (simp add: gte_unr_table_def)

lemma unr_close_nth:
  assumes "unr_close us d" "k < length us"
  shows "0xFF0000 \<le> max 0x8000 (d + 128 * k) * (unat (us ! k) + 0x101)"
    "min 0xFFFF (d + 128 * k + 127) * (unat (us ! k) + 0x101) \<le> 0x1010000" "unat (us ! k) \<le> 0xFF"
  using assms
proof (induction us d arbitrary: k rule: unr_close.induct)
  case (2 u us d)
  { case 1 then show ?case using 2(1) [of "k - 1"] by (cases k) (auto simp: algebra_simps) }
  { case 2 then show ?case using "2.IH"(2) [of "k - 1"] by (cases k) (auto simp: algebra_simps) }
  { case 3 then show ?case using "2.IH"(3) [of "k - 1"] by (cases k) auto }
qed auto

lemma length_unr_table: "length gte_unr_table = 257"
  by (simp add: gte_unr_table_def)

text \<open>Every entry is a reciprocal of every divisor of its interval, to one part in 256.\<close>

lemma unr_reciprocal:
  assumes "0x8000 \<le> d" "d \<le> (0xFFFF :: nat)"
  defines "u \<equiv> unat (gte_unr_table ! ((d - 0x7FC0) div 128)) + 0x101"
  shows "0xFF0000 \<le> d * u" "d * u \<le> 0x1010000" "u \<le> 0x200"
proof -
  define k where "k = (d - 0x7FC0) div 128"
  have k: "k < 257" "max 0x8000 (0x7FC0 + 128 * k) \<le> d" "d \<le> min 0xFFFF (0x7FC0 + 128 * k + 127)"
    using assms(1,2) unfolding k_def by linarith+
  note close = unr_close_nth [OF unr_close_table, unfolded length_unr_table, OF k(1)]
  show "0xFF0000 \<le> d * u" "d * u \<le> 0x1010000"
    using close mult_le_mono1 [OF k(2), of u] mult_le_mono1 [OF k(3), of u] unfolding u_def k_def by linarith+
  show "u \<le> 0x200" using close(3) by (simp add: u_def k_def)
qed

lemma sum_bound:
  fixes p :: int
  assumes "0x10000 * (p - 2 ^ 32) = 0x100 * A + B - S" "\<bar>A\<bar> \<le> 0xFFFF * 128" "\<bar>B\<bar> \<le> 128 * 0x1010000" "S \<le> 0x10000 ^ 2"
    "0 \<le> S"
  shows "\<bar>p - 2 ^ 32\<bar> \<le> 131200"
  using assms by (simp add: abs_le_iff)

text \<open>One Newton step in 16-bit fixed point squares the relative error.\<close>

lemma newton_step:
  fixes d u :: int
  assumes d: "0 \<le> d" "d \<le> 0xFFFF" and x: "0xFF0000 \<le> d * u" "d * u \<le> 0x1010000"
  defines "a \<equiv> (0x2000080 - d * u) div 0x100"
  defines "b \<equiv> (0x80 + a * u) div 0x100"
  shows "\<bar>b * d - 2 ^ 32\<bar> \<le> 131200"
proof -
  define r1 where "r1 = (0x2000080 - d * u) mod 0x100"
  define r2 where "r2 = (0x80 + a * u) mod 0x100"
  have r: "\<bar>128 - r1\<bar> \<le> 128" "\<bar>128 - r2\<bar> \<le> 128" by (auto simp: r1_def r2_def)
  have a: "0x100 * a = 0x2000080 - d * u - r1" by (simp add: a_def r1_def minus_mod_eq_mult_div)
  have b: "0x100 * b = 0x80 + a * u - r2" by (simp add: b_def r2_def minus_mod_eq_mult_div)
  have "0x10000 * (b * d) = 0x100 * d * (0x100 * b)" by simp
  also have "\<dots> = 0x100 * d * (128 - r2) + (d * u) * (0x100 * a)" unfolding b by (simp add: algebra_simps)
  also have "\<dots> = 0x100 * (d * (128 - r2)) + (128 - r1) * (d * u) + 2 ^ 48 - (2 ^ 24 - d * u) ^ 2"
    unfolding a by (simp add: algebra_simps power2_eq_square)
  finally have eq: "0x10000 * (b * d - 2 ^ 32) = 0x100 * (d * (128 - r2)) + (128 - r1) * (d * u) - (2 ^ 24 - d * u) ^ 2"
    by simp
  have "\<bar>d * (128 - r2)\<bar> \<le> 0xFFFF * 128"
    unfolding abs_mult using d r(2) by (intro mult_mono) auto
  moreover have "\<bar>(128 - r1) * (d * u)\<bar> \<le> 128 * 0x1010000"
    unfolding abs_mult using r(1) x by (intro mult_mono) auto
  moreover have "(2 ^ 24 - d * u) ^ 2 \<le> (0x10000 :: int) ^ 2"
    using x by (intro power2_le_iff_abs_le [THEN iffD2]) auto
  moreover have "0 \<le> (2 ^ 24 - d * u) ^ 2" by simp
  ultimately show ?thesis using sum_bound [OF eq] by simp
qed

lemma uint_div_256: "uint (drop_bit 8 (w :: u32)) = uint w div 0x100"
  by (simp add: drop_bit_eq_div uint_div)

lemma uint_mult_u32: "uint x * uint y < 2 ^ 32 \<Longrightarrow> uint (x * y :: u32) = uint x * uint y"
  using uint_mult_lem [of x y] by simp

lemma uint_add_u32: "uint x + uint y < 2 ^ 32 \<Longrightarrow> uint (x + y :: u32) = uint x + uint y"
  using uint_add_lem [of x y] by simp

lemma uint_sub_u32: "uint y \<le> uint x \<Longrightarrow> uint (x - y :: u32) = uint x - uint y"
  using uint_sub_lem [of y x] by simp

lemma uint_ucast_16_32 [simp]: "uint (ucast (d :: u16) :: u32) = uint d"
  by (rule uint_up_ucast) (simp add: is_up)

lemma unr_index:
  assumes "0x8000 \<le> uint (d :: u16)"
  shows "unat (drop_bit 7 (ucast d - 0x7FC0 :: u32)) = (unat d - 0x7FC0) div 128"
proof -
  have "uint (ucast d - 0x7FC0 :: u32) = uint d - 0x7FC0"
    using assms by (subst uint_sub_u32) simp_all
  then have "unat (ucast d - 0x7FC0 :: u32) = unat d - 0x7FC0"
    using assms unfolding unat_eq_nat_uint by linarith
  then show ?thesis by (simp add: drop_bit_eq_div unat_div_distrib)
qed

text \<open>The reciprocal the code computes for a normalised divisor.\<close>

definition unr_result :: "u16 \<Rightarrow> u32" where
  "unr_result d =
     (let du = (ucast d :: u32); u_val = gte_unr_table ! unat (drop_bit 7 (du - 0x7FC0)) + 0x101;
          du1 = drop_bit 8 (0x2000080 - du * u_val)
      in drop_bit 8 (0x80 + du1 * u_val))"

lemma unr_result_accurate:
  assumes "0x8000 \<le> uint d"
  shows "\<bar>uint (unr_result d) * uint d - 2 ^ 32\<bar> \<le> 131200" "uint (unr_result d) \<le> 2 ^ 18"
proof -
  define t where "t = gte_unr_table ! unat (drop_bit 7 (ucast d - 0x7FC0 :: u32))"
  have d: "0x8000 \<le> unat d" "unat d \<le> 0xFFFF"
    using assms unsigned_less [where 'a = nat, of d] by (simp_all add: uint_nat [of d] del: of_nat_unat)
  note r = unr_reciprocal [OF d, folded unr_index [OF assms], folded t_def]
  define u :: int where "u = uint (t + 0x101)"
  have "uint t \<le> 0xFF" using r(3) by (simp add: uint_nat [of t] del: of_nat_unat)
  then have u: "u = int (unat t + 0x101)" by (simp add: u_def uint_add_u32)
  have x: "0xFF0000 \<le> uint d * u" "uint d * u \<le> 0x1010000" "0 \<le> u" "u \<le> 0x200"
    using r by (simp_all add: u uint_nat [of d] del: of_nat_unat of_nat_add flip: of_nat_mult)
  define a where "a = (0x2000080 - uint d * u) div 0x100"
  have a: "0 \<le> a" "a \<le> 0x20000" using x(1,2) by (simp_all add: a_def)
  have "a * u \<le> 0x20000 * 0x200" using a x(3,4) by (intro mult_mono) auto
  then have au: "0 \<le> a * u" "a * u \<le> 0x4000000" using a x(3) by simp_all
  have m: "uint (ucast d * (t + 0x101) :: u32) = uint d * u"
    using x by (subst uint_mult_u32) (simp_all flip: u_def)
  have s: "uint (drop_bit 8 (0x2000080 - ucast d * (t + 0x101) :: u32)) = a"
    using x by (simp add: uint_div_256 uint_sub_u32 m a_def)
  have p: "uint (drop_bit 8 (0x2000080 - ucast d * (t + 0x101)) * (t + 0x101)) = a * u"
    using au by (subst uint_mult_u32) (simp_all add: s flip: u_def)
  have b: "uint (unr_result d) = (0x80 + a * u) div 0x100"
    using au by (simp add: unr_result_def Let_def uint_div_256 uint_add_u32 p flip: t_def)
  show "uint (unr_result d) \<le> 2 ^ 18" using au by (simp add: b)
  show "\<bar>uint (unr_result d) * uint d - 2 ^ 32\<bar> \<le> 131200"
    using newton_step [of "uint d" u] x unsigned_less [where 'a = int, of d] by (simp add: b a_def)
qed

lemma scaled_bound:
  fixes A B p d :: int
  assumes "\<bar>A\<bar> \<le> 2 * d * 131200" "\<bar>B\<bar> \<le> 0x8000 * d" "0x10000 * p = A + B" "0 \<le> d"
  shows "\<bar>p\<bar> \<le> 5 * d"
  using assms by linarith

lemma round_bound:
  fixes n r d h s q :: int
  assumes r: "\<bar>r * d - 2 ^ 32\<bar> \<le> 131200" and n: "0 \<le> n" "n < 2 * d" and q: "q = (n * r + 0x8000) div 0x10000"
    and d: "0x8000 \<le> d"
  shows "\<bar>q * d - n * 0x10000\<bar> \<le> 5 * d"
proof -
  define e where "e = 0x8000 - (n * r + 0x8000) mod 0x10000"
  have e: "\<bar>e\<bar> \<le> 0x8000" by (auto simp: e_def)
  have "0x10000 * q = n * r + e" by (simp add: q e_def minus_mod_eq_mult_div [symmetric])
  then have "0x10000 * q * d = (n * r + e) * d" by simp
  then have eq: "0x10000 * (q * d - n * 0x10000) = n * (r * d - 2 ^ 32) + e * d" by (simp add: algebra_simps)
  have "\<bar>n * (r * d - 2 ^ 32)\<bar> \<le> (2 * d) * 131200"
    unfolding abs_mult using r n by (intro mult_mono) auto
  moreover have "\<bar>e * d\<bar> \<le> 0x8000 * d"
    unfolding abs_mult using e d by (intro mult_mono) auto
  ultimately show ?thesis using scaled_bound [OF _ _ eq] d by simp
qed

lemma uint_ucast_16_64: "uint (ucast (h :: u16) :: u64) = uint h"
  by (rule uint_up_ucast) (simp add: is_up)

lemma uint_push_bit_u64:
  assumes "uint (h :: u16) * 2 ^ z < 2 ^ 64"
  shows "uint (push_bit z (ucast h :: u64)) = uint h * 2 ^ z"
  unfolding unsigned_push_bit_eq using assms
  by (simp add: uint_ucast_16_64 push_bit_eq_mult take_bit_int_eq_self)

lemma gte_divide_quotient:
  assumes "uint h < 2 * uint sz3"
  obtains z d q where "uint d = uint sz3 * 2 ^ z" "0x8000 \<le> uint d"
    "q = (uint h * 2 ^ z * uint (unr_result d) + 0x8000) div 0x10000"
    "gte_divide h sz3 f = (word_of_int (min 0x1FFFF q), f)"
proof -
  have "sz3 \<noteq> 0" using assms by auto
  then obtain z d where zd: "gte_norm 0 sz3 = (z, d)" "z < 16" "uint d = uint sz3 * 2 ^ z" "0x8000 \<le> uint d"
    using gte_norm_scaled [of sz3 sz3 0] by auto
  have "uint h * 2 ^ z < 2 * uint d" using assms unfolding zd(3) by simp
  then have n: "0 \<le> uint h * 2 ^ z" "uint h * 2 ^ z < 2 ^ 17" 
    using unsigned_less [where 'a = int, of d] by (simp_all)
  then have nr: "uint h * 2 ^ z * uint (unr_result d) \<le> 2 ^ 17 * 2 ^ 18"
    using unr_result_accurate(2) [OF zd(4)] by (intro mult_mono) auto
  define n1 where "n1 = drop_bit 16 (push_bit z (ucast h :: u64) * ucast (unr_result d) + 0x8000)"
  define q where "q = (uint h * 2 ^ z * uint (unr_result d) + 0x8000) div 0x10000"
  have r: "uint (ucast (unr_result d) :: u64) = uint (unr_result d)"
    by (rule uint_up_ucast) (simp add: is_up)
  have "uint (push_bit z (ucast h :: u64) * ucast (unr_result d)) = uint h * 2 ^ z * uint (unr_result d)"
    using nr n by (subst uint_mult_lem [THEN iffD1]) (simp_all add: uint_push_bit_u64 r)
  then have "uint n1 = q"
    using nr by (simp add: n1_def q_def drop_bit_eq_div uint_div uint_add_lem [THEN iffD1])
  moreover have "ucast n1 = (word_of_int (uint n1) :: u32)" by (rule ucast_eq)
  ultimately have "ucast (if n1 > 0x1FFFF then 0x1FFFF else n1) = (word_of_int (min 0x1FFFF q) :: u32)"
    by (simp add: word_less_def min_def)
  moreover have "uint h < uint sz3 * 2" using assms by simp
  then have "gte_divide h sz3 f = (ucast (if n1 > 0x1FFFF then 0x1FFFF else n1), f)"
    unfolding gte_divide_def n1_def unr_result_def zd(1) by (simp only: if_True Let_def prod.case)
  ultimately show ?thesis using that [OF zd(3,4) q_def] by simp
qed

lemma gte_divide_close:
  assumes "uint h < 2 * uint sz3"
  shows "\<bar>uint (fst (gte_divide h sz3 f)) * uint sz3 - uint h * 0x10000\<bar> \<le> 5 * uint sz3"
    "uint (fst (gte_divide h sz3 f)) \<le> 0x1FFFF" "snd (gte_divide h sz3 f) = f"
proof -
  obtain z d q where d: "uint d = uint sz3 * 2 ^ z" "0x8000 \<le> uint d"
    and q: "q = (uint h * 2 ^ z * uint (unr_result d) + 0x8000) div 0x10000"
    and r: "gte_divide h sz3 f = (word_of_int (min 0x1FFFF q), f)"
    by (rule gte_divide_quotient [OF assms])
  have q0: "0 \<le> q"
    unfolding q by (intro pos_imp_zdiv_nonneg_iff [THEN iffD2] add_nonneg_nonneg mult_nonneg_nonneg) simp_all
  have m: "uint (fst (gte_divide h sz3 f)) = min 0x1FFFF q"
    using q0 by (simp add: r uint_word_of_int_eq take_bit_int_eq_self)
  show "uint (fst (gte_divide h sz3 f)) \<le> 0x1FFFF" by (simp add: m)
  show "snd (gte_divide h sz3 f) = f" by (simp add: r)
  have "uint h * 2 ^ z < 2 * uint d" using assms unfolding d(1) by simp
  then have "\<bar>q * uint d - uint h * 2 ^ z * 0x10000\<bar> \<le> 5 * uint d"
    using round_bound [OF unr_result_accurate(1) [OF d(2)] _ _ q d(2)] by simp
  moreover have "q * uint d - uint h * 2 ^ z * 0x10000 = 2 ^ z * (q * uint sz3 - uint h * 0x10000)"
    unfolding d(1) by (simp add: algebra_simps)
  ultimately have "2 ^ z * \<bar>q * uint sz3 - uint h * 0x10000\<bar> \<le> 2 ^ z * (5 * uint sz3)"
    unfolding d(1) by (simp add: abs_mult)
  then have qs: "\<bar>q * uint sz3 - uint h * 0x10000\<bar> \<le> 5 * uint sz3" by simp
  show "\<bar>uint (fst (gte_divide h sz3 f)) * uint sz3 - uint h * 0x10000\<bar> \<le> 5 * uint sz3"
  proof (cases "q \<le> 0x1FFFF")
    case True with qs m show ?thesis by simp
  next
    case False
    then have "0x1FFFF * uint sz3 \<le> q * uint sz3" by (intro mult_right_mono) auto
    with qs m False assms show ?thesis by (simp add: abs_le_iff)
  qed
qed

end
