(* ===== verification/Gte_Laws.thy ===== *)
theory Gte_Laws
  imports Gte_Division
begin

text \<open>
  Laws of the geometry engine: register formats, counting, colours, the matrix product with its flags, the
  ranges of the accumulators, clipping, and the recompiler's entry points; its properties are at the end.
\<close>

section \<open>Register formats\<close>

definition clamp :: "int \<Rightarrow> int \<Rightarrow> int \<Rightarrow> int" where
  "clamp low high x = (if x < low then low else if x > high then high else x)"

definition mark :: "bool \<Rightarrow> nat \<Rightarrow> u32 \<Rightarrow> u32" where
  "mark b n f = (if b then flag_set n f else f)"

lemma saturate_ir_eq: "saturate_ir x n lm f =
    (clamp (ir_low lm) 0x7FFF x, mark (clamp (ir_low lm) 0x7FFF x \<noteq> x) (25 - n) f)"
  by (simp add: saturate_ir_def clamp_def mark_def Let_def)

lemma saturate_ir0_eq: "saturate_ir0 x f = (clamp 0 0x1000 x, mark (clamp 0 0x1000 x \<noteq> x) 12 f)"
  by (simp add: saturate_ir0_def clamp_def mark_def)

lemma saturate_sx_eq: "saturate_sx x f = (clamp (- 0x400) 0x3FF x, mark (clamp (- 0x400) 0x3FF x \<noteq> x) 14 f)"
  by (simp add: saturate_sx_def clamp_def mark_def)

lemma saturate_sy_eq: "saturate_sy x f = (clamp (- 0x400) 0x3FF x, mark (clamp (- 0x400) 0x3FF x \<noteq> x) 13 f)"
  by (simp add: saturate_sy_def clamp_def mark_def)

lemma saturate_sz_eq: "saturate_sz x f = (clamp 0 0xFFFF x, mark (clamp 0 0xFFFF x \<noteq> x) 18 f)"
  by (simp add: saturate_sz_def clamp_def mark_def)

lemma saturate_color_eq: "saturate_color ch x f = (word_of_int (clamp 0 0xFF x), mark (clamp 0 0xFF x \<noteq> x) (21 - ch) f)"
  by (simp add: saturate_color_def clamp_def mark_def)

lemma check_mac_overflow_eq: "check_mac_overflow x n f = mark (x < - (2 ^ 43)) (28 - n) (mark (x \<ge> 2 ^ 43) (31 - n) f)"
  by (simp add: check_mac_overflow_def mark_def Let_def)

lemma check_mac0_overflow_eq: "check_mac0_overflow x f = mark (x < - (2 ^ 31)) 15 (mark (x \<ge> 2 ^ 31) 16 f)"
  by (simp add: check_mac0_overflow_def mark_def Let_def)

lemmas saturate_eqs = saturate_ir_eq saturate_ir0_eq saturate_sx_eq saturate_sy_eq saturate_sz_eq saturate_color_eq
  check_mac_overflow_eq check_mac0_overflow_eq

lemma bit_flag_set: "bit (flag_set n f) m \<longleftrightarrow> bit f m \<or> n = m \<and> n < 32"
  by (auto simp: flag_set_def bit_simps)

lemma bit_mark: "bit (mark b n f) m \<longleftrightarrow> bit f m \<or> b \<and> n = m \<and> n < 32"
  by (simp add: mark_def bit_flag_set)

lemma clamp_bounds: "low \<le> high \<Longrightarrow> low \<le> clamp low high x" "low \<le> high \<Longrightarrow> clamp low high x \<le> high"
  by (auto simp: clamp_def)

definition mid_flag :: "u32 \<Rightarrow> bool" where
  "mid_flag f \<longleftrightarrow> (\<forall>n. bit f n \<longrightarrow> 12 \<le> n \<and> n \<le> 30)"

lemma mid_flag_mark [simp]: "mid_flag f \<Longrightarrow> 12 \<le> n \<Longrightarrow> n \<le> 30 \<Longrightarrow> mid_flag (mark b n f)"
  by (auto simp: mid_flag_def bit_mark)

definition sx16 :: "u32 \<Rightarrow> bool" where
  "sx16 w \<longleftrightarrow> - 0x8000 \<le> sint w \<and> sint w \<le> 0x7FFF"

lemma sint_of_u32_range: "- (2 ^ 31) \<le> x \<Longrightarrow> x < 2 ^ 31 \<Longrightarrow> sint (word_of_int x :: u32) = x"
  by (simp add: sint_sbintrunc' signed_take_bit_int_eq_self)

lemma sx16_clamp_ir [intro, simp]: "sx16 (word_of_int (clamp (ir_low lm) 0x7FFF x))"
  by (auto simp: sx16_def ir_low_def clamp_def sint_of_u32_range)

lemma sx16_clamp_ir0 [intro, simp]: "sx16 (word_of_int (clamp 0 0x1000 x))"
  by (auto simp: sx16_def clamp_def sint_of_u32_range)

lemma clamp_sz [intro, simp]: "(word_of_int (clamp 0 0xFFFF x) :: u32) \<le> 0xFFFF"
  by (auto simp: clamp_def word_le_def uint_word_of_int_eq take_bit_int_eq_self)

definition gte_ok :: "gte \<Rightarrow> bool" where
  "gte_ok g \<longleftrightarrow>
     list_all (\<lambda>r. sx16 (gte_data g r)) [d_VZ0, d_VZ1, d_VZ2, d_IR0, d_IR1, d_IR2, d_IR3] \<and>
     list_all (\<lambda>r. gte_data g r \<le> 0xFFFF) [d_OTZ, d_SZ0, d_SZ1, d_SZ2, d_SZ3] \<and> gte_data g d_LZCR \<le> 32 \<and>
     list_all (\<lambda>r. sx16 (gte_ctrl g r)) [c_RT33, c_L33, c_LB3, c_H, c_DQA, c_ZSF3, c_ZSF4] \<and> mid_flag (gte_flag g)"

lemma gte_ok_flag [simp]: "gte_ok g \<Longrightarrow> mid_flag f \<Longrightarrow> gte_ok (g\<lparr>gte_flag := f\<rparr>)"
  by (simp add: gte_ok_def)

lemma gte_ok_mid [simp]: "gte_ok g \<Longrightarrow> mid_flag (gte_flag g)"
  by (simp add: gte_ok_def)

lemma store_mac_ir_ok: "gte_ok g \<Longrightarrow> gte_ok (store_mac_ir m1 m2 m3 sf lm g)"
  by (auto simp: store_mac_ir_def saturate_eqs gte_ok_def Let_def)

lemma push_color_ok: "gte_ok g \<Longrightarrow> gte_ok (push_color g)"
  by (auto simp: push_color_def saturate_eqs gte_ok_def Let_def)

lemma push_sz_ok: "gte_ok g \<Longrightarrow> gte_ok (push_sz x g)"
  by (auto simp: push_sz_def saturate_eqs gte_ok_def Let_def)

lemma push_sxy_ok: "gte_ok g \<Longrightarrow> gte_ok (push_sxy x y g)"
  by (auto simp: push_sxy_def saturate_eqs gte_ok_def Let_def)

lemma mac_row_ok: "mid_flag f \<Longrightarrow> n \<in> {1, 2, 3} \<Longrightarrow> mid_flag (snd (mac_row tx p1 p2 p3 n f))"
  by (auto simp: mac_row_def mac_step_def saturate_eqs Let_def)

lemma gte_mvmva_fc_ok: "gte_ok g \<Longrightarrow> gte_ok (gte_mvmva_fc sf lm mx v g)"
  by (auto simp: gte_mvmva_fc_def saturate_eqs gte_ok_def Let_def)

lemma rtps_screen_ok: "gte_ok g \<Longrightarrow> gte_ok (rtps_screen q g)"
  by (auto simp: rtps_screen_def saturate_eqs Let_def intro!: push_sxy_ok)

lemma rtps_depth_ok: "gte_ok g \<Longrightarrow> gte_ok (rtps_depth q g)"
  by (auto simp: rtps_depth_def saturate_eqs gte_ok_def Let_def)

lemma gte_average_ok: "gte_ok g \<Longrightarrow> gte_ok (gte_average q g)"
  by (auto simp: gte_average_def saturate_eqs gte_ok_def Let_def)

lemma nclip_ok: "gte_ok g \<Longrightarrow> gte_ok (gte_cmd_nclip g)"
  by (auto simp: gte_cmd_nclip_def saturate_eqs gte_ok_def Let_def)

lemma interpolate_ok: "gte_ok g \<Longrightarrow> gte_ok (interpolate_color_acc a b c sf lm g)"
  by (auto simp: interpolate_color_acc_def saturate_eqs Let_def intro!: store_mac_ir_ok)

lemma mvmva_row_ok: "mid_flag f \<Longrightarrow> i < 3 \<Longrightarrow> mid_flag (snd (mvmva_row mx v cv i g f))"
  unfolding mvmva_row_def by (rule mac_row_ok) auto

lemma gte_mvmva_ok: "gte_ok g \<Longrightarrow> gte_ok (gte_mvmva sf lm mx v cv g)"
  by (auto simp: gte_mvmva_def case_prod_unfold Let_def mvmva_row_ok gte_mvmva_fc_ok store_mac_ir_ok)

lemma rtps_transform_ok: "gte_ok g \<Longrightarrow> gte_ok (rtps_transform v sf lm g)"
  unfolding rtps_transform_def saturate_eqs case_prod_unfold Let_def fst_conv snd_conv
    clamp_def [symmetric] mark_def [symmetric]
  by (intro push_sz_ok) (simp add: gte_ok_def mvmva_row_ok)

lemma gte_divide_ok: "mid_flag f \<Longrightarrow> mid_flag (snd (gte_divide h z f))"
  by (simp add: gte_divide_def case_prod_unfold Let_def mark_def [of True, simplified, symmetric])

lemma gte_rtps_core_ok: "gte_ok g \<Longrightarrow> gte_ok (gte_rtps_core v sf lm last_v g)"
  by (simp add: gte_rtps_core_def case_prod_unfold Let_def rtps_depth_ok rtps_screen_ok rtps_transform_ok gte_divide_ok)

lemmas gte_core_ok = store_mac_ir_ok push_color_ok gte_mvmva_ok gte_rtps_core_ok gte_average_ok nclip_ok interpolate_ok

lemmas gte_cmd_defs = gte_cmd_rtps_def gte_cmd_rtpt_def gte_cmd_avsz3_def gte_cmd_avsz4_def gte_cmd_op_def
  gte_cmd_mvmva_def gte_cmd_sqr_def gte_cmd_ncs_def gte_cmd_nct_def gte_cmd_nccs_def gte_cmd_ncct_def gte_cmd_ncds_def
  gte_cmd_ncdt_def gte_cmd_cc_def gte_cmd_cdp_def gte_cmd_dpcs_def gte_cmd_dpct_def gte_cmd_intpl_def gte_cmd_dcpl_def
  gte_cmd_gpf_def gte_cmd_gpl_def gte_ncs_core_def gte_nccs_core_def gte_ncds_core_def gte_light_def color_color_def
  color_depth_def

lemma depth_cue_ok: "gte_ok g \<Longrightarrow> gte_ok (depth_cue r sf lm g)"
  by (simp add: depth_cue_def Let_def gte_core_ok saturate_eqs)

lemma gte_command_ok: "gte_ok g \<Longrightarrow> gte_ok (gte_command opcode g)"
  by (simp add: gte_command_def Let_def gte_cmd_defs gte_core_ok depth_cue_ok numeral_3_eq_3)

definition flag_wf :: "u32 \<Rightarrow> bool" where
  "flag_wf w \<longleftrightarrow> w AND 0xFFF = 0 \<and> (bit w 31 \<longleftrightarrow> w AND 0x7F87E000 \<noteq> 0)"

definition gte_regs_ok :: "R3000CPU \<Rightarrow> bool" where
  "gte_regs_ok c \<longleftrightarrow>
     list_all (\<lambda>r. sx16 (cp2_data c r)) [d_VZ0, d_VZ1, d_VZ2, d_IR0, d_IR1, d_IR2, d_IR3] \<and>
     list_all (\<lambda>r. cp2_data c r \<le> 0xFFFF) [d_OTZ, d_SZ0, d_SZ1, d_SZ2, d_SZ3] \<and> cp2_data c d_LZCR \<le> 32 \<and>
     list_all (\<lambda>r. sx16 (cp2_ctrl c r)) [c_RT33, c_L33, c_LB3, c_H, c_DQA, c_ZSF3, c_ZSF4] \<and> flag_wf (cp2_ctrl c c_FLAG)"

lemma flag_wf_update:
  assumes "mid_flag f"
  shows "flag_wf (flag_update_bit31 f)"
proof -
  have "take_bit 12 f = 0" "\<not> bit f 31"
    using assms by (auto simp: mid_flag_def bit_eq_iff [of "take_bit 12 f"] bit_take_bit_iff)
  then have low: "f AND 0xFFF = 0" "\<not> bit f 31"
    by (simp_all add: take_bit_eq_mask mask_eq_exp_minus_1)
  then show ?thesis
    by (simp add: flag_wf_def flag_update_bit31_def bit.conj_disj_distrib2 bit_or_iff)
qed

lemma mid_flag_mask: "mid_flag (val AND 0x7FFFF000)"
proof -
  have m: "(0x7FFFF000 :: u32) = push_bit 12 (mask 19)" by (simp add: mask_eq_exp_minus_1 push_bit_eq_mult)
  show ?thesis unfolding m mid_flag_def bit_and_iff bit_push_bit_iff bit_mask_iff by auto
qed

lemma sint_sext_low16: "sint (sext_low16 v) = lo16 v"
  unfolding sext_low16_def sext16_def lo16_def by (rule sint_up_scast) (simp add: is_up)

lemma lo16_bounds: "- 0x8000 \<le> lo16 v" "lo16 v \<le> 0x7FFF"
  using sint_ge [of "ucast v :: u16"] sint_less [of "ucast v :: u16"] by (simp_all add: lo16_def)

lemma sx16_sext [simp]: "sx16 (sext_low16 v)"
  by (simp add: sx16_def sint_sext_low16 lo16_bounds)

lemma gte_run_ok:
  assumes "\<And>g. gte_ok g \<Longrightarrow> gte_ok (cmd g)" "gte_regs_ok c"
  shows "gte_regs_ok (gte_run cmd c)"
proof -
  let ?g = "\<lparr>gte_data = cp2_data c, gte_ctrl = cp2_ctrl c, gte_flag = 0\<rparr>"
  have "gte_ok ?g" using assms(2) by (simp add: gte_ok_def gte_regs_ok_def mid_flag_def)
  from assms(1) [OF this] show ?thesis
    by (simp add: gte_ok_def gte_regs_ok_def gte_run_def Let_def flag_wf_update)
qed

lemma GTE_Execute_ok: "gte_regs_ok c \<Longrightarrow> gte_regs_ok (GTE_Execute opcode c)"
  by (simp add: GTE_Execute_def gte_run_ok gte_command_ok)

section \<open>Counting\<close>

lemma u32_top: "(t :: u32) AND 0x80000000 = 0 \<longleftrightarrow> \<not> bit t 31"
  using and_exp_eq_0_iff_not_bit [of t 31] by simp

lemma count_leading_loop_eq:
  assumes "\<And>i. i < n \<Longrightarrow> \<not> bit t (31 - i)" "bit t (31 - n)" "n \<le> 31"
  shows "count_leading_loop t k = Some (k + of_nat n)"
  using assms
proof (induction n arbitrary: t k)
  case 0
  then show ?case by (subst count_leading_loop.simps) (simp add: u32_top)
next
  case (Suc n)
  have "count_leading_loop (push_bit 1 t) (k + 1) = Some (k + 1 + of_nat n)"
  proof (rule Suc.IH)
    fix i assume "i < n"
    then show "\<not> bit (push_bit 1 t) (31 - i)"
      using Suc.prems(1) [of "Suc i"] Suc.prems(3) unfolding bit_push_bit_iff by simp
  next
    show "bit (push_bit 1 t) (31 - n)" using Suc.prems(2,3) unfolding bit_push_bit_iff by auto
  qed (use Suc.prems in simp)
  moreover have "\<not> bit t 31" using Suc.prems(1) [of 0] by simp
  ultimately show ?case by (subst count_leading_loop.simps) (simp add: u32_top algebra_simps)
qed

lemma leading_bit:
  assumes "(t :: u32) \<noteq> 0"
  shows "\<exists>n \<le> 31. bit t (31 - n) \<and> (\<forall>i < n. \<not> bit t (31 - i))"
proof -
  obtain m where "bit t m" using assms by (auto simp: bit_eq_iff)
  moreover from this have "m \<le> 31" by (auto dest: bit_imp_le_length)
  ultimately have m: "bit t (31 - (31 - m))" by simp
  then show ?thesis
    using LeastI [of "\<lambda>n. bit t (31 - n)", OF m] Least_le [of "\<lambda>n. bit t (31 - n)", OF m]
      not_less_Least [of _ "\<lambda>n. bit t (31 - n)"] by (intro exI [of _ "LEAST n. bit t (31 - n)"]) auto
qed

lemma count_leading_spec:
  "\<exists>n \<le> 32. gte_count_leading val = Some (of_nat n) \<and> (\<forall>i < n. bit val (31 - i) = bit val 31) \<and>
     (n = 32 \<or> bit val (31 - n) \<noteq> bit val 31)"
proof (cases "val = 0 \<or> NOT val = 0")
  case True
  then have "val = 0 \<or> val = - 1" by (metis bit.double_compl bit.compl_zero)
  then show ?thesis by (intro exI [of _ 32]) (auto simp: gte_count_leading_def)
next
  case False
  define t where "t = (if bit val 31 then NOT val else val)"
  have "t \<noteq> 0" using False by (simp add: t_def)
  then obtain n where n: "n \<le> 31" "bit t (31 - n)" "\<forall>i < n. \<not> bit t (31 - i)"
    using leading_bit by blast
  have "sint val < 0 \<longleftrightarrow> bit val 31" using bit_last_iff [of val] by simp
  then have "gte_count_leading val = count_leading_loop t 0"
    using False by (auto simp: gte_count_leading_def t_def)
  then show ?thesis
    using n count_leading_loop_eq [OF _ n(2,1), of 0]
    by (intro exI [of _ n]) (auto simp: t_def bit_not_iff split: if_splits)
qed

section \<open>Register writes\<close>

lemma lzcr_le: "the (gte_count_leading val) \<le> 32"
proof -
  obtain n where n: "n \<le> 32" "gte_count_leading val = Some (of_nat n)"
    using count_leading_spec [of val] by auto
  then show ?thesis by (simp add: word_le_nat_alt unat_of_nat take_bit_nat_eq_self)
qed

lemma and_1F: "(reg :: u32) AND 0x1F = take_bit 5 reg"
  by (simp add: take_bit_eq_mask mask_eq_exp_minus_1)

lemma and_1F_self: "(reg :: u32) < 32 \<Longrightarrow> reg AND 0x1F = reg"
  unfolding and_1F word_unat_eq_iff unsigned_take_bit_eq by (simp add: word_less_nat_alt take_bit_nat_eq_self)

lemma GTE_WriteData_ok: "gte_regs_ok c \<Longrightarrow> reg < 32 \<Longrightarrow> gte_regs_ok (GTE_WriteData reg val c)"
  by (auto simp: GTE_WriteData_def gte_regs_ok_def and_1F_self Let_def lzcr_le word_and_le1)

lemma GTE_WriteCtrl_ok: "gte_regs_ok c \<Longrightarrow> reg < 32 \<Longrightarrow> gte_regs_ok (GTE_WriteCtrl reg val c)"
  by (auto simp: GTE_WriteCtrl_def gte_regs_ok_def and_1F_self Let_def flag_wf_update mid_flag_mask)

section \<open>Colours\<close>

lemma lo16_word_of_int: "- 0x8000 \<le> z \<Longrightarrow> z \<le> 0x7FFF \<Longrightarrow> lo16 (word_of_int z) = z"
  unfolding lo16_def ucast_eq uint_word_of_int_eq
  by (simp add: sint_sbintrunc' signed_take_bit_take_bit signed_take_bit_int_eq_self)

lemma irgb_field_expand: "irgb_field (sext_low16 (push_bit 7 (x AND 0x1F))) = x AND 0x1F"
proof -
  define y where "y = uint (x AND 0x1F)"
  have "uint (x AND 0x1F) = uint x mod 32" unfolding and_1F unsigned_take_bit_eq by (simp add: take_bit_eq_mod)
  then have y: "0 \<le> y" "y < 32" by (simp_all add: y_def)
  have x: "x AND 0x1F = word_of_int y" by (simp add: y_def)
  have p: "push_bit 7 (word_of_int y :: u32) = word_of_int (y * 0x80)" by (simp add: push_bit_eq_mult)
  have "lo16 (word_of_int (y * 0x80)) = y * 0x80" using y by (intro lo16_word_of_int) simp_all
  then have "sint (sext_low16 (push_bit 7 (word_of_int y))) = y * 0x80" unfolding p by (simp only: sint_sext_low16)
  then show ?thesis using y by (simp add: x irgb_field_def)
qed

lemma irgb_read_write:
  "GTE_ReadData 28 (GTE_WriteData 28 val c) = val AND 0x7FFF"
proof -
  have "(val AND 0x1F) OR push_bit 5 (drop_bit 5 val AND 0x1F) OR push_bit 10 (drop_bit 10 val AND 0x1F) = take_bit 15 val"
    (is "?l = ?r")
  proof (rule bit_word_eqI)
    show "bit ?l n = bit ?r n" if "n < LENGTH(32)" for n
      unfolding and_1F using that by (cases "n < 5"; cases "n < 10") (auto simp: bit_simps)
  qed
  moreover have "val AND 0x7FFF = take_bit 15 val" by (simp add: take_bit_eq_mask mask_eq_exp_minus_1)
  ultimately show ?thesis
    by (simp add: GTE_ReadData_def GTE_WriteData_def Let_def irgb_field_expand del: push_bit_and)
qed

section \<open>Exactness of the matrix product\<close>

definition in44 :: "int \<Rightarrow> bool" where "in44 x \<longleftrightarrow> - (2 ^ 43) \<le> x \<and> x < 2 ^ 43"

lemma wrap44_in44 [simp]: "in44 x \<Longrightarrow> wrap44 x = x"
  by (simp add: in44_def wrap44_def signed_take_bit_int_eq_self)

definition overflow_flag :: "nat \<Rightarrow> u32 \<Rightarrow> bool" where
  "overflow_flag n f \<longleftrightarrow> bit f (31 - n) \<or> bit f (28 - n)"

lemma overflow_flag_check:
  "1 \<le> n \<Longrightarrow> n \<le> 3 \<Longrightarrow> overflow_flag n (check_mac_overflow x n f) \<longleftrightarrow> overflow_flag n f \<or> \<not> in44 x"
  by (auto simp: overflow_flag_def check_mac_overflow_eq bit_mark in44_def)

lemma bit_check_mac_other: "m \<noteq> 31 - n \<Longrightarrow> m \<noteq> 28 - n \<Longrightarrow> bit (check_mac_overflow x n f) m = bit f m"
  by (auto simp: check_mac_overflow_eq bit_mark)

lemma mac_row_sum: "fst (mac_row tx p1 p2 p3 n f) = tx + p1 + p2 + p3"
  by (simp add: mac_row_def mac_step_def Let_def)

lemma mac_row_overflow:
  assumes "1 \<le> n" "n \<le> 3"
  shows "overflow_flag n (snd (mac_row tx p1 p2 p3 n f)) \<longleftrightarrow>
    overflow_flag n f \<or> \<not> (in44 tx \<and> in44 (tx + p1) \<and> in44 (tx + p1 + p2) \<and> in44 (tx + p1 + p2 + p3))"
  using assms by (cases "in44 tx"; cases "in44 (tx + p1)"; cases "in44 (tx + p1 + p2)")
    (auto simp: mac_row_def mac_step_def Let_def overflow_flag_check)

lemma mac_row_other: "m \<noteq> 31 - n \<Longrightarrow> m \<noteq> 28 - n \<Longrightarrow> bit (snd (mac_row tx p1 p2 p3 n f)) m = bit f m"
  by (simp add: mac_row_def mac_step_def Let_def bit_check_mac_other)

definition mvmva_term :: "nat \<Rightarrow> nat \<Rightarrow> nat \<Rightarrow> nat \<Rightarrow> gte \<Rightarrow> int" where
  "mvmva_term mx v i j g = get_matrix mx i j g * get_vector v j g"

definition mvmva_partial :: "nat \<Rightarrow> nat \<Rightarrow> nat \<Rightarrow> nat \<Rightarrow> nat \<Rightarrow> gte \<Rightarrow> int" where
  "mvmva_partial mx v cv i m g = get_translation cv i g * 0x1000 + (\<Sum>j < m. get_matrix mx i j g * get_vector v j g)"

lemma mvmva_row_eq:
  "mvmva_row mx v cv i g f = mac_row (mvmva_partial mx v cv i 0 g) (mvmva_term mx v i 0 g) (mvmva_term mx v i 1 g) (mvmva_term mx v i 2 g) (i + 1) f"
  by (simp add: mvmva_row_def mvmva_partial_def mvmva_term_def get_translation_def)

lemma mvmva_partial_Suc: "mvmva_partial mx v cv i (Suc m) g = mvmva_partial mx v cv i m g + mvmva_term mx v i m g"
  by (simp add: mvmva_partial_def mvmva_term_def)

lemma mvmva_row_sum: "fst (mvmva_row mx v cv i g f) = mvmva_partial mx v cv i 3 g"
  by (simp add: mvmva_row_eq mac_row_sum mvmva_partial_Suc eval_nat_numeral)

lemma below_3: "(i :: nat) < 3 \<Longrightarrow> (i = 0 \<Longrightarrow> P) \<Longrightarrow> (i = 1 \<Longrightarrow> P) \<Longrightarrow> (i = 2 \<Longrightarrow> P) \<Longrightarrow> P"
  by linarith

lemma ex_le_3: "(\<exists>m \<le> (3 :: nat). P m) \<longleftrightarrow> P 0 \<or> P 1 \<or> P 2 \<or> P 3"
  by (auto simp: le_Suc_eq eval_nat_numeral)

lemma mvmva_row_overflow:
  "i < 3 \<Longrightarrow> overflow_flag (i + 1) (snd (mvmva_row mx v cv i g f)) \<longleftrightarrow>
    overflow_flag (i + 1) f \<or> (\<exists>m \<le> 3. \<not> in44 (mvmva_partial mx v cv i m g))"
  unfolding ex_le_3 by (auto simp: mvmva_row_eq mac_row_overflow mvmva_partial_Suc eval_nat_numeral)

lemma mvmva_row_other: "m \<noteq> 30 - i \<Longrightarrow> m \<noteq> 27 - i \<Longrightarrow> bit (snd (mvmva_row mx v cv i g f)) m = bit f m"
  by (simp add: mvmva_row_eq mac_row_other)

lemma mvmva_row_overflow_other:
  "n \<in> {1, 2, 3} \<Longrightarrow> i < 3 \<Longrightarrow> n \<noteq> i + 1 \<Longrightarrow> overflow_flag n (snd (mvmva_row mx v cv i g f)) = overflow_flag n f"
  by (elim below_3) (auto simp: overflow_flag_def mvmva_row_other)

lemma overflow_flag_0 [simp]: "\<not> overflow_flag n 0"
  by (simp add: overflow_flag_def)

text \<open>What multiplication promises, for one row.\<close>

definition row_result :: "bool \<Rightarrow> bool \<Rightarrow> int \<Rightarrow> nat \<Rightarrow> gte \<Rightarrow> bool" where
  "row_result sf lm s i g \<longleftrightarrow>
     (let mac = word_of_int (if sf then s div 0x1000 else s); ir = clamp (ir_low lm) 0x7FFF (sint mac)
      in gte_data g (d_MAC1 + of_nat i) = mac \<and> gte_data g (d_IR1 + of_nat i) = word_of_int ir \<and>
         (bit (gte_flag g) (24 - i) \<longleftrightarrow> ir \<noteq> sint mac))"

lemma store_mac_ir_row:
  assumes "i < 3" "\<not> bit (gte_flag g) (24 - i)"
  shows "row_result sf lm ([m1, m2, m3] ! i) i (store_mac_ir m1 m2 m3 sf lm g)"
  using assms
  by (elim below_3) (simp_all add: row_result_def store_mac_ir_def saturate_eqs mac_shift_def Let_def bit_mark)

lemma store_mac_ir_overflow:
  assumes "i < 3"
  shows "overflow_flag (i + 1) (gte_flag (store_mac_ir m1 m2 m3 sf lm g)) \<longleftrightarrow>
    overflow_flag (i + 1) (gte_flag g) \<or> \<not> in44 ([m1, m2, m3] ! i)"
  using assms
  by (elim below_3) (auto simp: store_mac_ir_def saturate_eqs Let_def bit_mark overflow_flag_def in44_def)

lemma gte_mvmva_row:
  assumes "i < 3" "cv \<noteq> 2" "gte_flag g = 0"
  shows "row_result sf lm (mvmva_partial mx v cv i 3 g) i (gte_mvmva sf lm mx v cv g)"
    "overflow_flag (i + 1) (gte_flag (gte_mvmva sf lm mx v cv g)) \<longleftrightarrow> (\<exists>m \<le> 3. \<not> in44 (mvmva_partial mx v cv i m g))"
proof -
  define f where "f = (snd (mvmva_row mx v cv 2 g (snd (mvmva_row mx v cv 1 g (snd (mvmva_row mx v cv 0 g 0))))))"
  define s where "s = (\<lambda>i. mvmva_partial mx v cv i 3 g)"
  have eq: "gte_mvmva sf lm mx v cv g = store_mac_ir (s 0) (s 1) (s 2) sf lm (g\<lparr>gte_flag := f\<rparr>)"
    using assms(2,3) by (simp add: gte_mvmva_def case_prod_unfold Let_def mvmva_row_sum f_def s_def)
  have s: "[s 0, s 1, s 2] ! i = mvmva_partial mx v cv i 3 g"
    using assms(1) by (elim below_3) (simp_all add: s_def)
  have "\<not> bit f (24 - i)" using assms(1) unfolding f_def by (elim below_3) (simp_all add: mvmva_row_other)
  then show "row_result sf lm (mvmva_partial mx v cv i 3 g) i (gte_mvmva sf lm mx v cv g)"
    using store_mac_ir_row [OF assms(1), of "g\<lparr>gte_flag := f\<rparr>" sf lm "s 0" "s 1" "s 2", unfolded s] by (simp add: eq)
  have ov: "overflow_flag (i + 1) f \<longleftrightarrow> (\<exists>m \<le> 3. \<not> in44 (mvmva_partial mx v cv i m g))"
    using assms(1) unfolding f_def
    by (elim below_3) (simp_all add: mvmva_row_overflow [of 0, simplified] mvmva_row_overflow [of 1, simplified]
      mvmva_row_overflow [of 2, simplified] mvmva_row_overflow_other)
  then show "overflow_flag (i + 1) (gte_flag (gte_mvmva sf lm mx v cv g)) \<longleftrightarrow>
      (\<exists>m \<le> 3. \<not> in44 (mvmva_partial mx v cv i m g))"
    using assms(1) unfolding eq store_mac_ir_overflow [OF assms(1)] s gte.simps by auto
qed

lemma bit_flag_update: "m < 31 \<Longrightarrow> bit (flag_update_bit31 f) m = bit f m"
proof -
  have "(0x80000000 :: u32) = push_bit 31 1" by simp
  then show "m < 31 \<Longrightarrow> bit (flag_update_bit31 f) m = bit f m"
    unfolding flag_update_bit31_def by (simp only: bit_or_iff bit_push_bit_iff split: if_split) auto
qed

abbreviation gte_of :: "R3000CPU \<Rightarrow> gte" where
  "gte_of c \<equiv> \<lparr>gte_data = cp2_data c, gte_ctrl = cp2_ctrl c, gte_flag = 0\<rparr>"

lemma mvmva_execute:
  fixes opcode :: u32 and c :: R3000CPU
  defines "sf \<equiv> bit opcode 19" and "lm \<equiv> bit opcode 10" and "mx \<equiv> unat (drop_bit 17 opcode AND 3)"
    and "v \<equiv> unat (drop_bit 15 opcode AND 3)" and "cv \<equiv> unat (drop_bit 13 opcode AND 3)"
  defines "s \<equiv> \<lambda>i m. mvmva_partial mx v cv i m (gte_of c)"
  defines "mac \<equiv> \<lambda>i. word_of_int (if sf then s i 3 div 0x1000 else s i 3) :: u32"
  assumes "opcode AND 0x3F = 0x12" "cv \<noteq> 2" "i < 3"
  shows "cp2_data (GTE_Execute opcode c) (d_MAC1 + of_nat i) = mac i"
    "cp2_data (GTE_Execute opcode c) (d_IR1 + of_nat i) = word_of_int (clamp (ir_low lm) 0x7FFF (sint (mac i)))"
    "bit (cp2_ctrl (GTE_Execute opcode c) c_FLAG) (24 - i) \<longleftrightarrow> clamp (ir_low lm) 0x7FFF (sint (mac i)) \<noteq> sint (mac i)"
    "bit (cp2_ctrl (GTE_Execute opcode c) c_FLAG) (30 - i) \<or> bit (cp2_ctrl (GTE_Execute opcode c) c_FLAG) (27 - i) \<longleftrightarrow>
      (\<exists>m \<le> 3. \<not> in44 (s i m))"
proof -
  let ?g = "gte_mvmva sf lm mx v cv (gte_of c)"
  have ex: "GTE_Execute opcode c = c\<lparr>cp2_data := gte_data ?g, cp2_ctrl := (gte_ctrl ?g)(c_FLAG := flag_update_bit31 (gte_flag ?g))\<rparr>"
    using assms(8) by (simp add: GTE_Execute_def gte_run_def gte_command_def gte_cmd_mvmva_def Let_def sf_def lm_def mx_def v_def cv_def)
  note row = gte_mvmva_row [OF assms(10,9), of "gte_of c", simplified gte.simps, OF refl, of sf lm mx v]
  show "cp2_data (GTE_Execute opcode c) (d_MAC1 + of_nat i) = mac i"
    "cp2_data (GTE_Execute opcode c) (d_IR1 + of_nat i) = word_of_int (clamp (ir_low lm) 0x7FFF (sint (mac i)))"
    "bit (cp2_ctrl (GTE_Execute opcode c) c_FLAG) (24 - i) \<longleftrightarrow> clamp (ir_low lm) 0x7FFF (sint (mac i)) \<noteq> sint (mac i)"
    using row(1) unfolding row_result_def ex by (simp_all add: Let_def mac_def s_def bit_flag_update)
  show "bit (cp2_ctrl (GTE_Execute opcode c) c_FLAG) (30 - i) \<or> bit (cp2_ctrl (GTE_Execute opcode c) c_FLAG) (27 - i) \<longleftrightarrow>
      (\<exists>m \<le> 3. \<not> in44 (s i m))"
    using row(2) unfolding overflow_flag_def ex by (simp add: s_def bit_flag_update)
qed

section \<open>Clipping\<close>

lemma lo16_pair: "lo16 (ucast (a :: u16) OR push_bit 16 (ucast (b :: u16))) = sint a"
proof -
  have "(ucast (ucast a OR push_bit 16 (ucast b) :: u32) :: u16) = a"
    by (rule bit_word_eqI) (auto simp: bit_simps)
  then show ?thesis by (simp add: lo16_def)
qed

lemma hi16_pair: "hi16 (ucast (a :: u16) OR push_bit 16 (ucast (b :: u16))) = sint b"
proof -
  have "(ucast (drop_bit 16 (ucast a OR push_bit 16 (ucast b) :: u32)) :: u16) = b"
    by (rule bit_word_eqI) (auto simp: bit_simps)
  then show ?thesis by (simp add: hi16_def)
qed

definition on_screen :: "u32 \<Rightarrow> bool" where
  "on_screen w \<longleftrightarrow> - 0x400 \<le> lo16 w \<and> lo16 w \<le> 0x3FF \<and> - 0x400 \<le> hi16 w \<and> hi16 w \<le> 0x3FF"

lemma push_sxy_screen:
  "gte_data (push_sxy x y g) d_SXY0 = gte_data g d_SXY1" "gte_data (push_sxy x y g) d_SXY1 = gte_data g d_SXY2"
  "on_screen (gte_data (push_sxy x y g) d_SXY2)"
proof -
  have "sint (word_of_int (clamp (- 0x400) 0x3FF z) :: u16) = clamp (- 0x400) 0x3FF z" for z
    by (auto simp: clamp_def sint_sbintrunc' signed_take_bit_int_eq_self)
  then show "on_screen (gte_data (push_sxy x y g) d_SXY2)"
    by (simp add: push_sxy_def saturate_eqs Let_def on_screen_def lo16_pair hi16_pair clamp_bounds)
qed (simp_all add: push_sxy_def saturate_eqs Let_def)

lemma push_sz_keeps:
  "r \<notin> {d_SZ0, d_SZ1, d_SZ2, d_SZ3} \<Longrightarrow> gte_data (push_sz x (g\<lparr>gte_data := d, gte_flag := f\<rparr>)) r = d r"
  by (simp add: push_sz_def Let_def case_prod_unfold)

lemma rtps_transform_keeps:
  assumes "r \<in> {d_SXY0, d_SXY1, d_SXY2}"
  shows "gte_data (rtps_transform v sf lm g) r = gte_data g r"
proof -
  have "r \<notin> {d_SZ0, d_SZ1, d_SZ2, d_SZ3, d_MAC1, d_MAC2, d_MAC3, d_IR1, d_IR2, d_IR3}" using assms by auto
  then show ?thesis
    unfolding rtps_transform_def Let_def case_prod_unfold
    by (simp only: push_sz_keeps insert_iff empty_iff fun_upd_apply simp_thms if_False de_Morgan_disj)
qed

lemma rtps_depth_keeps:
  assumes "r \<in> {d_SXY0, d_SXY1, d_SXY2}"
  shows "gte_data (rtps_depth q g) r = gte_data g r"
  using assms unfolding rtps_depth_def Let_def case_prod_unfold by auto

lemma rtps_core_screen:
  "gte_data (gte_rtps_core v sf lm last_v g) d_SXY0 = gte_data g d_SXY1"
  "gte_data (gte_rtps_core v sf lm last_v g) d_SXY1 = gte_data g d_SXY2"
  "on_screen (gte_data (gte_rtps_core v sf lm last_v g) d_SXY2)"
  unfolding gte_rtps_core_def Let_def case_prod_unfold rtps_screen_def
  by (simp_all add: push_sxy_screen rtps_depth_keeps rtps_transform_keeps)

lemma nclip_bound:
  fixes x0 :: int
  assumes "-0x400 \<le> x0" "x0 \<le> 0x3FF" "- 0x7FF \<le> d" "d \<le> (0x7FF :: int)"
  shows "\<bar>x0 * d\<bar> \<le> 0x400 * 0x7FF"
  unfolding abs_mult using assms by (intro mult_mono) auto

lemma nclip_exact:
  assumes "on_screen (gte_data g d_SXY0)" "on_screen (gte_data g d_SXY1)" "on_screen (gte_data g d_SXY2)"
  defines "x \<equiv> \<lambda>r. lo16 (gte_data g r)" and "y \<equiv> \<lambda>r. hi16 (gte_data g r)"
  shows "sint (gte_data (gte_cmd_nclip g) d_MAC0) =
    (x d_SXY1 - x d_SXY0) * (y d_SXY2 - y d_SXY0) - (x d_SXY2 - x d_SXY0) * (y d_SXY1 - y d_SXY0)"
    "gte_flag (gte_cmd_nclip g) = gte_flag g"
proof -
  define a where "a = x d_SXY0 * (y d_SXY1 - y d_SXY2) + x d_SXY1 * (y d_SXY2 - y d_SXY0) + x d_SXY2 * (y d_SXY0 - y d_SXY1)"
  have "\<bar>x d_SXY0 * (y d_SXY1 - y d_SXY2)\<bar> \<le> 0x400 * 0x7FF" "\<bar>x d_SXY1 * (y d_SXY2 - y d_SXY0)\<bar> \<le> 0x400 * 0x7FF"
    "\<bar>x d_SXY2 * (y d_SXY0 - y d_SXY1)\<bar> \<le> 0x400 * 0x7FF"
    using assms(1-3) unfolding on_screen_def x_def y_def by (intro nclip_bound; simp)+
  then have a: "- (2 ^ 31) \<le> a" "a < 2 ^ 31" unfolding a_def abs_le_iff by simp_all
  have "gte_cmd_nclip g = (set_data d_MAC0 (word_of_int a) g)\<lparr>gte_flag := check_mac0_overflow a (gte_flag g)\<rparr>"
    unfolding gte_cmd_nclip_def Let_def a_def x_def y_def by simp
  moreover have "check_mac0_overflow a (gte_flag g) = gte_flag g" using a by (simp add: check_mac0_overflow_eq mark_def)
  ultimately show "gte_flag (gte_cmd_nclip g) = gte_flag g"
    "sint (gte_data (gte_cmd_nclip g) d_MAC0) =
    (x d_SXY1 - x d_SXY0) * (y d_SXY2 - y d_SXY0) - (x d_SXY2 - x d_SXY0) * (y d_SXY1 - y d_SXY0)"
    using sint_of_u32_range [OF a] by (simp_all add: a_def algebra_simps)
qed

section \<open>Ranges\<close>

lemma hi16_bounds: "- 0x8000 \<le> hi16 v" "hi16 v \<le> 0x7FFF"
  using sint_ge [of "ucast (drop_bit 16 v) :: u16"] sint_less [of "ucast (drop_bit 16 v) :: u16"] by (simp_all add: hi16_def)

lemma sint_bounds_u32: "- (2 ^ 31) \<le> sint (w :: u32)" "sint (w :: u32) < 2 ^ 31"
  using sint_ge [of w] sint_less [of w] by simp_all

lemma uint_byte: "uint (w AND 0xFF :: u32) \<le> 0xFF"
proof -
  have "w AND 0xFF = take_bit 8 w" by (simp add: take_bit_eq_mask mask_eq_exp_minus_1)
  then have "uint (w AND 0xFF) = take_bit 8 (uint w)" by (simp only: unsigned_take_bit_eq)
  then show ?thesis by (simp add: take_bit_eq_mod)
qed

lemma abs_lo16 [simp]: "\<bar>lo16 v\<bar> \<le> 0x8000"
  using lo16_bounds [of v] by (simp add: abs_le_iff)

lemma abs_hi16 [simp]: "\<bar>hi16 v\<bar> \<le> 0x8000"
  using hi16_bounds [of v] by (simp add: abs_le_iff)

lemma abs_sint_u32 [simp]: "\<bar>sint (w :: u32)\<bar> \<le> 2 ^ 31"
  using sint_bounds_u32 [of w] by (simp add: abs_le_iff)

lemma get_matrix_bounds: "\<bar>get_matrix mx row col g\<bar> \<le> 0x8000"
  using uint_byte [of "gte_data g d_RGBC"] by (simp add: get_matrix_def Let_def)

lemma get_vector_bounds: "\<bar>get_vector v k g\<bar> \<le> 0x8000"
  by (simp add: get_vector_def Let_def)

lemma abs_mult_le: "\<bar>a\<bar> \<le> m \<Longrightarrow> \<bar>b\<bar> \<le> n \<Longrightarrow> \<bar>a * b\<bar> \<le> m * (n :: int)"
  unfolding abs_mult by (intro mult_mono) auto

lemma mvmva_term_bound: "\<bar>get_matrix mx i j g * get_vector v j g\<bar> \<le> 2 ^ 30"
  using abs_mult_le [OF get_matrix_bounds get_vector_bounds, of mx i j g v j g] by simp

lemma get_translation_bound: "\<bar>get_translation cv i g * 0x1000\<bar> \<le> 2 ^ 43"
proof -
  have "\<bar>get_translation cv i g\<bar> \<le> 2 ^ 31" unfolding get_translation_def by (simp del: power_numeral)
  then show ?thesis by (simp add: abs_mult)
qed

lemma mvmva_partial_bound: "\<bar>mvmva_partial mx v cv i m g\<bar> \<le> 2 ^ 43 + 2 ^ 30 * int m"
proof (induction m)
  case 0 then show ?case using get_translation_bound by (simp add: mvmva_partial_def)
next
  case (Suc m)
  then show ?case using mvmva_term_bound [of mx i m g v]
    unfolding mvmva_partial_Suc mvmva_term_def by (simp add: algebra_simps)
qed

lemma wrap44_bound: "\<bar>wrap44 x\<bar> \<le> 2 ^ 43"
  using signed_take_bit_int_less_exp [of 43 x] signed_take_bit_int_greater_eq_minus_exp [of 43 x]
  by (simp add: wrap44_def abs_le_iff)

lemma in44_sint_div: "in44 s \<Longrightarrow> sint (word_of_int (s div 0x1000) :: u32) = s div 0x1000"
  by (rule sint_of_u32_range) (auto simp: in44_def)

section \<open>Packed selectors\<close>

lemmas gte_inline_defs = GTE_Inline_RTPS_def GTE_Inline_NCLIP_def GTE_Inline_OP_def GTE_Inline_DPCS_def
  GTE_Inline_INTPL_def GTE_Inline_MVMVA_def GTE_Inline_NCDS_def GTE_Inline_CDP_def GTE_Inline_NCDT_def
  GTE_Inline_NCCS_def GTE_Inline_CC_def GTE_Inline_NCS_def GTE_Inline_NCT_def GTE_Inline_SQR_def GTE_Inline_DCPL_def
  GTE_Inline_DPCT_def GTE_Inline_AVSZ3_def GTE_Inline_AVSZ4_def GTE_Inline_RTPT_def GTE_Inline_GPF_def
  GTE_Inline_GPL_def GTE_Inline_NCCT_def

lemma and_3: "(w :: u32) AND 3 = take_bit 2 w"
  by (simp add: take_bit_eq_mask mask_eq_exp_minus_1)

lemma and_1: "(w :: u32) AND 1 = take_bit 1 w"
  by (simp add: take_bit_eq_mask mask_eq_exp_minus_1)

lemma mvmva_packed:
  fixes sf lm mx v cv :: u32
  defines "p \<equiv> (sf AND 1) OR push_bit 1 (lm AND 1) OR push_bit 2 (mx AND 3) OR push_bit 4 (v AND 3) OR push_bit 6 (cv AND 3)"
  shows "bit p 0 = bit sf 0" "bit p 1 = bit lm 0" "drop_bit 2 p AND 3 = mx AND 3" "drop_bit 4 p AND 3 = v AND 3"
    "drop_bit 6 p AND 3 = cv AND 3"
proof -
  note bits = bit_or_iff bit_push_bit_iff bit_take_bit_iff bit_drop_bit_eq
  have field: "drop_bit k p AND 3 = w AND 3" if "bit p k = bit w 0" "bit p (k + 1) = bit w 1" for k w
    unfolding and_3
    by (rule bit_word_eqI) (use that in \<open>auto simp: bits numeral_2_eq_2 less_Suc_eq\<close>)
  show "bit p 0 = bit sf 0" "bit p 1 = bit lm 0" unfolding p_def and_3 and_1 bits by simp_all
  show "drop_bit 2 p AND 3 = mx AND 3" "drop_bit 4 p AND 3 = v AND 3" "drop_bit 6 p AND 3 = cv AND 3"
    by (rule field; unfold p_def and_3 and_1 bits; simp)+
qed

section \<open>Properties\<close>

text \<open>
  C37. The registers keep their formats.  If the sixteen-bit registers hold sign-extended values, the depth queue and
  the average sixteen-bit unsigned ones, the count at most 32, and FLAG has bit 31 exactly when one of its error
  bits is set and its low twelve bits clear, then this is so after every command, whatever the opcode, and
  after every write of a data or control register.
\<close>

theorem GTE_register_formats:
  assumes "gte_regs_ok c" "reg < 32"
  shows "gte_regs_ok (GTE_Execute opcode c) \<and> gte_regs_ok (GTE_WriteData reg val c) \<and> gte_regs_ok (GTE_WriteCtrl reg val c)"
  using assms by (simp_all add: GTE_Execute_ok GTE_WriteData_ok GTE_WriteCtrl_ok)

theorem GTE_register_formats_witness:
  "gte_regs_ok (GTE_Execute 0x4A280030 cpu_zero) \<and> gte_regs_ok (GTE_WriteData 30 0xFFFF0000 cpu_zero) \<and>
   gte_regs_ok (GTE_WriteCtrl 30 0xFFFF0000 cpu_zero)"
proof -
  have "gte_regs_ok cpu_zero" by (simp add: gte_regs_ok_def sx16_def flag_wf_def cpu_zero_def)
  from GTE_register_formats [OF this, of 30 "0x4A280030" "0xFFFF0000"] show ?thesis by simp
qed

text \<open>
  C38. The matrix command computes the product it names.  For every matrix, vector and translation selected by the
  opcode (the far-colour translation apart), the three accumulators receive the translation times 4096 plus the
  three products, divided by 4096 if the opcode asks for it and cut to 32 bits; the vector receives these values
  clamped; the saturation flag of each component is set exactly when clamping changed it, and one of its two
  overflow flags is set exactly when one of the partial sums leaves 44 bits, although the code tracks a
  wrapped accumulator.
\<close>

theorem GTE_matrix_product:
  fixes opcode :: u32 and c :: R3000CPU
  defines "sf \<equiv> bit opcode 19" and "lm \<equiv> bit opcode 10" and "mx \<equiv> unat (drop_bit 17 opcode AND 3)"
    and "v \<equiv> unat (drop_bit 15 opcode AND 3)" and "cv \<equiv> unat (drop_bit 13 opcode AND 3)"
  defines "s \<equiv> \<lambda>i m. mvmva_partial mx v cv i m (gte_of c)"
  defines "mac \<equiv> \<lambda>i. word_of_int (if sf then s i 3 div 0x1000 else s i 3) :: u32"
  assumes "opcode AND 0x3F = 0x12" "cv \<noteq> 2" "i < 3"
  shows "cp2_data (GTE_Execute opcode c) (d_MAC1 + of_nat i) = mac i \<and>
    cp2_data (GTE_Execute opcode c) (d_IR1 + of_nat i) = word_of_int (clamp (ir_low lm) 0x7FFF (sint (mac i))) \<and>
    (bit (cp2_ctrl (GTE_Execute opcode c) c_FLAG) (24 - i) \<longleftrightarrow> clamp (ir_low lm) 0x7FFF (sint (mac i)) \<noteq> sint (mac i)) \<and>
    (bit (cp2_ctrl (GTE_Execute opcode c) c_FLAG) (30 - i) \<or> bit (cp2_ctrl (GTE_Execute opcode c) c_FLAG) (27 - i) \<longleftrightarrow>
      (\<exists>m \<le> 3. \<not> in44 (s i m)))"
  unfolding mac_def s_def sf_def lm_def mx_def v_def cv_def
  by (intro conjI mvmva_execute assms(8,10) assms(9) [unfolded cv_def])

definition gte_example :: R3000CPU where
  "gte_example = cpu_zero\<lparr>cp2_data := (\<lambda>_. 0)(d_VXY0 := 0x00020001, d_VZ0 := 3),
     cp2_ctrl := (\<lambda>_. 0)(c_RT11RT12 := 0x1000, c_RT22RT23 := 0x1000, c_RT33 := 0x1000, c_TRX := 7)\<rparr>"

lemma gte_example_partial:
  "mvmva_partial 0 0 0 0 0 (gte_of gte_example) = 0x7000" "mvmva_partial 0 0 0 0 1 (gte_of gte_example) = 0x8000"
  "mvmva_partial 0 0 0 0 2 (gte_of gte_example) = 0x8000" "mvmva_partial 0 0 0 0 3 (gte_of gte_example) = 0x8000"
proof -
  note ev = gte_example_def get_matrix_def get_vector_def get_translation_def lo16_def hi16_def
  have terms: "mvmva_term 0 0 0 0 (gte_of gte_example) = 0x1000" "mvmva_term 0 0 0 1 (gte_of gte_example) = 0"
    "mvmva_term 0 0 0 2 (gte_of gte_example) = 0"
    by (simp_all add: mvmva_term_def ev)
  show p0: "mvmva_partial 0 0 0 0 0 (gte_of gte_example) = 0x7000" by (simp add: mvmva_partial_def ev)
  show p1: "mvmva_partial 0 0 0 0 1 (gte_of gte_example) = 0x8000"
    using mvmva_partial_Suc [of 0 0 0 0 0 "gte_of gte_example"] by (simp add: p0 terms)
  show p2: "mvmva_partial 0 0 0 0 2 (gte_of gte_example) = 0x8000"
    using mvmva_partial_Suc [of 0 0 0 0 1 "gte_of gte_example"] p1 terms by (simp add: numeral_2_eq_2)
  show "mvmva_partial 0 0 0 0 3 (gte_of gte_example) = 0x8000"
    using mvmva_partial_Suc [of 0 0 0 0 2 "gte_of gte_example"] p2 terms by (simp add: numeral_3_eq_3 numeral_2_eq_2)
qed

theorem GTE_matrix_product_witness:
  "cp2_data (GTE_Execute 0x00080012 gte_example) d_MAC1 = 8"
  using GTE_matrix_product [of "0x00080012" 0 gte_example] by (simp add: gte_example_partial bit_numeral_word_iff)

text \<open>
  C39. Unflagged products are exact.  No sum needs more than 45 bits, so the 64-bit accumulators never overflow; and
  when the overflow flags of a component are clear after a command with the shift, its accumulator register
  is the exact sum divided by 4096, not only modulo two to the 32.
\<close>

theorem GTE_matrix_exact:
  fixes opcode :: u32 and c :: R3000CPU
  defines "mx \<equiv> unat (drop_bit 17 opcode AND 3)"
    and "v \<equiv> unat (drop_bit 15 opcode AND 3)" and "cv \<equiv> unat (drop_bit 13 opcode AND 3)"
  defines "s \<equiv> \<lambda>i m. mvmva_partial mx v cv i m (gte_of c)"
  assumes "opcode AND 0x3F = 0x12" "bit opcode 19" "cv \<noteq> 2" "i < 3"
  assumes clear: "\<not> bit (cp2_ctrl (GTE_Execute opcode c) c_FLAG) (30 - i)"
    "\<not> bit (cp2_ctrl (GTE_Execute opcode c) c_FLAG) (27 - i)"
  shows "(\<forall>m \<le> 3. \<bar>s i m\<bar> < 2 ^ 44) \<and> sint (cp2_data (GTE_Execute opcode c) (d_MAC1 + of_nat i)) = s i 3 div 0x1000"
proof (intro conjI allI impI)
  show "\<bar>s i m\<bar> < 2 ^ 44" if "m \<le> 3" for m
    using that mvmva_partial_bound [of mx v cv i m "gte_of c"] by (simp add: s_def)
  from clear have "in44 (s i 3)"
    using mvmva_execute(4) [of opcode i c] assms(5-8) by (auto simp: s_def mx_def v_def cv_def)
  then show "sint (cp2_data (GTE_Execute opcode c) (d_MAC1 + of_nat i)) = s i 3 div 0x1000"
    using mvmva_execute(1) [of opcode i c] assms(5-8) by (simp add: s_def mx_def v_def cv_def in44_sint_div)
qed

theorem GTE_matrix_exact_witness:
  "sint (cp2_data (GTE_Execute 0x00080012 gte_example) d_MAC1) = 8"
proof -
  have p: "mvmva_partial 0 0 0 0 m (gte_of gte_example) = (if m = 0 then 0x7000 else 0x8000)" if "m \<le> 3" for m
    using that ex_le_3 [of "(=) m"] by (auto simp: gte_example_partial simp del: One_nat_def)
  have "in44 (mvmva_partial 0 0 0 0 m (gte_of gte_example))" if "m \<le> 3" for m
    using that by (simp add: p in44_def)
  then show ?thesis
    using GTE_matrix_exact [of "0x00080012" 0 gte_example] mvmva_execute(4) [of "0x00080012" 0 gte_example]
    by (auto simp: bit_numeral_word_iff gte_example_partial)
qed

text \<open>
  C40. The division behind the perspective projection is accurate.  If the distance is less than twice the depth, the
  table-driven quotient differs from the exact quotient times 65536 by at most five units, never exceeds 0x1FFFF and
  sets no flag; otherwise it is 0x1FFFF and the division flag is set.
\<close>

theorem GTE_division_accurate:
  "if uint h < 2 * uint sz3
   then \<bar>uint (fst (gte_divide h sz3 f)) * uint sz3 - uint h * 0x10000\<bar> \<le> 5 * uint sz3 \<and>
        uint (fst (gte_divide h sz3 f)) \<le> 0x1FFFF \<and> snd (gte_divide h sz3 f) = f
   else gte_divide h sz3 f = (0x1FFFF, flag_set 17 f)"
proof (cases "uint h < 2 * uint sz3")
  case True
  then show ?thesis by (simp add: gte_divide_close)
next
  case False
  then show ?thesis by (simp add: gte_divide_def mult.commute)
qed

text \<open>
  Counting leading bits returns for every value, with the number of bits from the top that equal the sign bit,
  at most 32.
\<close>

theorem GTE_count_leading_bits:
  "\<exists>n \<le> 32. gte_count_leading val = Some (of_nat n) \<and> (\<forall>i < n. bit val (31 - i) = bit val 31) \<and>
     (n = 32 \<or> bit val (31 - n) \<noteq> bit val 31)"
  by (rule count_leading_spec)

theorem GTE_count_leading_bits_witness:
  "\<exists>n \<le> 32. gte_count_leading 0xFFFF0000 = Some (of_nat n) \<and> (\<forall>i < n. bit (0xFFFF0000 :: u32) (31 - i)) \<and>
     (n = 32 \<or> \<not> bit (0xFFFF0000 :: u32) (31 - n))"
  using GTE_count_leading_bits [of "0xFFFF0000"] by simp

text \<open>
  A colour written to IRGB in the five-bit format is read back unchanged from IRGB and from ORGB.
\<close>

theorem GTE_colour_roundtrip:
  "GTE_ReadData 28 (GTE_WriteData 28 val c) = val AND 0x7FFF \<and> GTE_ReadData 29 (GTE_WriteData 28 val c) = val AND 0x7FFF"
  using irgb_read_write [of val c] by (simp_all add: GTE_ReadData_def)

text \<open>
  Clipping after projection is exact.  After the triple projection, whatever the registers held, the clip command
  leaves twice the signed area of the projected triangle in MAC0 and no flag: it cannot overflow on screen
  coordinates.
\<close>

theorem GTE_clip_after_projection:
  fixes c :: R3000CPU
  assumes "project AND 0x3F = 0x30" "clip AND 0x3F = 0x06"
  defines "c1 \<equiv> GTE_Execute project c" and "c2 \<equiv> GTE_Execute clip (GTE_Execute project c)"
  defines "x \<equiv> \<lambda>r. lo16 (cp2_data c1 r)" and "y \<equiv> \<lambda>r. hi16 (cp2_data c1 r)"
  shows "sint (cp2_data c2 d_MAC0) =
      (x d_SXY1 - x d_SXY0) * (y d_SXY2 - y d_SXY0) - (x d_SXY2 - x d_SXY0) * (y d_SXY1 - y d_SXY0) \<and>
    cp2_ctrl c2 c_FLAG = 0"
proof -
  have s: "on_screen (cp2_data c1 d_SXY0)" "on_screen (cp2_data c1 d_SXY1)" "on_screen (cp2_data c1 d_SXY2)"
    using assms(1) by (simp_all add: c1_def GTE_Execute_def gte_run_def gte_command_def gte_cmd_rtpt_def Let_def rtps_core_screen)
  have c2: "c2 = gte_run gte_cmd_nclip c1"
    using assms(2) by (simp add: c1_def c2_def GTE_Execute_def [of clip] gte_command_def Let_def)
  show ?thesis
    using nclip_exact [of "gte_of c1"] s
    by (simp add: c2 gte_run_def Let_def x_def y_def flag_update_bit31_def)
qed

theorem GTE_clip_after_projection_witness:
  "cp2_ctrl (GTE_Execute 0x06 (GTE_Execute 0x30 gte_example)) c_FLAG = 0"
  using GTE_clip_after_projection [of "0x30" "0x06" gte_example] by simp

text \<open>
  The recompiler's entry points are the dispatcher.  For every opcode the entry point that compiled code calls,
  with the opcode's shift and limit bits (or, for the matrix command, with its packed selectors), has the
  effect of the dispatcher on that opcode.
\<close>

theorem GTE_inline_entry_points: "gte_recompiled opcode c = GTE_Execute opcode c"
  unfolding gte_recompiled_def gte_packed_def Let_def
  by (simp only: gte_inline_defs mvmva_packed) (simp add: GTE_Execute_def gte_command_def bit_drop_bit_eq)

end
