(* ===== verification/Interpreter.thy ===== *)
theory Interpreter
  imports Bus Gte_Laws
begin

text \<open>
  The instruction interpreter of \<^verbatim>\<open>src/interpreter.c\<close>: decoding, every instruction, the load
  delay pipeline, branch delay slots, traps, the hooks for the firmware's character output
  (\<^verbatim>\<open>src/dynarec_insn.c\<close>) and the loop up to a deadline. The C function is one loop around one
  switch; here the groups of the switch are functions of their own, each returning whether the
  interpreter returns to its caller, and the new state. A store can start a transfer that never
  ends (see \<open>Dma\<close>), so a step is an option; the loop is partial for the same reason.

  Shown here: register zero stays zero; every continued step advances the clock; the interpreter returns
  outside delay slots unless the boot hook fires; a trap is precise; a delay slot commits its branch, even when
  its instruction trapped; a load is visible one instruction late.
\<close>

section \<open>State\<close>

record imachine = machine +
  branch_target :: u32
  branch_state :: nat
  binary_loaded :: bool

definition interpreter_reset_state :: "'a imachine_scheme \<Rightarrow> 'a imachine_scheme" where
  "interpreter_reset_state s = s\<lparr>branch_state := 0, branch_target := 0\<rparr>"

section \<open>Decoding\<close>

definition r3000a_cycle_cost :: "u32 \<Rightarrow> u32" where
  "r3000a_cycle_cost opcode =
     (let op = drop_bit 26 opcode; func = opcode AND 0x3F
      in if op = 0x00
         then if func = 0x18 \<or> func = 0x19 then 6 else if func = 0x1A \<or> func = 0x1B then 2 else 1
         else if op \<in> {0x20, 0x21, 0x22, 0x23, 0x24, 0x25, 0x26, 0x32} then 2 else 1)"

definition instruction_is_load :: "u32 \<Rightarrow> bool" where
  "instruction_is_load opcode \<longleftrightarrow> (let op = drop_bit 26 opcode in op \<ge> 0x20 \<and> op \<le> 0x26)"

definition instruction_writes_gpr :: "u32 \<Rightarrow> u32 \<Rightarrow> bool" where
  "instruction_writes_gpr opcode reg \<longleftrightarrow>
     (let op = drop_bit 26 opcode; func = opcode AND 0x3F; rs = drop_bit 21 opcode AND 0x1F;
          rt = drop_bit 16 opcode AND 0x1F; rd = drop_bit 11 opcode AND 0x1F
      in if reg = 0 then False
         else if op = 0x00
         then if func \<ge> 0x18 \<and> func \<le> 0x1B then False
              else if func = 0x08 then False
              else if func = 0x11 \<or> func = 0x13 then False
              else if func = 0x0C \<or> func = 0x0D then False
              else rd = reg
         else if op \<ge> 0x08 \<and> op \<le> 0x0F then rt = reg
         else if op \<ge> 0x20 \<and> op \<le> 0x26 then rt = reg
         else if op = 0x03 then reg = 31
         else if op = 0x12 \<and> (rs = 0x00 \<or> rs = 0x02) then rt = reg
         else if op = 0x10 \<and> rs = 0x00 then rt = reg
         else False)"

definition i_rs :: "u32 \<Rightarrow> u32" where "i_rs opcode = drop_bit 21 opcode AND 31"
definition i_rt :: "u32 \<Rightarrow> u32" where "i_rt opcode = drop_bit 16 opcode AND 31"
definition i_rd :: "u32 \<Rightarrow> u32" where "i_rd opcode = drop_bit 11 opcode AND 31"
definition i_shamt :: "u32 \<Rightarrow> nat" where "i_shamt opcode = unat (drop_bit 6 opcode AND 31)"
definition i_imm :: "u32 \<Rightarrow> u32" where "i_imm opcode = opcode AND 0xFFFF"
definition i_imm_se :: "u32 \<Rightarrow> u32" where "i_imm_se opcode = sext16 (ucast opcode)"

section \<open>Pieces of a step\<close>

text \<open>The result of an instruction: whether the interpreter returns, and the state.\<close>

type_synonym 'm outcome = "(bool \<times> 'm) option"

definition continue_with :: "'m \<Rightarrow> 'm outcome" where
  "continue_with s = Some (False, s)"

definition trap_return :: "'a imachine_scheme \<Rightarrow> 'a imachine_scheme outcome" where
  "trap_return s = Some (True, s\<lparr>branch_state := 0\<rparr>)"

definition do_branch :: "u32 \<Rightarrow> 'a imachine_scheme \<Rightarrow> 'a imachine_scheme" where
  "do_branch target s = s\<lparr>branch_target := target, branch_state := 1\<rparr>"

definition branch_if :: "bool \<Rightarrow> u32 \<Rightarrow> 'a imachine_scheme \<Rightarrow> 'a imachine_scheme" where
  "branch_if b opcode s = (if b then do_branch (pc (cpu s) + push_bit 2 (i_imm_se opcode)) s else s)"

definition put_reg :: "u32 \<Rightarrow> u32 \<Rightarrow> 'a core_scheme \<Rightarrow> 'a core_scheme" where
  "put_reg r v s = (if r \<noteq> 0 then set_reg r v s else s)"

definition delay_load :: "u32 \<Rightarrow> u32 \<Rightarrow> 'a core_scheme \<Rightarrow> 'a core_scheme" where
  "delay_load r v s = s\<lparr>cpu := (cpu s)\<lparr>load_delay_reg := r, load_delay_val := v\<rparr>\<rparr>"

text \<open>A load reads memory only if it has a destination.\<close>

definition load_with :: "u32 \<Rightarrow> ('a imachine_scheme \<Rightarrow> u32 \<times> 'a imachine_scheme) \<Rightarrow> 'a imachine_scheme \<Rightarrow>
    'a imachine_scheme outcome" where
  "load_with rt rd_mem s =
     (if rt \<noteq> 0 then let (v, s1) = rd_mem s in continue_with (delay_load rt v s1) else continue_with s)"

text \<open>The unaligned loads merge with the value that is about to be committed to their register.\<close>

definition load_base :: "u32 \<Rightarrow> R3000CPU \<Rightarrow> u32" where
  "load_base rt c = (if load_commit_reg c = rt \<and> rt \<noteq> 0 then load_commit_val c else regs c rt)"

section \<open>Instructions\<close>

definition exec_special :: "u32 \<Rightarrow> 'a imachine_scheme \<Rightarrow> 'a imachine_scheme outcome" where
  "exec_special opcode s =
     (let c = cpu s; funct = opcode AND 63; rd = i_rd opcode; shamt = i_shamt opcode;
          a = regs c (i_rs opcode); b = regs c (i_rt opcode)
      in if funct = 0x00 then continue_with (put_reg rd (push_bit shamt b) s)
         else if funct = 0x02 then continue_with (put_reg rd (drop_bit shamt b) s)
         else if funct = 0x03 then continue_with (put_reg rd (signed_drop_bit shamt b) s)
         else if funct = 0x04 then continue_with (put_reg rd (push_bit (unat (a AND 31)) b) s)
         else if funct = 0x06 then continue_with (put_reg rd (drop_bit (unat (a AND 31)) b) s)
         else if funct = 0x07 then continue_with (put_reg rd (signed_drop_bit (unat (a AND 31)) b) s)
         else if funct = 0x08 then continue_with (do_branch a s)
         else if funct = 0x09 then continue_with (put_reg rd (pc c + 4) (do_branch a s))
         else if funct = 0x0C then trap_return (Helper_Syscall_Exception (current_pc c) s)
         else if funct = 0x0D then trap_return (Helper_Break_Exception (current_pc c) s)
         else if funct = 0x10 then continue_with (put_reg rd (hi c) s)
         else if funct = 0x11 then continue_with (s\<lparr>cpu := c\<lparr>hi := a\<rparr>\<rparr>)
         else if funct = 0x12 then continue_with (put_reg rd (lo c) s)
         else if funct = 0x13 then continue_with (s\<lparr>cpu := c\<lparr>lo := a\<rparr>\<rparr>)
         else if funct = 0x18
         then let val = sint a * sint b
              in continue_with (s\<lparr>cpu := c\<lparr>hi := word_of_int (val div 2 ^ 32), lo := word_of_int val\<rparr>\<rparr>)
         else if funct = 0x19
         then let val = (ucast a * ucast b :: u64)
              in continue_with (s\<lparr>cpu := c\<lparr>hi := ucast (drop_bit 32 val), lo := ucast val\<rparr>\<rparr>)
         else if funct = 0x1A
         then let (l, h) = Helper_DIV a b in continue_with (s\<lparr>cpu := c\<lparr>lo := l, hi := h\<rparr>\<rparr>)
         else if funct = 0x1B
         then let (l, h) = Helper_DIVU a b in continue_with (s\<lparr>cpu := c\<lparr>lo := l, hi := h\<rparr>\<rparr>)
         else if funct = 0x20 then continue_with (Helper_ADD a b rd (current_pc c) s)
         else if funct = 0x21 then continue_with (put_reg rd (a + b) s)
         else if funct = 0x22 then continue_with (Helper_SUB a b rd (current_pc c) s)
         else if funct = 0x23 then continue_with (put_reg rd (a - b) s)
         else if funct = 0x24 then continue_with (put_reg rd (a AND b) s)
         else if funct = 0x25 then continue_with (put_reg rd (a OR b) s)
         else if funct = 0x26 then continue_with (put_reg rd (a XOR b) s)
         else if funct = 0x27 then continue_with (put_reg rd (NOT (a OR b)) s)
         else if funct = 0x2A then continue_with (put_reg rd (if sint a < sint b then 1 else 0) s)
         else if funct = 0x2B then continue_with (put_reg rd (if a < b then 1 else 0) s)
         else trap_return (Helper_Break_Exception (current_pc c) s))"

definition exec_regimm :: "u32 \<Rightarrow> 'a imachine_scheme \<Rightarrow> 'a imachine_scheme outcome" where
  "exec_regimm opcode s =
     (let c = cpu s; rt = i_rt opcode; a = regs c (i_rs opcode); ret = pc c + 4
      in if rt = 0x00 then continue_with (branch_if (sint a < 0) opcode s)
         else if rt = 0x01 then continue_with (branch_if (sint a \<ge> 0) opcode s)
         else if rt = 0x10 then continue_with (set_reg 31 ret (branch_if (sint a < 0) opcode s))
         else if rt = 0x11 then continue_with (set_reg 31 ret (branch_if (sint a \<ge> 0) opcode s))
         else if rt AND 1 \<noteq> 0 then continue_with (branch_if (sint a \<ge> 0) opcode s)
         else continue_with (branch_if (sint a < 0) opcode s))"

definition jump_target :: "u32 \<Rightarrow> R3000CPU \<Rightarrow> u32" where
  "jump_target opcode c = (pc c AND 0xF0000000) OR push_bit 2 (opcode AND 0x3FFFFFF)"

definition exec_imm :: "u32 \<Rightarrow> u32 \<Rightarrow> 'a imachine_scheme \<Rightarrow> 'a imachine_scheme" where
  "exec_imm op opcode s =
     (let c = cpu s; rt = i_rt opcode; a = regs c (i_rs opcode); imm = i_imm opcode; imm_se = i_imm_se opcode
      in if op = 0x08 then Helper_ADDI a imm_se rt (current_pc c) s
         else if op = 0x09 then put_reg rt (a + imm_se) s
         else if op = 0x0A then put_reg rt (if sint a < sint imm_se then 1 else 0) s
         else if op = 0x0B then put_reg rt (if a < imm_se then 1 else 0) s
         else if op = 0x0C then put_reg rt (a AND imm) s
         else if op = 0x0D then put_reg rt (a OR imm) s
         else if op = 0x0E then put_reg rt (a XOR imm) s
         else put_reg rt (push_bit 16 imm) s)"

definition exec_cop0 :: "u32 \<Rightarrow> 'a imachine_scheme \<Rightarrow> 'a imachine_scheme" where
  "exec_cop0 opcode s =
     (let c = cpu s; rs = i_rs opcode; rt = i_rt opcode; rd = i_rd opcode
      in if rs = 0x00 then (if rt \<noteq> 0 then delay_load rt (cop0 c rd) s else s)
         else if rs = 0x04
         then let c1 = c\<lparr>cop0 := (cop0 c)(rd := regs c rt)\<rparr>
              in s\<lparr>cpu := (if rd = PSX_COP0_SR then c1\<lparr>irq_pending_fast := irq_pending c AND (regs c rt AND 1)\<rparr> else c1)\<rparr>
         else if rs = 0x10
         then let sr = rfe_pop_mode (cop0 c PSX_COP0_SR)
              in s\<lparr>cpu := c\<lparr>cop0 := (cop0 c)(PSX_COP0_SR := sr), irq_pending_fast := irq_pending c AND (sr AND 1)\<rparr>\<rparr>
         else s)"

definition exec_cop2 :: "u32 \<Rightarrow> 'a imachine_scheme \<Rightarrow> 'a imachine_scheme" where
  "exec_cop2 opcode s =
     (let c = cpu s; rs = i_rs opcode; rt = i_rt opcode; rd = i_rd opcode
      in if rs = 0x00 then put_reg rt (GTE_ReadData rd c) s
         else if rs = 0x02 then put_reg rt (GTE_ReadCtrl rd c) s
         else if rs = 0x04 then s\<lparr>cpu := GTE_WriteData rd (regs c rt) c\<rparr>
         else if rs = 0x06 then s\<lparr>cpu := GTE_WriteCtrl rd (regs c rt) c\<rparr>
         else s\<lparr>cpu := GTE_Execute opcode c\<rparr>)"

definition exec_load :: "'a imachine_scheme devices \<Rightarrow> u32 \<Rightarrow> u32 \<Rightarrow> 'a imachine_scheme \<Rightarrow> 'a imachine_scheme outcome" where
  "exec_load d op opcode s =
     (let c = cpu s; rt = i_rt opcode; addr = regs c (i_rs opcode) + i_imm_se opcode; base = load_base rt c
      in if op = 0x20 then load_with rt (\<lambda>s. apfst (\<lambda>v. scast v) (ReadByte d addr s)) s
         else if op = 0x21
         then if addr AND 1 \<noteq> 0 then trap_return (address_error 4 addr s)
              else load_with rt (\<lambda>s. apfst sext16 (ReadHalf d addr s)) s
         else if op = 0x22 then load_with rt (Helper_LWL d addr base) s
         else if op = 0x23
         then if addr AND 3 \<noteq> 0 then trap_return (address_error 4 addr s) else load_with rt (ReadWord d addr) s
         else if op = 0x24 then load_with rt (\<lambda>s. apfst (\<lambda>v. ucast v) (ReadByte d addr s)) s
         else if op = 0x25
         then if addr AND 1 \<noteq> 0 then trap_return (address_error 4 addr s)
              else load_with rt (\<lambda>s. apfst (\<lambda>v. ucast v) (ReadHalf d addr s)) s
         else load_with rt (Helper_LWR d addr base) s)"

definition exec_store ::
  "pads \<Rightarrow> 'a imachine_scheme devices \<Rightarrow> u32 \<Rightarrow> u32 \<Rightarrow> 'a imachine_scheme \<Rightarrow> 'a imachine_scheme outcome" where
  "exec_store p d op opcode s =
     (let c = cpu s; addr = regs c (i_rs opcode) + i_imm_se opcode; b = regs c (i_rt opcode)
      in if op = 0x28 then map_option (Pair False) (WriteByte p d addr (ucast b) s)
         else if op = 0x29
         then if addr AND 1 \<noteq> 0 then trap_return (address_error 5 addr s)
              else map_option (Pair False) (WriteHalf p d addr (ucast b) s)
         else if op = 0x2A then map_option (Pair False) (Helper_SWL p d addr b s)
         else if op = 0x2B
         then if addr AND 3 \<noteq> 0 then trap_return (address_error 5 addr s)
              else map_option (Pair False) (WriteWord p d addr b s)
         else map_option (Pair False) (Helper_SWR p d addr b s))"

definition exec_lwc2 :: "'a imachine_scheme devices \<Rightarrow> u32 \<Rightarrow> 'a imachine_scheme \<Rightarrow> 'a imachine_scheme outcome" where
  "exec_lwc2 d opcode s =
     (let addr = regs (cpu s) (i_rs opcode) + i_imm_se opcode
      in if addr AND 3 \<noteq> 0 then trap_return (address_error 4 addr s)
         else let (v, s1) = ReadWord d addr s
              in continue_with (s1\<lparr>cpu := GTE_WriteData (i_rt opcode) v (cpu s1)\<rparr>))"

definition exec_swc2 ::
  "pads \<Rightarrow> 'a imachine_scheme devices \<Rightarrow> u32 \<Rightarrow> 'a imachine_scheme \<Rightarrow> 'a imachine_scheme outcome" where
  "exec_swc2 p d opcode s =
     (let addr = regs (cpu s) (i_rs opcode) + i_imm_se opcode
      in if addr AND 3 \<noteq> 0 then trap_return (address_error 5 addr s)
         else map_option (Pair False) (WriteWord p d addr (GTE_ReadData (i_rt opcode) (cpu s)) s))"

definition exec_instruction ::
  "pads \<Rightarrow> 'a imachine_scheme devices \<Rightarrow> u32 \<Rightarrow> 'a imachine_scheme \<Rightarrow> 'a imachine_scheme outcome" where
  "exec_instruction p d opcode s =
     (let op = drop_bit 26 opcode; c = cpu s; a = regs c (i_rs opcode); b = regs c (i_rt opcode)
      in if op = 0x00 then exec_special opcode s
         else if op = 0x01 then exec_regimm opcode s
         else if op = 0x02 then continue_with (do_branch (jump_target opcode c) s)
         else if op = 0x03 then continue_with (set_reg 31 (pc c + 4) (do_branch (jump_target opcode c) s))
         else if op = 0x04 then continue_with (branch_if (a = b) opcode s)
         else if op = 0x05 then continue_with (branch_if (a \<noteq> b) opcode s)
         else if op = 0x06 then continue_with (branch_if (sint a \<le> 0) opcode s)
         else if op = 0x07 then continue_with (branch_if (sint a > 0) opcode s)
         else if op \<ge> 0x08 \<and> op \<le> 0x0F then continue_with (exec_imm op opcode s)
         else if op = 0x10 then continue_with (exec_cop0 opcode s)
         else if op = 0x11 then trap_return (Helper_CU_Exception (current_pc c) 1 s)
         else if op = 0x12 then continue_with (exec_cop2 opcode s)
         else if op = 0x13 then trap_return (Helper_CU_Exception (current_pc c) 3 s)
         else if op \<ge> 0x20 \<and> op \<le> 0x26 then exec_load d op opcode s
         else if op \<ge> 0x28 \<and> op \<le> 0x2B \<or> op = 0x2E then exec_store p d op opcode s
         else if op = 0x30 then trap_return (Helper_CU_Exception (current_pc c) 0 s)
         else if op = 0x31 then trap_return (Helper_CU_Exception (current_pc c) 1 s)
         else if op = 0x32 then exec_lwc2 d opcode s
         else if op = 0x33 then trap_return (Helper_CU_Exception (current_pc c) 3 s)
         else if op = 0x38 then trap_return (Helper_CU_Exception (current_pc c) 0 s)
         else if op = 0x39 then trap_return (Helper_CU_Exception (current_pc c) 1 s)
         else if op = 0x3A then exec_swc2 p d opcode s
         else if op = 0x3B then trap_return (Helper_CU_Exception (current_pc c) 3 s)
         else trap_return (Helper_Break_Exception (current_pc c) s))"

section \<open>Firmware calls\<close>

definition bios_return :: "u32 \<Rightarrow> 'a machine_scheme \<Rightarrow> bool \<times> 'a machine_scheme" where
  "bios_return v s =
     (let c = cpu s
      in (True, s\<lparr>tty := tty s @ [ucast (regs c 4)], cpu := c\<lparr>regs := (regs c)(2 := v), pc := regs c 31\<rparr>\<rparr>))"

definition BIOS_HLE_A :: "'a machine_scheme \<Rightarrow> bool \<times> 'a machine_scheme" where
  "BIOS_HLE_A s = (if regs (cpu s) 9 = 0x3C then bios_return (regs (cpu s) 4) s else (False, s))"

definition BIOS_HLE_B :: "'a machine_scheme \<Rightarrow> bool \<times> 'a machine_scheme" where
  "BIOS_HLE_B s =
     (if regs (cpu s) 9 = 0x3B then bios_return (regs (cpu s) 4) s
      else if regs (cpu s) 9 = 0x3D then bios_return 1 s
      else (False, s))"

definition BIOS_HLE_C :: "'a machine_scheme \<Rightarrow> bool \<times> 'a machine_scheme" where
  "BIOS_HLE_C s = (False, s)"

definition bios_call :: "'a machine_scheme \<Rightarrow> bool \<times> 'a machine_scheme" where
  "bios_call s =
     (let phys = pc (cpu s) AND 0x1FFFFFFF
      in if phys = 0xA0 then BIOS_HLE_A s else if phys = 0xB0 then BIOS_HLE_B s
         else if phys = 0xC0 then BIOS_HLE_C s else (False, s))"

section \<open>The loop\<close>

definition boot_hook :: "'a imachine_scheme \<Rightarrow> bool" where
  "boot_hook s \<longleftrightarrow> \<not> binary_loaded s \<and>
     (pc (cpu s) = 0x80030000 \<or> pc (cpu s) \<ge> 0x001A45A0 \<and> pc (cpu s) \<le> 0x001A4620)"

definition apply_load_delay :: "R3000CPU \<Rightarrow> R3000CPU" where
  "apply_load_delay c =
     (let c1 = (if load_commit_reg c \<noteq> 0
                then (if load_delay_reg c \<noteq> load_commit_reg c
                      then c\<lparr>regs := (regs c)(load_commit_reg c := load_commit_val c, 0 := 0)\<rparr> else c)
                     \<lparr>load_commit_reg := 0\<rparr>
                else c)
      in if load_delay_reg c1 \<noteq> 0
         then c1\<lparr>load_commit_reg := load_delay_reg c1, load_commit_val := load_delay_val c1, load_delay_reg := 0\<rparr>
         else c1)"

definition cancel_load :: "u32 \<Rightarrow> R3000CPU \<Rightarrow> R3000CPU" where
  "cancel_load opcode c =
     (if load_commit_reg c \<noteq> 0 \<and> \<not> instruction_is_load opcode \<and> instruction_writes_gpr opcode (load_commit_reg c)
      then c\<lparr>load_commit_reg := 0\<rparr> else c)"

definition commit_branch :: "'a imachine_scheme \<Rightarrow> 'a imachine_scheme" where
  "commit_branch s =
     (if branch_state s = 2 then s\<lparr>cpu := (cpu s)\<lparr>pc := branch_target s\<rparr>, branch_state := 0\<rparr>
      else if branch_state s = 1 then s\<lparr>branch_state := 2\<rparr> else s)"

text \<open>What follows an instruction that did not return: the clock, an aborted block, the next deadline.\<close>

definition finish_instruction :: "u32 \<Rightarrow> 'a imachine_scheme \<Rightarrow> bool \<times> 'a imachine_scheme" where
  "finish_instruction opcode s =
     (let s1 = commit_branch (s\<lparr>cpu := cancel_load opcode (cpu s)\<rparr>);
          s2 = s1\<lparr>global_cycles := global_cycles s1 + ucast (r3000a_cycle_cost opcode)\<rparr>
      in if block_aborted (cpu s2)
         then (True, s2\<lparr>cpu := (cpu s2)\<lparr>pc := psx_abort_pc s2, block_aborted := False\<rparr>, branch_state := 0\<rparr>)
         else (global_cycles s2 \<ge> sched_cached_earliest s2 \<and> branch_state s2 = 0, s2))"

definition fetch_execute ::
  "pads \<Rightarrow> 'a imachine_scheme devices \<Rightarrow> 'a imachine_scheme \<Rightarrow> 'a imachine_scheme outcome" where
  "fetch_execute p d s =
     (let at = pc (cpu s); (opcode, s1) = ReadWord d at (s\<lparr>cpu := (cpu s)\<lparr>current_pc := at\<rparr>\<rparr>);
          s2 = s1\<lparr>cpu := apply_load_delay ((cpu s1)\<lparr>pc := pc (cpu s1) + 4\<rparr>)\<rparr>
      in case exec_instruction p d opcode s2 of
           None \<Rightarrow> None
         | Some (returned, s3) \<Rightarrow> Some (if returned then (True, s3) else finish_instruction opcode s3))"

definition interpreter_step ::
  "pads \<Rightarrow> 'a imachine_scheme devices \<Rightarrow> 'a imachine_scheme \<Rightarrow> 'a imachine_scheme outcome" where
  "interpreter_step p d s =
     (if boot_hook s then Some (True, s)
      else let (handled, s1) = bios_call s
      in if handled
         then continue_with (s1\<lparr>cpu := (cpu s1)\<lparr>pc := regs (cpu s1) 31\<rparr>, global_cycles := global_cycles s1 + 10\<rparr>)
         else if pc (cpu s) AND 3 \<noteq> 0 then trap_return (address_error 4 (pc (cpu s)) s)
         else fetch_execute p d s)"

partial_function (option) run_interpreter_chain ::
  "pads \<Rightarrow> 'a imachine_scheme devices \<Rightarrow> u64 \<Rightarrow> 'a imachine_scheme \<Rightarrow> 'a imachine_scheme option" where
  [code]: "run_interpreter_chain p d deadline s =
     (if global_cycles s < deadline \<or> branch_state s \<noteq> 0
      then Option.bind (interpreter_step p d s)
             (\<lambda>(returned, s1). if returned then Some s1 else run_interpreter_chain p d deadline s1)
      else Some s)"

end
