(* ===== verification/Bus_Frame.thy ===== *)
theory Bus_Frame
  imports Interpreter
begin

text \<open>
  What the bus leaves alone: no load or store changes the general registers, the coprocessors, the load delay
  pipeline, a pending branch or the clock, provided the processors that are not modelled do not.
\<close>

named_theorems bus_simps

definition cpu_view :: "R3000CPU \<Rightarrow> R3000CPU" where
  "cpu_view c = c\<lparr>cycles_left := 0, block_aborted := False, irq_pending := 0, irq_pending_fast := 0, i_stat := 0,
     i_mask := 0, initial_cycles_left := 0, cycles_left_correction := 0\<rparr>"

definition bus_view :: "'a imachine_scheme \<Rightarrow> R3000CPU \<times> u32 \<times> nat \<times> bool \<times> u64 \<times> bool" where
  "bus_view s = (cpu_view (cpu s), branch_target s, branch_state s, binary_loaded s, global_cycles s, psx_block_exception s)"

definition bus_same :: "'a imachine_scheme \<Rightarrow> 'a imachine_scheme \<Rightarrow> bool" where
  "bus_same s t \<longleftrightarrow> bus_view s = bus_view t"

lemma bus_same_refl [simp]: "bus_same s s"
  by (simp add: bus_same_def)

lemma bus_same_iff: "bus_view u = bus_view t \<Longrightarrow> bus_same s u = bus_same s t"
  by (simp add: bus_same_def)

lemma cpu_view_irq:
  "cpu_view (c\<lparr>cycles_left := x\<rparr>) = cpu_view c" "cpu_view (c\<lparr>block_aborted := b\<rparr>) = cpu_view c"
  "cpu_view (c\<lparr>irq_pending := x\<rparr>) = cpu_view c" "cpu_view (c\<lparr>irq_pending_fast := x\<rparr>) = cpu_view c"
  "cpu_view (c\<lparr>i_stat := x\<rparr>) = cpu_view c" "cpu_view (c\<lparr>i_mask := x\<rparr>) = cpu_view c"
  "cpu_view (c\<lparr>initial_cycles_left := x\<rparr>) = cpu_view c" "cpu_view (c\<lparr>cycles_left_correction := x\<rparr>) = cpu_view c"
  by (simp_all add: cpu_view_def)

lemma bus_cpu [bus_simps]: "cpu_view c = cpu_view (cpu t) \<Longrightarrow> bus_same s (t\<lparr>cpu := c\<rparr>) = bus_same s t"
  by (rule bus_same_iff) (simp add: bus_view_def)

lemmas [bus_simps] = cpu_view_irq

lemma bus_fields [bus_simps]:
  fixes t :: "'a imachine_scheme"
  shows "bus_same s (t\<lparr>tmr := g\<rparr>) = bus_same s t" "bus_same s (t\<lparr>hblank_frame_start_cycle := n\<rparr>) = bus_same s t"
    "bus_same s (t\<lparr>gpu_stat := w\<rparr>) = bus_same s t" "bus_same s (t\<lparr>sio := x1\<rparr>) = bus_same s t"
    "bus_same s (t\<lparr>mcd := x2\<rparr>) = bus_same s t" "bus_same s (t\<lparr>cdrom := x3\<rparr>) = bus_same s t"
    "bus_same s (t\<lparr>cdrom_irq_active := x4\<rparr>) = bus_same s t" "bus_same s (t\<lparr>iso := x5\<rparr>) = bus_same s t"
    "bus_same s (t\<lparr>dma := x6\<rparr>) = bus_same s t" "bus_same s (t\<lparr>jit_page_gen := x7\<rparr>) = bus_same s t"
    "bus_same s (t\<lparr>jit_l1_ram := x8\<rparr>) = bus_same s t" "bus_same s (t\<lparr>psx_ram := x9\<rparr>) = bus_same s t"
    "bus_same s (t\<lparr>psx_abort_pc := w\<rparr>) = bus_same s t" "bus_same s (t\<lparr>psx_config := y1\<rparr>) = bus_same s t"
    "bus_same s (t\<lparr>scratchpad_buf := y2\<rparr>) = bus_same s t" "bus_same s (t\<lparr>cache_ctrl := w\<rparr>) = bus_same s t"
    "bus_same s (t\<lparr>mem_ctrl := y3\<rparr>) = bus_same s t" "bus_same s (t\<lparr>ram_size := w\<rparr>) = bus_same s t"
    "bus_same s (t\<lparr>tty := y4\<rparr>) = bus_same s t" "bus_same s (t\<lparr>partial_block_cycles := w\<rparr>) = bus_same s t"
    "bus_same s (upd_cdrom y5 t) = bus_same s t" "bus_same s (upd_dma y6 t) = bus_same s t"
  by (rule bus_same_iff, simp add: bus_view_def upd_cdrom_def upd_dma_def)+

lemma bus_irq [bus_simps]:
  fixes t :: "'a imachine_scheme"
  shows "bus_same s (Sched_Add e d cb t) = bus_same s t" "bus_same s (Sched_Remove e t) = bus_same s t"
    "bus_same s (SignalInterrupt i t) = bus_same s t" "bus_same s (update_irq_pending t) = bus_same s t"
    "bus_same s (cap_cycles_left n t) = bus_same s t"
  by (rule bus_same_iff, simp add: bus_view_def Sched_Add_def Sched_Remove_def sched_recompute_cached_def Let_def case_prod_unfold
      SignalInterrupt_def update_irq_pending_def cap_cycles_for_irq_def cap_cycles_left_def cpu_view_irq)+

lemma bus_timer [bus_simps]:
  fixes t :: "'a imachine_scheme"
  shows "bus_same s (timer_fire i t) = bus_same s t" "bus_same s (timer_apply_ticks i m k t) = bus_same s t"
    "bus_same s (Timer_SyncValue i t) = bus_same s t" "bus_same s (timer_update_divider_cache i t) = bus_same s t"
    "bus_same s (timer_update_stopped_cache i t) = bus_same s t" "bus_same s (Timer_ScheduleOne i t) = bus_same s t"
proof -
  show fire: "bus_same s (timer_fire i t) = bus_same s t" for i and t :: "'a imachine_scheme" by (simp add: timer_fire_def bus_simps)
  show ticks: "bus_same s (timer_apply_ticks i m k t) = bus_same s t" for i m k and t :: "'a imachine_scheme"
    by (simp add: timer_apply_ticks_def Let_def case_prod_unfold fire bus_simps)
  show sync: "bus_same s (Timer_SyncValue i t) = bus_same s t" for i and t :: "'a imachine_scheme"
    by (simp add: Timer_SyncValue_def Let_def case_prod_unfold ticks bus_simps split: option.split)
  show "bus_same s (timer_update_divider_cache i t) = bus_same s t"
    "bus_same s (timer_update_stopped_cache i t) = bus_same s t" "bus_same s (Timer_ScheduleOne i t) = bus_same s t"
    by (simp_all add: timer_update_divider_cache_def timer_update_stopped_cache_def Timer_ScheduleOne_def Let_def
        case_prod_unfold sync bus_simps)
qed

lemma bus_timer_registers [bus_simps]:
  fixes t :: "'a imachine_scheme"
  shows "bus_same s (snd (Timers_Read addr t)) = bus_same s t" "bus_same s (Timers_Write addr data t) = bus_same s t"
  by (simp_all add: Timers_Read_def Timers_Write_def Let_def bus_simps)

lemma bus_sio [bus_simps]:
  fixes t :: "'a imachine_scheme"
  shows "bus_same s (sio_flush_deferred_vblank t) = bus_same s t" "bus_same s (sio_assert_ack t) = bus_same s t"
    "bus_same s (sio_cancel_irq t) = bus_same s t"
  by (simp_all add: sio_flush_deferred_vblank_def sio_assert_ack_def sio_schedule_irq_def sio_schedule_after_def
      sio_cancel_irq_def Let_def bus_simps)

lemma bus_sio_write [bus_simps]:
  fixes t :: "'a imachine_scheme"
  shows "bus_same s (sio_write_data p tx t) = bus_same s t" "bus_same s (sio_write_ctrl data t) = bus_same s t"
    "bus_same s (snd (SIO_Read phys t)) = bus_same s t"
  by (simp_all add: sio_write_data_def sio_write_ctrl_def sio_reset_def sio_ctrl_ack_def sio_select_def
      sio_deselect_def SIO_Read_def Let_def case_prod_unfold bus_simps)

lemma bus_SIO_Write [bus_simps]: "bus_same s (SIO_Write p phys data t) = bus_same s (t :: 'a imachine_scheme)"
  by (simp add: SIO_Write_def Let_def bus_simps)

lemma bus_cdrom_queue [bus_simps]:
  fixes t :: "'a imachine_scheme"
  shows "bus_same s (cdrom_queue_response d i t) = bus_same s t" "bus_same s (cdrom_queue_pending d i n t) = bus_same s t"
    "bus_same s (cdrom_signal_later t) = bus_same s t"
  by (simp_all add: cdrom_queue_response_def cdrom_queue_pending_def cdrom_signal_later_def Let_def bus_simps)

lemma bus_cdrom_command [bus_simps]: "bus_same s (cdrom_execute_command cmd t) = bus_same s (t :: 'a imachine_scheme)"
  by (simp add: cdrom_execute_command_def cdrom_run_command_def cd_ack_stat_def cd_ack_then_def cd_start_read_def
      cd_getlocL_def cd_getlocP_def cd_getTD_def cd_seek_def cd_test_def cd_getID_def Let_def case_prod_unfold bus_simps)

lemma bus_cdrom [bus_simps]:
  fixes t :: "'a imachine_scheme"
  shows "bus_same s (CDROM_Write addr data t) = bus_same s t" "bus_same s (snd (CDROM_Read addr t)) = bus_same s t"
    "bus_same s (snd (CDROM_ReadDataFIFO n t)) = bus_same s t"
  by (simp_all add: CDROM_Write_def cdrom_acknowledge_def CDROM_Read_def CDROM_ReadDataFIFO_def Let_def bus_simps)

lemma bus_dma [bus_simps]:
  fixes t :: "'a imachine_scheme"
  shows "bus_same s (jit_invalidate_page a t) = bus_same s t" "bus_same s (RAM_WriteWord a v t) = bus_same s t"
    "bus_same s (dma_raise_flag ch t) = bus_same s t" "bus_same s (dma_defer ch t) = bus_same s t"
    "bus_same s (snd (DMA_Read a t)) = bus_same s t"
    "bus_same s (dma_write_dicr data t) = bus_same s t" "bus_same s (dma_finish ch b t) = bus_same s t"
proof -
  show raise: "bus_same s (dma_raise_flag ch t) = bus_same s t" for ch and t :: "'a imachine_scheme"
    by (simp add: dma_raise_flag_def Let_def bus_simps)
  show dfr: "bus_same s (dma_defer ch t) = bus_same s t" for ch and t :: "'a imachine_scheme"
    by (simp add: dma_defer_def Let_def bus_simps)
  have complete: "bus_same s (dma_complete_channel ch t) = bus_same s t" for ch and t :: "'a imachine_scheme"
    by (simp add: dma_complete_channel_def Let_def raise bus_simps)
  show "bus_same s (dma_finish ch b t) = bus_same s t"
    by (simp add: dma_finish_def raise dfr complete Let_def bus_simps)
  show "bus_same s (jit_invalidate_page a t) = bus_same s t" "bus_same s (RAM_WriteWord a v t) = bus_same s t"
    "bus_same s (snd (DMA_Read a t)) = bus_same s t" "bus_same s (dma_write_dicr data t) = bus_same s t"
    by (simp_all add: jit_invalidate_page_def RAM_WriteWord_def DMA_Read_def dma_check_pending_def dma_write_dicr_def
        complete Let_def bus_simps)
qed

section \<open>Transfers\<close>

definition bus_devices :: "'a imachine_scheme devices \<Rightarrow> bool" where
  "bus_devices d \<longleftrightarrow> devices_keep bus_view d"

lemma bus_device_ops [bus_simps]:
  assumes "bus_devices d"
  shows "bus_same s (MDEC_DMA0 d m b c t) = bus_same s t" "bus_same s (MDEC_DMA1 d m b c t) = bus_same s t"
    "bus_same s (snd (GPU_DMA2 d m b c t)) = bus_same s t" "bus_same s (SPU_DMA4 d m b c t) = bus_same s t"
    "bus_same s (snd (GPU_Read d t)) = bus_same s t" "bus_same s (snd (GPU_ReadStatus d t)) = bus_same s t"
    "bus_same s (snd (MDEC_ReadData d t)) = bus_same s t" "bus_same s (snd (MDEC_ReadStatus d t)) = bus_same s t"
    "bus_same s (GPU_WriteGP0 d v t) = bus_same s t" "bus_same s (GPU_WriteGP1 d v t) = bus_same s t"
    "bus_same s (MDEC_WriteCommand d v t) = bus_same s t" "bus_same s (MDEC_WriteControl d v t) = bus_same s t"
    "bus_same s (snd (SPU_ReadReg d r t)) = bus_same s t" "bus_same s (SPU_WriteReg d r h t) = bus_same s t"
  using assms by (simp_all add: bus_devices_def devices_keep_def bus_same_def)

lemma bus_same_invalidate: "bus_view (jit_invalidate_page a t) = bus_view (t :: 'a imachine_scheme)"
  using bus_dma(1) [of t a t] by (simp add: bus_same_def)

lemma bus_DMA3: "CDROM_DMA3 m c t = Some u \<Longrightarrow> bus_same s u = bus_same s (t :: 'a imachine_scheme)"
  by (auto simp: CDROM_DMA3_def Let_def case_prod_unfold bus_simps split: if_splits
      dest!: dma3_invalidate_keeps [of bus_view, OF bus_same_invalidate] bus_same_iff)

lemma bus_DMA6 [bus_simps]: "bus_same s (GPU_DMA6 m c t) = bus_same s (t :: 'a imachine_scheme)"
proof -
  have "bus_view (snd (dma6_loop n a t)) = bus_view t" for n a
    using bus_dma(2) [of t _ _ t] by (intro dma6_loop_keeps) (metis bus_dma(2) bus_same_def)
  then have "bus_same s (snd (dma6_loop n a t)) = bus_same s t" for n a by (rule bus_same_iff)
  then show ?thesis by (simp add: GPU_DMA6_def Let_def case_prod_unfold bus_simps)
qed

lemma bus_transfer:
  "bus_devices d \<Longrightarrow> dma_transfer d ch t = Some (b, u) \<Longrightarrow> bus_same s u = bus_same s (t :: 'a imachine_scheme)"
  by (auto simp: dma_transfer_def Let_def bus_simps bus_DMA3 split: if_splits) (metis bus_device_ops(3) snd_conv)+

lemma bus_DMA_Write:
  "bus_devices d \<Longrightarrow> DMA_Write d a v t = Some u \<Longrightarrow> bus_same s u = bus_same s (t :: 'a imachine_scheme)"
  by (auto simp: DMA_Write_def dma_start_def Let_def bus_simps bus_transfer split: if_splits)

section \<open>Loads and stores\<close>

lemma bus_acknowledge [bus_simps]:
  fixes t :: "'a imachine_scheme"
  shows "bus_same s (snd (handle_sio_irq_ack v t)) = bus_same s t" "bus_same s (hw_write_istat v t) = bus_same s t"
    "bus_same s (hw_write_imask v t) = bus_same s t"
  by (simp_all add: handle_sio_irq_ack_def hw_write_istat_def hw_write_imask_def Let_def case_prod_unfold bus_simps)

lemma bus_ReadHardware [bus_simps]:
  fixes t :: "'a imachine_scheme"
  assumes "bus_devices d"
  shows "bus_same s (snd (ReadHardware d a t)) = bus_same s t"
  using assms
  by (simp add: ReadHardware_def hw_read_low_def hw_read_media_def hw_read_spu_def Let_def case_prod_unfold bus_simps)

lemma bus_WriteHardware:
  fixes t :: "'a imachine_scheme"
  shows "bus_devices d \<Longrightarrow> WriteHardware p d a v n t = Some u \<Longrightarrow> bus_same s u = bus_same s t"
  by (auto simp: WriteHardware_def hw_write_low_def hw_write_media_def hw_write_spu_def Let_def bus_simps bus_DMA_Write
      split: if_splits)

lemma bus_ReadMemory [bus_simps]:
  fixes t :: "'a imachine_scheme"
  assumes "bus_devices d"
  shows "bus_same s (snd (ReadByte d a t)) = bus_same s t" "a AND 1 = 0 \<Longrightarrow> bus_same s (snd (ReadHalf d a t)) = bus_same s t"
    "a AND 3 = 0 \<Longrightarrow> bus_same s (snd (ReadWord d a t)) = bus_same s t"
  using assms by (simp_all add: ReadByte_def ReadHalf_def ReadWord_def Let_def case_prod_unfold bus_simps)

lemma bus_WriteMemory:
  fixes t :: "'a imachine_scheme"
  assumes "bus_devices d"
  shows "WriteByte p d a b t = Some u \<Longrightarrow> bus_same s u = bus_same s t"
    "a AND 1 = 0 \<Longrightarrow> WriteHalf p d a h t = Some u \<Longrightarrow> bus_same s u = bus_same s t"
    "a AND 3 = 0 \<Longrightarrow> WriteWord p d a w t = Some u \<Longrightarrow> bus_same s u = bus_same s t"
  using assms
  by (auto simp: WriteByte_def WriteHalf_def WriteWord_def Let_def bus_simps bus_WriteHardware split: if_splits)

end
