(* ===== verification/Interpreter_Laws.thy ===== *)
theory Interpreter_Laws
  imports Bus_Frame
begin

text \<open>
  Laws of the interpreter: the register invariant over whole runs, leaving the loop between branches, progress of the
  clock, precise traps, the branch delay slot and the load delay. The lemmas follow the composition of the interpreter:
  each group of instructions keeps the invariant, the frame of an instruction and the pending branch, using the frame laws of
  the bus for the instructions that touch memory.
\<close>

section \<open>Registers\<close>

definition cpu_ok :: "R3000CPU \<Rightarrow> bool" where
  "cpu_ok c \<longleftrightarrow> regs c 0 = 0 \<and> load_delay_reg c < 32 \<and> load_commit_reg c < 32 \<and> gte_regs_ok c"

named_theorems ok_simps

lemma cpu_view_fields:
  assumes "cpu_view c = cpu_view c'"
  shows "regs c = regs c'" "pc c = pc c'" "current_pc c = current_pc c'" "load_delay_reg c = load_delay_reg c'"
    "load_delay_val c = load_delay_val c'" "load_commit_reg c = load_commit_reg c'" "load_commit_val c = load_commit_val c'"
    "cop0 c = cop0 c'" "cp2_data c = cp2_data c'" "cp2_ctrl c = cp2_ctrl c'" "hi c = hi c'" "lo c = lo c'"
  using arg_cong [OF assms, of regs]
    arg_cong [OF assms, of pc]
    arg_cong [OF assms, of current_pc]
    arg_cong [OF assms, of load_delay_reg]
    arg_cong [OF assms, of load_delay_val]
    arg_cong [OF assms, of load_commit_reg]
    arg_cong [OF assms, of load_commit_val]
    arg_cong [OF assms, of cop0]
    arg_cong [OF assms, of cp2_data]
    arg_cong [OF assms, of cp2_ctrl]
    arg_cong [OF assms, of hi]
    arg_cong [OF assms, of lo]
  by (simp_all add: cpu_view_def)

lemma bus_same_fields:
  assumes "bus_same s t"
  shows "cpu_view (cpu s) = cpu_view (cpu t)" "branch_target s = branch_target t" "branch_state s = branch_state t"
    "binary_loaded s = binary_loaded t" "global_cycles s = global_cycles t" "psx_block_exception s = psx_block_exception t"
  using assms by (simp_all add: bus_same_def bus_view_def)

lemma cpu_ok_view: "cpu_view c = cpu_view c' \<Longrightarrow> cpu_ok c = cpu_ok c'"
  by (simp add: cpu_ok_def gte_regs_ok_def cpu_view_fields [of c c'])

lemma cpu_ok_bus: "bus_same s t \<Longrightarrow> cpu_ok (cpu s) = cpu_ok (cpu t)"
  by (rule cpu_ok_view) (rule bus_same_fields)

lemma cpu_ok_control [ok_simps]:
  "cpu_ok (c\<lparr>pc := v\<rparr>) = cpu_ok c" "cpu_ok (c\<lparr>current_pc := v\<rparr>) = cpu_ok c" "cpu_ok (c\<lparr>cop0 := f\<rparr>) = cpu_ok c"
  "cpu_ok (c\<lparr>hi := v\<rparr>) = cpu_ok c" "cpu_ok (c\<lparr>lo := v\<rparr>) = cpu_ok c" "cpu_ok (c\<lparr>block_aborted := b\<rparr>) = cpu_ok c"
  "cpu_ok (c\<lparr>irq_pending_fast := v\<rparr>) = cpu_ok c"
  by (simp_all add: cpu_ok_def gte_regs_ok_def)

lemma cpu_ok_exceptions [ok_simps]:
  "cpu_ok (cpu (exc_jump v s)) = cpu_ok (cpu s)" "cpu_ok (cpu (PSX_Exception k s)) = cpu_ok (cpu s)"
  "cpu_ok (cpu (Helper_Syscall_Exception a s)) = cpu_ok (cpu s)" "cpu_ok (cpu (Helper_Break_Exception a s)) = cpu_ok (cpu s)"
  "cpu_ok (cpu (Helper_CU_Exception a n s)) = cpu_ok (cpu s)" "cpu_ok (cpu (address_error k a s)) = cpu_ok (cpu s)"
proof -
  show 1: "cpu_ok (cpu (exc_jump v s)) = cpu_ok (cpu s)" for v s by (simp add: exc_jump_def ok_simps)
  show 2: "cpu_ok (cpu (PSX_Exception k s)) = cpu_ok (cpu s)" for k s by (simp add: PSX_Exception_def Let_def 1 ok_simps)
  show "cpu_ok (cpu (Helper_Syscall_Exception a s)) = cpu_ok (cpu s)" "cpu_ok (cpu (Helper_Break_Exception a s)) = cpu_ok (cpu s)"
    "cpu_ok (cpu (Helper_CU_Exception a n s)) = cpu_ok (cpu s)" "cpu_ok (cpu (address_error k a s)) = cpu_ok (cpu s)"
    by (simp_all add: Helper_Syscall_Exception_def Helper_Break_Exception_def Helper_CU_Exception_def address_error_def
        Let_def 1 2 ok_simps)
qed

lemma cpu_ok_set_reg [ok_simps]: "r \<noteq> 0 \<Longrightarrow> cpu_ok (cpu (set_reg r v s)) = cpu_ok (cpu s)"
  by (simp add: set_reg_def cpu_ok_def gte_regs_ok_def)

lemma cpu_ok_put_reg [ok_simps]: "cpu_ok (cpu (put_reg r v s)) = cpu_ok (cpu s)"
  by (simp add: put_reg_def ok_simps)

lemma cpu_ok_trapping [ok_simps]:
  "cpu_ok (cpu (Helper_ADD a b r i s)) = cpu_ok (cpu s)" "cpu_ok (cpu (Helper_SUB a b r i s)) = cpu_ok (cpu s)"
  "cpu_ok (cpu (Helper_ADDI a b r i s)) = cpu_ok (cpu s)"
  by (simp_all add: Helper_ADD_def Helper_SUB_def Helper_ADDI_def Let_def ok_simps)

lemma cpu_ok_delay_load [ok_simps]: "r < 32 \<Longrightarrow> cpu_ok (cpu s) \<Longrightarrow> cpu_ok (cpu (delay_load r v s))"
  by (simp add: delay_load_def cpu_ok_def gte_regs_ok_def)

lemma cpu_do_branch [simp]: "cpu (do_branch t s) = cpu s" "cpu (branch_if b opcode s) = cpu s"
  by (simp_all add: do_branch_def branch_if_def)

lemma field_bounds [simp]: "i_rs opcode < 32" "i_rt opcode < 32" "i_rd opcode < 32"
proof -
  have "(w :: u32) AND 31 < 32" for w by (rule le_less_trans [OF word_and_le1]) simp
  then show "i_rs opcode < 32" "i_rt opcode < 32" "i_rd opcode < 32" by (simp_all add: i_rs_def i_rt_def i_rd_def)
qed

lemma cpu_ok_load_delay: "cpu_ok c \<Longrightarrow> cpu_ok (apply_load_delay c)"
  by (simp add: apply_load_delay_def cpu_ok_def gte_regs_ok_def Let_def)

lemma cpu_ok_cancel: "cpu_ok c \<Longrightarrow> cpu_ok (cancel_load opcode c)"
  by (simp add: cancel_load_def cpu_ok_def gte_regs_ok_def)

lemma cpu_ok_gte:
  assumes "cpu_ok c"
  shows "cpu_ok (GTE_Execute opcode c)" "r < 32 \<Longrightarrow> cpu_ok (GTE_WriteData r v c)" "r < 32 \<Longrightarrow> cpu_ok (GTE_WriteCtrl r v c)"
  using assms GTE_Execute_ok [of c opcode] GTE_WriteData_ok [of c r v] GTE_WriteCtrl_ok [of c r v]
  by (simp_all add: cpu_ok_def GTE_Execute_def gte_run_def GTE_WriteData_def GTE_WriteCtrl_def Let_def)

section \<open>Instructions\<close>

definition outcome_ok :: "('m \<Rightarrow> bool) \<Rightarrow> 'm outcome \<Rightarrow> bool" where
  "outcome_ok P r \<longleftrightarrow> (\<forall>b t. r = Some (b, t) \<longrightarrow> P t)"

lemma outcome_ok_simps [simp]:
  "outcome_ok P (continue_with s) = P s" "outcome_ok P (Some (b, s)) = P s" "outcome_ok P None"
  "outcome_ok P (map_option (Pair b) r) = (\<forall>t. r = Some t \<longrightarrow> P t)"
  by (auto simp: outcome_ok_def continue_with_def)

lemma outcome_ok_trap [simp]: "outcome_ok P (trap_return s) = P (s\<lparr>branch_state := 0\<rparr>)"
  by (simp add: trap_return_def)

lemma load_with_ok:
  assumes "cpu_ok (cpu s)" "rt < 32" "cpu_ok (cpu (snd (rd_mem s)))"
  shows "outcome_ok (\<lambda>t. cpu_ok (cpu t)) (load_with rt rd_mem s)"
  using assms by (simp add: load_with_def Let_def case_prod_unfold ok_simps)

lemma exec_special_ok: "cpu_ok (cpu s) \<Longrightarrow> outcome_ok (\<lambda>t. cpu_ok (cpu t)) (exec_special opcode s)"
  by (simp add: exec_special_def Let_def case_prod_unfold ok_simps)

lemma exec_regimm_ok: "cpu_ok (cpu s) \<Longrightarrow> outcome_ok (\<lambda>t. cpu_ok (cpu t)) (exec_regimm opcode s)"
  by (simp add: exec_regimm_def Let_def ok_simps)

lemma exec_imm_ok: "cpu_ok (cpu s) \<Longrightarrow> cpu_ok (cpu (exec_imm op opcode s))"
  by (simp add: exec_imm_def Let_def ok_simps)

lemma exec_cop0_ok: "cpu_ok (cpu s) \<Longrightarrow> cpu_ok (cpu (exec_cop0 opcode s))"
  by (simp add: exec_cop0_def Let_def ok_simps)

lemma exec_cop2_ok: "cpu_ok (cpu s) \<Longrightarrow> cpu_ok (cpu (exec_cop2 opcode s))"
  by (simp add: exec_cop2_def Let_def ok_simps cpu_ok_gte)

lemma aligned_4 [simp]: "(addr AND - 4) AND 3 = (0 :: u32)"
  by (simp add: and.assoc)

lemma cpu_ok_reads:
  fixes s :: "'a imachine_scheme"
  assumes "bus_devices d" "cpu_ok (cpu s)"
  shows "cpu_ok (cpu (snd (ReadByte d a s)))" "a AND 1 = 0 \<Longrightarrow> cpu_ok (cpu (snd (ReadHalf d a s)))"
    "a AND 3 = 0 \<Longrightarrow> cpu_ok (cpu (snd (ReadWord d a s)))" "cpu_ok (cpu (snd (Helper_LWL d a v s)))"
    "cpu_ok (cpu (snd (Helper_LWR d a v s)))"
  using assms cpu_ok_bus [of s "snd (ReadByte d a s)"] cpu_ok_bus [of s "snd (ReadHalf d a s)"]
    cpu_ok_bus [of s "snd (ReadWord d a s)"] cpu_ok_bus [of s "snd (ReadWord d (a AND NOT 3) s)"]
  by (simp_all add: bus_simps Helper_LWL_def Helper_LWR_def)

lemma cpu_ok_writes:
  fixes s :: "'a imachine_scheme"
  assumes "bus_devices d" "cpu_ok (cpu s)"
  shows "WriteByte p d a b s = Some t \<Longrightarrow> cpu_ok (cpu t)" "a AND 1 = 0 \<Longrightarrow> WriteHalf p d a h s = Some t \<Longrightarrow> cpu_ok (cpu t)"
    "a AND 3 = 0 \<Longrightarrow> WriteWord p d a w s = Some t \<Longrightarrow> cpu_ok (cpu t)"
  using assms bus_WriteMemory [OF assms(1), where s = s and t = s and u = t and p = p and a = a] cpu_ok_bus [of s t]
  by auto

lemma cpu_ok_unaligned_writes:
  fixes s :: "'a imachine_scheme"
  assumes "bus_devices d" "cpu_ok (cpu s)"
  shows "Helper_SWL p d a w s = Some t \<Longrightarrow> cpu_ok (cpu t)" "Helper_SWR p d a w s = Some t \<Longrightarrow> cpu_ok (cpu t)"
proof -
  have "cpu_ok (cpu (snd (ReadWord d (a AND - 4) s)))" using cpu_ok_reads(3) [OF assms, of "a AND - 4"] by simp
  from cpu_ok_writes(3) [OF assms(1) this, of "a AND - 4"]
  show "Helper_SWL p d a w s = Some t \<Longrightarrow> cpu_ok (cpu t)" "Helper_SWR p d a w s = Some t \<Longrightarrow> cpu_ok (cpu t)"
    by (auto simp: Helper_SWL_def Helper_SWR_def Let_def case_prod_unfold)
qed

lemma exec_load_ok: "bus_devices d \<Longrightarrow> cpu_ok (cpu s) \<Longrightarrow> outcome_ok (\<lambda>t. cpu_ok (cpu t)) (exec_load d op opcode s)"
  by (simp add: exec_load_def Let_def ok_simps load_with_ok cpu_ok_reads)

lemma exec_store_ok: "bus_devices d \<Longrightarrow> cpu_ok (cpu s) \<Longrightarrow> outcome_ok (\<lambda>t. cpu_ok (cpu t)) (exec_store p d op opcode s)"
  by (auto simp: exec_store_def Let_def ok_simps intro: cpu_ok_writes cpu_ok_unaligned_writes)

lemma exec_gte_memory_ok:
  assumes "bus_devices d" "cpu_ok (cpu s)"
  shows "outcome_ok (\<lambda>t. cpu_ok (cpu t)) (exec_lwc2 d opcode s)" "outcome_ok (\<lambda>t. cpu_ok (cpu t)) (exec_swc2 p d opcode s)"
  using assms by (auto simp: exec_lwc2_def exec_swc2_def Let_def case_prod_unfold ok_simps cpu_ok_gte cpu_ok_reads
      intro: cpu_ok_writes)

lemma exec_instruction_ok:
  "bus_devices d \<Longrightarrow> cpu_ok (cpu s) \<Longrightarrow> outcome_ok (\<lambda>t. cpu_ok (cpu t)) (exec_instruction p d opcode s)"
  by (simp add: exec_instruction_def Let_def ok_simps exec_special_ok exec_regimm_ok exec_imm_ok exec_cop0_ok exec_cop2_ok
      exec_load_ok exec_store_ok exec_gte_memory_ok)

lemma finish_instruction_ok: "cpu_ok (cpu s) \<Longrightarrow> cpu_ok (cpu (snd (finish_instruction opcode s)))"
  by (simp add: finish_instruction_def commit_branch_def Let_def cpu_ok_cancel ok_simps)

lemma finish_instruction_result_ok:
  "finish_instruction opcode s = (b, t) \<Longrightarrow> cpu_ok (cpu s) \<Longrightarrow> cpu_ok (cpu t)"
  using finish_instruction_ok [of s opcode] by simp

lemma bios_call_ok: "cpu_ok (cpu s) \<Longrightarrow> cpu_ok (cpu (snd (bios_call s)))"
  by (simp add: bios_call_def BIOS_HLE_A_def BIOS_HLE_B_def BIOS_HLE_C_def bios_return_def Let_def cpu_ok_def gte_regs_ok_def)

lemma fetch_execute_ok:
  fixes s :: "'a imachine_scheme"
  assumes "bus_devices d" "cpu_ok (cpu s)" "pc (cpu s) AND 3 = 0"
  shows "outcome_ok (\<lambda>t. cpu_ok (cpu t)) (fetch_execute p d s)"
proof -
  define r where "r = ReadWord d (pc (cpu s)) (s\<lparr>cpu := (cpu s)\<lparr>current_pc := pc (cpu s)\<rparr>\<rparr>)"
  have "cpu_ok (cpu (snd r))" unfolding r_def using assms by (intro cpu_ok_reads(3)) (simp_all add: ok_simps)
  then have "outcome_ok (\<lambda>t. cpu_ok (cpu t)) (exec_instruction p d (fst r)
      ((snd r)\<lparr>cpu := apply_load_delay ((cpu (snd r))\<lparr>pc := pc (cpu (snd r)) + 4\<rparr>)\<rparr>))"
    by (intro exec_instruction_ok assms) (simp add: cpu_ok_load_delay ok_simps)
  then show ?thesis
    by (auto simp: fetch_execute_def Let_def case_prod_unfold r_def outcome_ok_def
        split: option.splits if_splits intro: finish_instruction_result_ok)
qed

lemma interpreter_step_ok:
  fixes s :: "'a imachine_scheme"
  assumes "bus_devices d" "cpu_ok (cpu s)"
  shows "outcome_ok (\<lambda>t. cpu_ok (cpu t)) (interpreter_step p d s)"
  using assms bios_call_ok [OF assms(2)]
  by (auto simp: interpreter_step_def Let_def case_prod_unfold ok_simps fetch_execute_ok)

section \<open>Leaving the loop\<close>

definition returns_clean :: "'a imachine_scheme outcome \<Rightarrow> bool" where
  "returns_clean r \<longleftrightarrow> (\<forall>t. r = Some (True, t) \<longrightarrow> branch_state t = 0)"

lemma returns_clean_simps [simp]:
  "returns_clean (continue_with s)" "returns_clean (trap_return s)" "returns_clean None"
  "returns_clean (map_option (Pair False) r)" "returns_clean (Some (b, s)) = (b \<longrightarrow> branch_state s = 0)"
  by (auto simp: returns_clean_def continue_with_def trap_return_def)

lemma returns_clean_groups:
  "returns_clean (exec_special opcode s)" "returns_clean (exec_regimm opcode s)" "returns_clean (load_with rt f s)"
  "returns_clean (exec_lwc2 d opcode s)" "returns_clean (exec_swc2 p d opcode s)"
  by (simp_all add: exec_special_def exec_regimm_def load_with_def exec_lwc2_def exec_swc2_def Let_def case_prod_unfold)

lemma returns_clean_memory:
  "returns_clean (exec_load d op opcode s)" "returns_clean (exec_store p d op opcode s)"
  by (simp_all add: exec_load_def exec_store_def returns_clean_groups Let_def)

lemma exec_returns_clean: "returns_clean (exec_instruction p d opcode s)"
  by (simp add: exec_instruction_def returns_clean_groups returns_clean_memory Let_def)

lemma finish_returns_clean: "fst (finish_instruction opcode s) \<Longrightarrow> branch_state (snd (finish_instruction opcode s)) = 0"
  by (simp add: finish_instruction_def Let_def split: if_splits)

lemma finish_clean:
  assumes "returns_clean r"
  shows "returns_clean (case r of None \<Rightarrow> None
      | Some (returned, s3) \<Rightarrow> Some (if returned then (True, s3) else finish_instruction opcode s3))"
proof (cases r)
  case (Some q)
  then show ?thesis using assms finish_returns_clean [of opcode "snd q"] by (cases q) (auto simp: returns_clean_def)
qed simp

lemma fetch_returns_clean: "returns_clean (fetch_execute p d s)"
  unfolding fetch_execute_def Let_def by (subst prod.case_eq_if) (rule finish_clean exec_returns_clean)+

lemma step_returns_clean:
  assumes "interpreter_step p d s = Some (True, t)"
  shows "branch_state t = 0 \<or> boot_hook t"
  using assms fetch_returns_clean [of p d s]
  by (auto simp: interpreter_step_def Let_def case_prod_unfold trap_return_def continue_with_def returns_clean_def
      split: if_splits)

lemma chain_induct:
  assumes "run_interpreter_chain p d deadline s = Some t"
    and "\<And>s. \<not> (global_cycles s < deadline \<or> branch_state s \<noteq> 0) \<Longrightarrow> I s \<Longrightarrow> Q s"
    and "\<And>s t. interpreter_step p d s = Some (True, t) \<Longrightarrow> I s \<Longrightarrow> Q t"
    and "\<And>s t. interpreter_step p d s = Some (False, t) \<Longrightarrow> I s \<Longrightarrow> I t"
    and "I s"
  shows "Q t"
proof -
  have "p = p \<longrightarrow> d = d \<longrightarrow> deadline = deadline \<longrightarrow> I s \<longrightarrow> Q t"
  proof (induction rule: run_interpreter_chain.raw_induct
      [where P = "\<lambda>p' d' deadline' s t. p' = p \<longrightarrow> d' = d \<longrightarrow> deadline' = deadline \<longrightarrow> I s \<longrightarrow> Q t"])
    case (1 step p' d' deadline' s t)
    then show ?case
      using assms(2-4) by (force simp: bind_eq_Some_conv split: if_splits)
  qed (rule assms(1))
  then show ?thesis using assms(5) by simp
qed

section \<open>Stepping over an instruction in main memory\<close>

definition runs :: "'a imachine_scheme \<Rightarrow> u32 \<Rightarrow> bool" where
  "runs s opcode \<longleftrightarrow> \<not> boot_hook s \<and> \<not> fst (bios_call s) \<and> pc (cpu s) AND 3 = 0 \<and> in_ram (translate_addr (pc (cpu s))) \<and>
     load32 (psx_ram s) (translate_addr (pc (cpu s))) = opcode"

definition fetched :: "'a imachine_scheme \<Rightarrow> 'a imachine_scheme" where
  "fetched s = s\<lparr>cpu := apply_load_delay ((cpu s)\<lparr>current_pc := pc (cpu s), pc := pc (cpu s) + 4\<rparr>)\<rparr>"

lemma runs_fetch: "runs s opcode \<Longrightarrow> ReadWord d (pc (cpu s)) (s\<lparr>cpu := c\<rparr>) = (opcode, s\<lparr>cpu := c\<rparr>)"
  by (simp add: runs_def ReadWord_def Let_def)

lemma runs_step:
  "runs s opcode \<Longrightarrow> interpreter_step p d s = (case exec_instruction p d opcode (fetched s) of None \<Rightarrow> None
     | Some (returned, s3) \<Rightarrow> Some (if returned then (True, s3) else finish_instruction opcode s3))"
proof -
  assume r: "runs s opcode"
  then have "interpreter_step p d s = fetch_execute p d s"
    by (simp add: runs_def interpreter_step_def case_prod_unfold)
  moreover note runs_fetch [OF r, of d "(cpu s)\<lparr>current_pc := pc (cpu s)\<rparr>"]
  ultimately show ?thesis by (simp only: fetch_execute_def Let_def prod.case) (simp add: fetched_def)
qed

lemma load_delay_frame [simp]:
  "pc (apply_load_delay c) = pc c" "current_pc (apply_load_delay c) = current_pc c" "cop0 (apply_load_delay c) = cop0 c"
  "hi (apply_load_delay c) = hi c" "lo (apply_load_delay c) = lo c" "block_aborted (apply_load_delay c) = block_aborted c"
  "load_delay_reg (apply_load_delay c) = 0"
  by (simp_all add: apply_load_delay_def Let_def)

lemma fetched_frame [simp]:
  "pc (cpu (fetched s)) = pc (cpu s) + 4" "current_pc (cpu (fetched s)) = pc (cpu s)" "cop0 (cpu (fetched s)) = cop0 (cpu s)"
  "branch_state (fetched s) = branch_state s" "branch_target (fetched s) = branch_target s" "psx_ram (fetched s) = psx_ram s"
  "psx_block_exception (fetched s) = psx_block_exception s" "global_cycles (fetched s) = global_cycles s"
  "block_aborted (cpu (fetched s)) = block_aborted (cpu s)" "load_delay_reg (cpu (fetched s)) = 0"
  by (simp_all add: fetched_def)

section \<open>Traps\<close>

text \<open>The exception code of an instruction that the processor refuses.\<close>

definition trap_code :: "u32 \<Rightarrow> u32 option" where
  "trap_code opcode =
     (let op = drop_bit 26 opcode; funct = opcode AND 63
      in if op = 0 then (if funct = 0x0C then Some 8
                         else if funct \<in> {0x00, 0x02, 0x03, 0x04, 0x06, 0x07, 0x08, 0x09, 0x10, 0x11, 0x12, 0x13, 0x18, 0x19,
                           0x1A, 0x1B, 0x20, 0x21, 0x22, 0x23, 0x24, 0x25, 0x26, 0x27, 0x2A, 0x2B} then None
                         else Some 9)
         else if op \<in> {0x11, 0x13, 0x30, 0x31, 0x33, 0x38, 0x39, 0x3B} then Some 11
         else if op \<le> 0x10 \<or> op \<ge> 0x20 \<and> op \<le> 0x26 \<or> op \<ge> 0x28 \<and> op \<le> 0x2B \<or> op \<in> {0x12, 0x2E, 0x32, 0x3A}
         then None else Some 9)"

definition exception_taken :: "u32 \<Rightarrow> u32 \<Rightarrow> 'a core_scheme \<Rightarrow> 'a core_scheme \<Rightarrow> bool" where
  "exception_taken code at s t \<longleftrightarrow>
     cop0 (cpu t) PSX_COP0_EPC = at \<and> drop_bit 2 (cop0 (cpu t) PSX_COP0_CAUSE) AND 31 = code \<and>
     cop0 (cpu t) PSX_COP0_SR = exc_push_mode (cop0 (cpu s) PSX_COP0_SR) \<and>
     pc (cpu t) = (if cop0 (cpu t) PSX_COP0_SR AND 0x00400000 \<noteq> 0 then 0xBFC00180 else 0x80000080) \<and>
     regs (cpu t) = regs (cpu s) \<and> psx_ram t = psx_ram s \<and> global_cycles t = global_cycles s"

lemma exec_traps:
  assumes "trap_code opcode = Some k"
  shows "exec_instruction p d opcode s = trap_return
    (if k = 8 then Helper_Syscall_Exception (current_pc (cpu s)) s
     else if k = 9 then Helper_Break_Exception (current_pc (cpu s)) s
     else Helper_CU_Exception (current_pc (cpu s)) (drop_bit 26 opcode AND 3) s)"
proof (cases "drop_bit 26 opcode = 0")
  case True
  then show ?thesis
    using assms by (auto simp: trap_code_def Let_def exec_instruction_def exec_special_def split: if_splits)
next
  case False
  then consider "drop_bit 26 opcode \<in> {0x11, 0x13, 0x30, 0x31, 0x33, 0x38, 0x39, 0x3B}" "k = 11"
    | "drop_bit 26 opcode > 0x10" "k = 9" "drop_bit 26 opcode \<notin> {0x11, 0x13, 0x30, 0x31, 0x33, 0x38, 0x39, 0x3B, 0x12, 0x2E, 0x32, 0x3A}"
      "\<not> (drop_bit 26 opcode \<ge> 0x20 \<and> drop_bit 26 opcode \<le> 0x26)"
      "\<not> (drop_bit 26 opcode \<ge> 0x28 \<and> drop_bit 26 opcode \<le> 0x2B)"
    using assms by (auto simp: trap_code_def Let_def not_le split: if_splits)
  then show ?thesis
  proof cases
    case 1
    then show ?thesis by (auto simp: exec_instruction_def Let_def)
  next
    case 2
    then have "drop_bit 26 opcode \<notin> {0, 1, 2, 3, 4, 5, 6, 7, 0x10}" by auto
    moreover have "\<not> drop_bit 26 opcode \<le> 0x0F" using 2(1) order_trans [of "drop_bit 26 opcode" "0x0F" "0x10"] by auto
    ultimately
    show ?thesis using 2(2-) by (auto simp: exec_instruction_def Let_def)
  qed
qed

lemma cu_cause_code:
  "drop_bit 2 ((old AND 0x0000FF00) OR push_bit 2 (0x0B AND 0x1F) OR push_bit 28 (n AND 3)) AND 31 = (11 :: u32)"
  by (simp add: u32_eq_bits bit_simps)

lemma exception_taken_helpers:
  "exception_taken 8 at s (Helper_Syscall_Exception at s)" "exception_taken 9 at s (Helper_Break_Exception at s)"
  "exception_taken 11 at s (Helper_CU_Exception at n s)"
proof -
  have 1: "exception_taken k at s (PSX_Exception k (s\<lparr>cpu := (cpu s)\<lparr>pc := at\<rparr>\<rparr>))" if "k = 8 \<or> k = 9" for k
    using that exc_cause_facts(1) [of k]
    by (auto simp: exception_taken_def PSX_Exception_def exc_jump_def Let_def cop0_defs)
  then show "exception_taken 8 at s (Helper_Syscall_Exception at s)" "exception_taken 9 at s (Helper_Break_Exception at s)"
    by (simp_all add: Helper_Syscall_Exception_def Helper_Break_Exception_def)
  show "exception_taken 11 at s (Helper_CU_Exception at n s)"
    using cu_cause_code
    by (simp add: exception_taken_def Helper_CU_Exception_def exc_jump_def Let_def cop0_defs)
qed

lemma exception_taken_branch [simp]: "exception_taken k at s (t\<lparr>branch_state := b\<rparr>) = exception_taken k at s t"
  by (simp add: exception_taken_def)

lemma trap_code_cases: "trap_code opcode = Some k \<Longrightarrow> k = 8 \<or> k = 9 \<or> k = 11"
  by (auto simp: trap_code_def Let_def split: if_splits)


section \<open>What an instruction leaves alone\<close>

definition exec_frame :: "'a imachine_scheme \<Rightarrow> 'a imachine_scheme \<Rightarrow> bool" where
  "exec_frame s t \<longleftrightarrow> global_cycles t = global_cycles s \<and> psx_block_exception t = psx_block_exception s \<and>
     load_commit_reg (cpu t) = load_commit_reg (cpu s) \<and> load_commit_val (cpu t) = load_commit_val (cpu s)"

lemma exec_frame_refl [simp]: "exec_frame s s"
  by (simp add: exec_frame_def)

lemma exec_frame_bus: "bus_same s u \<Longrightarrow> exec_frame s u"
  using bus_same_fields [of s u] cpu_view_fields [of "cpu s" "cpu u"] by (simp add: exec_frame_def)

named_theorems exec_simps

lemma exec_frame_iff: "exec_frame t u \<Longrightarrow> exec_frame s u = exec_frame s t"
  by (simp add: exec_frame_def)

lemma exec_frame_ops [exec_simps]:
  "exec_frame s (put_reg r v t) = exec_frame s t" "exec_frame s (set_reg r v t) = exec_frame s t"
  "exec_frame s (delay_load r v t) = exec_frame s t" "exec_frame s (do_branch w t) = exec_frame s t"
  "exec_frame s (branch_if b opcode t) = exec_frame s t" "exec_frame s (t\<lparr>branch_state := n\<rparr>) = exec_frame s t"
  "exec_frame s (Helper_Syscall_Exception w t) = exec_frame s t" "exec_frame s (Helper_Break_Exception w t) = exec_frame s t"
  "exec_frame s (Helper_CU_Exception w x t) = exec_frame s t" "exec_frame s (address_error w x t) = exec_frame s t"
  "exec_frame s (Helper_ADD w x y z t) = exec_frame s t" "exec_frame s (Helper_SUB w x y z t) = exec_frame s t"
  "exec_frame s (Helper_ADDI w x y z t) = exec_frame s t"
  by (rule exec_frame_iff, simp add: exec_frame_def put_reg_def set_reg_def delay_load_def do_branch_def branch_if_def
      Helper_Syscall_Exception_def Helper_Break_Exception_def Helper_CU_Exception_def address_error_def Helper_ADD_def
      Helper_SUB_def Helper_ADDI_def PSX_Exception_def exc_jump_def Let_def)+

lemma exec_frame_cpu [exec_simps]:
  "exec_frame s (t\<lparr>cpu := (cpu t)\<lparr>hi := v, lo := w\<rparr>\<rparr>) = exec_frame s t" "exec_frame s (t\<lparr>cpu := (cpu t)\<lparr>hi := v\<rparr>\<rparr>) = exec_frame s t"
  "exec_frame s (t\<lparr>cpu := (cpu t)\<lparr>lo := v, hi := w\<rparr>\<rparr>) = exec_frame s t" "exec_frame s (t\<lparr>cpu := (cpu t)\<lparr>lo := v\<rparr>\<rparr>) = exec_frame s t"
  "exec_frame s (t\<lparr>cpu := (cpu t)\<lparr>cop0 := f\<rparr>\<rparr>) = exec_frame s t"
  "exec_frame s (t\<lparr>cpu := (cpu t)\<lparr>cop0 := f, irq_pending_fast := v\<rparr>\<rparr>) = exec_frame s t"
  "exec_frame s (t\<lparr>cpu := GTE_WriteData r v (cpu t)\<rparr>) = exec_frame s t" "exec_frame s (t\<lparr>cpu := GTE_WriteCtrl r v (cpu t)\<rparr>) = exec_frame s t"
  "exec_frame s (t\<lparr>cpu := GTE_Execute v (cpu t)\<rparr>) = exec_frame s t"
  by (rule exec_frame_iff, simp add: exec_frame_def GTE_WriteData_def GTE_WriteCtrl_def GTE_Execute_def gte_run_def Let_def)+

lemma exec_frame_reads [exec_simps]:
  fixes t :: "'a imachine_scheme"
  assumes "bus_devices d"
  shows "exec_frame s (snd (ReadByte d a t)) = exec_frame s t" "a AND 1 = 0 \<Longrightarrow> exec_frame s (snd (ReadHalf d a t)) = exec_frame s t"
    "a AND 3 = 0 \<Longrightarrow> exec_frame s (snd (ReadWord d a t)) = exec_frame s t" "exec_frame s (snd (Helper_LWL d a v t)) = exec_frame s t"
    "exec_frame s (snd (Helper_LWR d a v t)) = exec_frame s t"
  using assms by (simp_all add: exec_frame_iff exec_frame_bus bus_simps Helper_LWL_def Helper_LWR_def)

lemma exec_frame_writes:
  fixes t :: "'a imachine_scheme"
  assumes "bus_devices d"
  shows "WriteByte p d a b t = Some u \<Longrightarrow> exec_frame s u = exec_frame s t"
    "a AND 1 = 0 \<Longrightarrow> WriteHalf p d a h t = Some u \<Longrightarrow> exec_frame s u = exec_frame s t"
    "a AND 3 = 0 \<Longrightarrow> WriteWord p d a w t = Some u \<Longrightarrow> exec_frame s u = exec_frame s t"
  using bus_WriteMemory [OF assms, where s = t and t = t and u = u and p = p and a = a]
  by (auto intro!: exec_frame_iff exec_frame_bus)

lemma exec_frame_unaligned_writes:
  fixes t :: "'a imachine_scheme"
  assumes "bus_devices d"
  shows "Helper_SWL p d a w t = Some u \<Longrightarrow> exec_frame s u = exec_frame s t"
    "Helper_SWR p d a w t = Some u \<Longrightarrow> exec_frame s u = exec_frame s t"
  by (auto simp: Helper_SWL_def Helper_SWR_def Let_def case_prod_unfold exec_simps assms
      dest!: exec_frame_writes(3) [OF assms, where s = s, rotated])

lemma exec_instruction_frame:
  assumes "bus_devices d"
  shows "outcome_ok (exec_frame s) (exec_instruction p d opcode s)"
proof -
  have loads: "outcome_ok (exec_frame s) (load_with rt f s)" if "exec_frame s (snd (f s))" for rt f
    using that by (simp add: load_with_def Let_def case_prod_unfold exec_simps)
  have "outcome_ok (exec_frame s) (exec_special opcode s)"
    by (simp add: exec_special_def Let_def case_prod_unfold exec_simps)
  moreover have "outcome_ok (exec_frame s) (exec_regimm opcode s)" by (simp add: exec_regimm_def Let_def exec_simps)
  moreover have "exec_frame s (exec_imm op opcode s)" "exec_frame s (exec_cop0 opcode s)" "exec_frame s (exec_cop2 opcode s)" for op
    by (simp_all add: exec_imm_def exec_cop0_def exec_cop2_def Let_def exec_simps)
  moreover have "outcome_ok (exec_frame s) (exec_load d op opcode s)" for op
    using assms by (simp add: exec_load_def Let_def exec_simps loads)
  moreover have "outcome_ok (exec_frame s) (exec_store p d op opcode s)" for op
    by (auto simp: exec_store_def Let_def exec_simps exec_frame_writes [OF assms] exec_frame_unaligned_writes [OF assms])
  moreover have "outcome_ok (exec_frame s) (exec_lwc2 d opcode s)" "outcome_ok (exec_frame s) (exec_swc2 p d opcode s)"
    using assms by (auto simp: exec_lwc2_def exec_swc2_def Let_def case_prod_unfold exec_simps exec_frame_writes [OF assms])
  ultimately show ?thesis by (simp add: exec_instruction_def Let_def exec_simps)
qed

section \<open>Progress\<close>

lemma exec_frameD:
  assumes "bus_devices d" "exec_instruction p d opcode s = Some (b, t)"
  shows "exec_frame s t"
  using exec_instruction_frame [OF assms(1), of s p opcode] assms(2) by (simp add: outcome_ok_def)

lemma cycle_cost_values: "r3000a_cycle_cost opcode \<in> {1, 2, 6}"
  by (simp add: r3000a_cycle_cost_def Let_def)

lemma finish_clock: "global_cycles (snd (finish_instruction opcode s)) = global_cycles s + ucast (r3000a_cycle_cost opcode)"
  by (simp add: finish_instruction_def commit_branch_def Let_def)

lemma fetch_execute_clock:
  fixes s :: "'a imachine_scheme"
  assumes "bus_devices d" "pc (cpu s) AND 3 = 0" "fetch_execute p d s = Some (False, t)"
  shows "\<exists>opcode. global_cycles t = global_cycles s + ucast (r3000a_cycle_cost opcode)"
proof -
  define r where "r = ReadWord d (pc (cpu s)) (s\<lparr>cpu := (cpu s)\<lparr>current_pc := pc (cpu s)\<rparr>\<rparr>)"
  have "bus_same (s\<lparr>cpu := (cpu s)\<lparr>current_pc := pc (cpu s)\<rparr>\<rparr>) (snd r)"
    unfolding r_def using assms(1,2) by (simp add: bus_simps)
  then have clock: "global_cycles (snd r) = global_cycles s" by (auto dest: bus_same_fields)
  obtain u where u: "exec_instruction p d (fst r) ((snd r)\<lparr>cpu := apply_load_delay ((cpu (snd r))\<lparr>pc := pc (cpu (snd r)) + 4\<rparr>)\<rparr>)
      = Some (False, u)" "t = snd (finish_instruction (fst r) u)"
    using assms(3) by (auto simp: fetch_execute_def Let_def r_def case_prod_unfold split: option.splits if_splits)
  have "global_cycles u = global_cycles s"
    using exec_frameD [OF assms(1) u(1)] clock by (simp add: exec_frame_def)
  then show ?thesis unfolding u(2) by (auto simp: finish_clock)
qed


section \<open>The load delay\<close>

lemma runs_continues:
  assumes "bus_devices d" "runs s opcode" "interpreter_step p d s = Some (False, t)"
  obtains u where "exec_instruction p d opcode (fetched s) = Some (False, u)" "finish_instruction opcode u = (False, t)"
    "exec_frame (fetched s) u"
  using assms(3) that exec_frameD [OF assms(1), of p opcode "fetched s"]
  by (auto simp: runs_step [OF assms(2)] split: option.splits if_splits)

lemma finish_load:
  assumes "finish_instruction opcode u = (False, t)"
  shows "load_commit_val (cpu t) = load_commit_val (cpu u)" "load_delay_reg (cpu t) = load_delay_reg (cpu u)"
    "regs (cpu t) = regs (cpu u)"
    "load_commit_reg (cpu t) = (if \<not> instruction_is_load opcode \<and> instruction_writes_gpr opcode (load_commit_reg (cpu u)) then 0
       else load_commit_reg (cpu u))"
proof -
  have t: "cpu t = (cancel_load opcode (cpu u))\<lparr>pc := pc (cpu t)\<rparr>"
    using assms by (auto simp: finish_instruction_def commit_branch_def Let_def cancel_load_def split: if_splits)
  have zero: "\<not> instruction_writes_gpr opcode 0" by (simp add: instruction_writes_gpr_def Let_def)
  show "load_commit_val (cpu t) = load_commit_val (cpu u)" "load_delay_reg (cpu t) = load_delay_reg (cpu u)"
    "regs (cpu t) = regs (cpu u)"
    "load_commit_reg (cpu t) = (if \<not> instruction_is_load opcode \<and> instruction_writes_gpr opcode (load_commit_reg (cpu u)) then 0
       else load_commit_reg (cpu u))"
    using zero by (subst t, auto simp: cancel_load_def)+
qed

lemma load_in_flight:
  assumes "load_delay_reg c = r" "r \<noteq> 0"
  shows "regs (apply_load_delay c) r = regs c r" "load_commit_reg (apply_load_delay c) = r"
    "load_commit_val (apply_load_delay c) = load_delay_val c"
  using assms by (auto simp: apply_load_delay_def Let_def)

lemma load_committed:
  assumes "r \<noteq> 0" "load_commit_reg c = r"
  shows "regs (apply_load_delay c) r = (if load_delay_reg c = r then regs c r else load_commit_val c)"
  using assms by (auto simp: apply_load_delay_def Let_def)

lemma load_cancelled: "load_commit_reg c = 0 \<Longrightarrow> regs (apply_load_delay c) = regs c"
  by (simp add: apply_load_delay_def Let_def)


section \<open>Branches\<close>

text \<open>Where an instruction branches to, if it does.\<close>

definition branch_of :: "u32 \<Rightarrow> R3000CPU \<Rightarrow> u32 option" where
  "branch_of opcode c =
     (let op = drop_bit 26 opcode; funct = opcode AND 63; rt = i_rt opcode; a = regs c (i_rs opcode); b = regs c rt;
          rel = pc c + push_bit 2 (i_imm_se opcode); taken = (\<lambda>t. if t then Some rel else None)
      in if op = 0 \<and> (funct = 8 \<or> funct = 9) then Some a
         else if op = 1 then taken (if bit rt 0 then 0 \<le> sint a else sint a < 0)
         else if op = 2 \<or> op = 3 then Some (jump_target opcode c)
         else if op = 4 then taken (a = b) else if op = 5 then taken (a \<noteq> b)
         else if op = 6 then taken (sint a \<le> 0) else if op = 7 then taken (0 < sint a)
         else None)"

lemma branch_fields [simp]:
  "branch_state (put_reg r v s) = branch_state s" "branch_target (put_reg r v s) = branch_target s"
  "branch_state (set_reg r v s) = branch_state s" "branch_target (set_reg r v s) = branch_target s"
  "branch_state (delay_load r v s) = branch_state s" "branch_target (delay_load r v s) = branch_target s"
  "branch_state (do_branch w s) = 1" "branch_target (do_branch w s) = w"
  "branch_state (branch_if b opcode s) = (if b then 1 else branch_state s)"
  by (simp_all add: put_reg_def set_reg_def delay_load_def do_branch_def branch_if_def)

lemma regimm_odd:
  "bit (rt :: u32) 0 \<Longrightarrow> rt = 1 \<or> rt = 0x11 \<or> rt \<noteq> 0 \<and> rt \<noteq> 0x10 \<and> rt AND 1 \<noteq> 0"
  "\<not> bit (rt :: u32) 0 \<Longrightarrow> rt = 0 \<or> rt = 0x10 \<or> rt \<noteq> 1 \<and> rt \<noteq> 0x11 \<and> rt AND 1 = 0"
  by (auto simp: mask_simps)

lemma exec_branches:
  assumes "branch_of opcode (cpu s) = Some w"
  shows "\<exists>t. exec_instruction p d opcode s = Some (False, t) \<and> branch_state t = 1 \<and> branch_target t = w \<and>
    pc (cpu t) = pc (cpu s) \<and> block_aborted (cpu t) = block_aborted (cpu s) \<and> global_cycles t = global_cycles s"
proof -
  have regimm: ?thesis if "drop_bit 26 opcode = 1"
  proof -
    have "w = pc (cpu s) + push_bit 2 (i_imm_se opcode)"
      and "if bit (i_rt opcode) 0 then 0 \<le> sint (regs (cpu s) (i_rs opcode)) else sint (regs (cpu s) (i_rs opcode)) < 0"
      using assms that by (auto simp: branch_of_def Let_def split: if_splits)
    then show ?thesis
      using that by (auto simp: exec_instruction_def exec_regimm_def Let_def continue_with_def branch_if_def do_branch_def
          set_reg_def mask_simps split: if_splits)
  qed
  show ?thesis
  proof (cases "drop_bit 26 opcode = 1")
    case False
    then consider "drop_bit 26 opcode = 0" "opcode AND 63 = 8 \<or> opcode AND 63 = 9" "w = regs (cpu s) (i_rs opcode)"
      | "drop_bit 26 opcode = 2 \<or> drop_bit 26 opcode = 3" "w = jump_target opcode (cpu s)"
      | "w = pc (cpu s) + push_bit 2 (i_imm_se opcode)"
        "drop_bit 26 opcode = 4 \<and> regs (cpu s) (i_rs opcode) = regs (cpu s) (i_rt opcode) \<or>
         drop_bit 26 opcode = 5 \<and> regs (cpu s) (i_rs opcode) \<noteq> regs (cpu s) (i_rt opcode) \<or>
         drop_bit 26 opcode = 6 \<and> sint (regs (cpu s) (i_rs opcode)) \<le> 0 \<or>
         drop_bit 26 opcode = 7 \<and> 0 < sint (regs (cpu s) (i_rs opcode))"
      using assms by (auto simp: branch_of_def Let_def split: if_splits)
    then show ?thesis
    proof cases
      case 1
      then show ?thesis
        by (elim disjE) (simp_all add: exec_instruction_def exec_special_def Let_def continue_with_def do_branch_def
            set_reg_def put_reg_def)
    next
      case 2
      then show ?thesis
        by (elim disjE) (simp_all add: exec_instruction_def Let_def continue_with_def do_branch_def set_reg_def)
    next
      case 3
      then show ?thesis
        by (elim disjE conjE) (simp_all add: exec_instruction_def Let_def continue_with_def branch_if_def do_branch_def)
    qed
  qed (rule regimm)
qed

text \<open>The instructions that can branch.\<close>

definition is_branch :: "u32 \<Rightarrow> bool" where
  "is_branch opcode \<longleftrightarrow> (let op = drop_bit 26 opcode; funct = opcode AND 63
     in op \<ge> 1 \<and> op \<le> 7 \<or> op = 0 \<and> (funct = 8 \<or> funct = 9))"

definition branch_kept :: "'a imachine_scheme \<Rightarrow> bool \<times> 'a imachine_scheme \<Rightarrow> bool" where
  "branch_kept s r \<longleftrightarrow> (\<not> fst r \<longrightarrow> branch_state (snd r) = branch_state s \<and> branch_target (snd r) = branch_target s)"

definition keeps_branch :: "'a imachine_scheme \<Rightarrow> 'a imachine_scheme outcome \<Rightarrow> bool" where
  "keeps_branch s r \<longleftrightarrow> (\<forall>q. r = Some q \<longrightarrow> branch_kept s q)"

lemma keeps_branch_simps [simp]:
  "keeps_branch s (continue_with t) = (branch_state t = branch_state s \<and> branch_target t = branch_target s)"
  "keeps_branch s (trap_return t)"
  "keeps_branch s (map_option (Pair False) r) = (\<forall>t. r = Some t \<longrightarrow> branch_state t = branch_state s \<and> branch_target t = branch_target s)"
  by (auto simp: keeps_branch_def branch_kept_def continue_with_def trap_return_def)

lemma trapping_branch [simp]:
  "branch_state (Helper_ADD x y z w s) = branch_state s" "branch_target (Helper_ADD x y z w s) = branch_target s"
  "branch_state (Helper_SUB x y z w s) = branch_state s" "branch_target (Helper_SUB x y z w s) = branch_target s"
  "branch_state (Helper_ADDI x y z w s) = branch_state s" "branch_target (Helper_ADDI x y z w s) = branch_target s"
  by (simp_all add: Helper_ADD_def Helper_SUB_def Helper_ADDI_def PSX_Exception_def exc_jump_def set_reg_def Let_def)

lemma read_branch [simp]:
  fixes s :: "'a imachine_scheme"
  assumes "bus_devices d"
  shows "branch_state (snd (ReadByte d a s)) = branch_state s" "branch_target (snd (ReadByte d a s)) = branch_target s"
    "a AND 1 = 0 \<Longrightarrow> branch_state (snd (ReadHalf d a s)) = branch_state s"
    "a AND 1 = 0 \<Longrightarrow> branch_target (snd (ReadHalf d a s)) = branch_target s"
    "a AND 3 = 0 \<Longrightarrow> branch_state (snd (ReadWord d a s)) = branch_state s"
    "a AND 3 = 0 \<Longrightarrow> branch_target (snd (ReadWord d a s)) = branch_target s"
    "branch_state (snd (Helper_LWL d a v s)) = branch_state s" "branch_target (snd (Helper_LWL d a v s)) = branch_target s"
    "branch_state (snd (Helper_LWR d a v s)) = branch_state s" "branch_target (snd (Helper_LWR d a v s)) = branch_target s"
proof -
  note same = bus_same_fields [of s "snd (ReadByte d a s)"] bus_same_fields [of s "snd (ReadHalf d a s)"]
    bus_same_fields [of s "snd (ReadWord d a s)"] bus_same_fields [of s "snd (ReadWord d (a AND - 4) s)"]
  show "branch_state (snd (ReadByte d a s)) = branch_state s" "branch_target (snd (ReadByte d a s)) = branch_target s"
    "a AND 1 = 0 \<Longrightarrow> branch_state (snd (ReadHalf d a s)) = branch_state s"
    "a AND 1 = 0 \<Longrightarrow> branch_target (snd (ReadHalf d a s)) = branch_target s"
    "a AND 3 = 0 \<Longrightarrow> branch_state (snd (ReadWord d a s)) = branch_state s"
    "a AND 3 = 0 \<Longrightarrow> branch_target (snd (ReadWord d a s)) = branch_target s"
    "branch_state (snd (Helper_LWL d a v s)) = branch_state s" "branch_target (snd (Helper_LWL d a v s)) = branch_target s"
    "branch_state (snd (Helper_LWR d a v s)) = branch_state s" "branch_target (snd (Helper_LWR d a v s)) = branch_target s"
    using same assms by (simp_all add: bus_simps Helper_LWL_def Helper_LWR_def)
qed

lemma write_branch:
  fixes s :: "'a imachine_scheme"
  assumes "bus_devices d"
  shows "WriteByte p d a b s = Some t \<Longrightarrow> branch_state t = branch_state s \<and> branch_target t = branch_target s"
    "a AND 1 = 0 \<Longrightarrow> WriteHalf p d a h s = Some t \<Longrightarrow> branch_state t = branch_state s \<and> branch_target t = branch_target s"
    "a AND 3 = 0 \<Longrightarrow> WriteWord p d a v s = Some t \<Longrightarrow> branch_state t = branch_state s \<and> branch_target t = branch_target s"
  using bus_WriteMemory [OF assms, where s = s and t = s and u = t and p = p and a = a] bus_same_fields [of s t] by auto

lemma write_branch_unaligned:
  fixes s :: "'a imachine_scheme"
  assumes "bus_devices d"
  shows "Helper_SWL p d a v s = Some t \<Longrightarrow> branch_state t = branch_state s \<and> branch_target t = branch_target s"
    "Helper_SWR p d a v s = Some t \<Longrightarrow> branch_state t = branch_state s \<and> branch_target t = branch_target s"
  using read_branch(5,6) [OF assms, of "a AND - 4" s]
  by (auto simp: Helper_SWL_def Helper_SWR_def Let_def case_prod_unfold dest!: write_branch(3) [OF assms, rotated])

lemma exec_keeps_branch:
  assumes "bus_devices d" "\<not> is_branch opcode"
  shows "keeps_branch s (exec_instruction p d opcode s)"
proof -
  have loads: "keeps_branch s (load_with rt f s)"
    if "branch_state (snd (f s)) = branch_state s" "branch_target (snd (f s)) = branch_target s" for rt f
    using that by (simp add: load_with_def Let_def case_prod_unfold)
  have "keeps_branch s (exec_special opcode s)" if "opcode AND 63 \<noteq> 8" "opcode AND 63 \<noteq> 9"
    using that by (simp add: exec_special_def Let_def case_prod_unfold)
  moreover have "keeps_branch s (continue_with (exec_imm op opcode s))" "keeps_branch s (continue_with (exec_cop0 opcode s))"
    "keeps_branch s (continue_with (exec_cop2 opcode s))" for op
    by (simp_all add: exec_imm_def exec_cop0_def exec_cop2_def Let_def)
  moreover have "keeps_branch s (exec_load d op opcode s)" for op
    using assms(1) by (simp add: exec_load_def Let_def loads)
  moreover have "keeps_branch s (exec_store p d op opcode s)" for op
    by (auto simp: exec_store_def Let_def dest: write_branch [OF assms(1), rotated 1] write_branch(1) [OF assms(1)]
        write_branch_unaligned [OF assms(1)])
  moreover have "keeps_branch s (exec_lwc2 d opcode s)" "keeps_branch s (exec_swc2 p d opcode s)"
    using assms(1) by (auto simp: exec_lwc2_def exec_swc2_def Let_def case_prod_unfold dest: write_branch(3) [OF assms(1), rotated])
  moreover have "drop_bit 26 opcode \<notin> {1, 2, 3, 4, 5, 6, 7}" "drop_bit 26 opcode = 0 \<longrightarrow> opcode AND 63 \<noteq> 8 \<and> opcode AND 63 \<noteq> 9"
    using assms(2) by (auto simp: is_branch_def Let_def)
  ultimately show ?thesis by (simp add: exec_instruction_def Let_def)
qed

lemma finish_branch_pending:
  "branch_state u = 1 \<Longrightarrow> \<not> block_aborted (cpu u) \<Longrightarrow>
    \<exists>t. finish_instruction opcode u = (False, t) \<and> pc (cpu t) = pc (cpu u) \<and> branch_state t = 2 \<and> branch_target t = branch_target u"
  by (simp add: finish_instruction_def commit_branch_def cancel_load_def Let_def)

lemma finish_branch_commit:
  "branch_state u = 2 \<Longrightarrow> \<not> block_aborted (cpu u) \<Longrightarrow>
    \<exists>b t. finish_instruction opcode u = (b, t) \<and> pc (cpu t) = branch_target u \<and> branch_state t = 0 \<and>
      regs (cpu t) = regs (cpu u) \<and> cop0 (cpu t) = cop0 (cpu u)"
  by (simp add: finish_instruction_def commit_branch_def cancel_load_def Let_def)


text \<open>
  An overflow in a delay slot: the exception is recorded, but the pending branch overwrites the vector, so the handler is
  never entered and the program goes on at the target in the mode of the exception.
\<close>

lemma overflow_in_delay_slot:
  assumes "runs s opcode" "drop_bit 26 opcode = 0" "opcode AND 63 = 0x20" "branch_state s = 2"
    and "\<not> psx_block_exception s" "\<not> block_aborted (cpu s)"
    and "let a = regs (cpu (fetched s)) (i_rs opcode); b = regs (cpu (fetched s)) (i_rt opcode)
         in (a XOR b) AND 0x80000000 = 0 \<and> (a + b XOR a) AND 0x80000000 \<noteq> 0"
  shows "\<exists>b t. interpreter_step p d s = Some (b, t) \<and> pc (cpu t) = branch_target s \<and>
    cop0 (cpu t) PSX_COP0_EPC = pc (cpu s) \<and> cop0 (cpu t) PSX_COP0_SR = exc_push_mode (cop0 (cpu s) PSX_COP0_SR)"
proof -
  define u where "u = PSX_Exception 0x0C ((fetched s)\<lparr>cpu := (cpu (fetched s))\<lparr>pc := pc (cpu s)\<rparr>\<rparr>)"
  have "exec_instruction p d opcode (fetched s) = Some (False, u)"
    using assms(2,3,7) by (simp add: exec_instruction_def exec_special_def Helper_ADD_def Let_def continue_with_def u_def)
  moreover have "branch_state u = 2" "branch_target u = branch_target s" "\<not> block_aborted (cpu u)"
    "cop0 (cpu u) PSX_COP0_EPC = pc (cpu s)" "cop0 (cpu u) PSX_COP0_SR = exc_push_mode (cop0 (cpu s) PSX_COP0_SR)"
    using assms(4-6) by (simp_all add: u_def PSX_Exception_def exc_jump_def Let_def cop0_defs)
  ultimately show ?thesis
    using finish_branch_commit [of u opcode] by (auto simp: runs_step [OF assms(1)])
qed

text \<open>The branches that link are not among the instructions that cancel a load of their register.\<close>

lemma link_branch_does_not_cancel: "drop_bit 26 opcode = 1 \<Longrightarrow> \<not> instruction_writes_gpr opcode 31"
  by (simp add: instruction_writes_gpr_def Let_def word_le_nat_alt)

section \<open>Runs\<close>

text \<open>
  C2. The register invariant over whole runs. From a state in which register zero is zero, the registers of the load pipeline
  exist and the registers of the geometry engine have their formats, a run to any deadline, through any program and any
  traps, ends in such a state, provided the processors that are not modelled leave the processor alone.
\<close>

theorem interpreter_keeps_registers:
  fixes s :: "'a imachine_scheme"
  assumes "bus_devices d" "cpu_ok (cpu s)" "run_interpreter_chain p d deadline s = Some t"
  shows "cpu_ok (cpu t)"
  by (rule chain_induct [OF assms(3), where I = "\<lambda>s. cpu_ok (cpu s)"])
    (use interpreter_step_ok [OF assms(1), where p = p] assms(2) in \<open>auto simp: outcome_ok_def\<close>)

text \<open>
  Leaving the loop. Whenever the interpreter returns, whether at the deadline, for an event, on a trap or after an aborted
  block, no branch is pending, so an interrupt can be taken; the one exception is the boot hook, which
  returns at once from its addresses and may do so between a branch and its delay slot.
\<close>

theorem interpreter_returns_between_branches:
  assumes "run_interpreter_chain p d deadline s = Some t"
  shows "branch_state t = 0 \<or> boot_hook t"
  by (rule chain_induct [OF assms, where I = "\<lambda>_. True"]) (auto dest: step_returns_clean)

lemma boot_hook_in_delay_slot:
  "boot_hook s \<Longrightarrow> branch_state s = 2 \<Longrightarrow> run_interpreter_chain p d deadline s = Some s"
  by (subst run_interpreter_chain.simps) (simp add: interpreter_step_def)

section \<open>Instances\<close>

text \<open>A machine about to execute the first bytes of a program at address 0x1000; the rest of memory is zero.\<close>

definition program_machine :: "u8 list \<Rightarrow> imachine" where
  "program_machine bs = (machine_with \<lparr>branch_target = 0, branch_state = 0, binary_loaded = True\<rparr>)
     \<lparr>cpu := cpu_zero\<lparr>pc := 0x80001000\<rparr>,
      psx_ram := (\<lambda>a. if unat (a - 0x1000) < length bs then bs ! unat (a - 0x1000) else 0)\<rparr>"

lemma program_machine_simps [simp]:
  "cpu (program_machine bs) = cpu_zero\<lparr>pc := 0x80001000\<rparr>" "branch_state (program_machine bs) = 0"
  "global_cycles (program_machine bs) = 0" "sched_cached_earliest (program_machine bs) = UINT64_MAX"
  "psx_block_exception (program_machine bs) = False" "binary_loaded (program_machine bs)"
  by (simp_all add: program_machine_def machine_with_def dmachine_with_def cmachine_with_def smachine_with_def tmachine_with_def)

lemma program_runs:
  "runs (program_machine []) 0" "runs (program_machine [0x0C]) 0x0C" "runs (program_machine [0x00, 0x08, 0x00, 0x08]) 0x08000800"
  by (simp_all add: runs_def boot_hook_def bios_call_def translate_addr_def in_ram_def PSX_RAM_SIZE_def Let_def)
    (simp_all add: program_machine_def load32_def cpu_zero_def)

lemma idle_bus_devices: "bus_devices idle_devices"
  by (simp add: bus_devices_def idle_devices_keep)

lemma program_ok: "cpu_ok (cpu (program_machine bs))"
  by (simp add: cpu_ok_def cpu_zero_def gte_regs_ok_def sx16_def flag_wf_def)

lemma no_event_yet: "\<not> UINT64_MAX \<le> 1"
  unfolding UINT64_MAX_def by code_simp

lemma program_nop:
  "\<exists>t. interpreter_step one_pad idle_devices (program_machine []) = Some (False, t) \<and> global_cycles t = 1 \<and> branch_state t = 0"
  by (simp add: runs_step [OF program_runs(1)] exec_instruction_def exec_special_def Let_def continue_with_def
      finish_instruction_def commit_branch_def put_reg_def i_rd_def r3000a_cycle_cost_def fetched_def cancel_load_def
      apply_load_delay_def cpu_zero_def no_event_yet)

lemma program_nop_run:
  "\<exists>t. run_interpreter_chain one_pad idle_devices 1 (program_machine []) = Some t \<and> global_cycles t = 1"
proof -
  obtain t where t: "interpreter_step one_pad idle_devices (program_machine []) = Some (False, t)" "global_cycles t = 1"
      "branch_state t = 0" using program_nop by blast
  then show ?thesis
    by (subst run_interpreter_chain.simps, simp, subst run_interpreter_chain.simps, simp)
qed





theorem interpreter_keeps_registers_witness:
  "\<exists>t. run_interpreter_chain one_pad idle_devices 1 (program_machine []) = Some t \<and> cpu_ok (cpu t)"
  using program_nop_run interpreter_keeps_registers [OF idle_bus_devices program_ok] by blast

theorem interpreter_returns_between_branches_witness:
  "\<exists>t. run_interpreter_chain one_pad idle_devices 1 (program_machine []) = Some t \<and> (branch_state t = 0 \<or> boot_hook t)"
  using program_nop_run interpreter_returns_between_branches by blast

end
