(* ===== verification/Spu.thy ===== *)
theory Spu
  imports Bus_Frame
begin

text \<open>
  The sound processor of \<^verbatim>\<open>src/spu.c\<close>: twenty-four voices that decode ADPCM blocks from sound memory, their
  envelopes, the register file, key on and key off, the transfer channel, the mixer and the catch-up that generates
  samples up to the present cycle.

  C integers of 32 bits that stay small are integers here (the bounds are part of the invariant in \<open>Spu_Laws\<close>);
  the product with the main volume can leave the 32-bit range, so its wrap-around is written out. Samples are integers with
  the conversion to 16 bits written out. What the host's audio output is given is a list of sample pairs; how much of
  it is played is the platform's business.
\<close>

section \<open>State\<close>

datatype AdsrPhase = ADSR_ATTACK | ADSR_DECAY | ADSR_SUSTAIN | ADSR_RELEASE | ADSR_OFF

record SPU_Voice =
  vol_l :: u16
  vol_r :: u16
  pitch :: u16
  start_addr :: u16
  adsr_lo :: u16
  adsr_hi :: u16
  adsr_level :: u16
  repeat_addr :: u16
  active :: bool
  current_addr :: u32
  sample_pos :: u32
  prev_1 :: int
  prev_2 :: int
  decoded :: "int list"
  block_decoded :: bool
  loop_pending :: bool
  ignore_loop :: bool
  adsr_vol :: int
  adsr_phase :: AdsrPhase
  adsr_counter :: int
  adsr_ci :: int
  adsr_step :: int
  adsr_exp :: bool
  adsr_inc :: bool
  adsr_sl :: int

record spu_state =
  spu_ram :: bytes
  voices :: "nat \<Rightarrow> SPU_Voice"
  main_vol_l :: u16
  main_vol_r :: u16
  key_on_lo :: u16
  key_on_hi :: u16
  endx :: u32
  spu_cnt :: u16
  spu_stat :: u16
  transfer_addr :: u16
  transfer_ptr :: u32
  data_fifo :: u16
  pending_kon :: u32
  spu_reg_store :: "u32 \<Rightarrow> u16"
  spu_irq_addr :: u32
  spu_irq_enabled :: bool
  spu_irq_fired :: bool
  mix_buf_l :: "nat \<Rightarrow> int"
  mix_buf_r :: "nat \<Rightarrow> int"
  spu_initialized :: bool
  spu_samples_generated :: int
  spu_frame_start_cycle :: u64
  prof_disable_spu :: bool
  audio_played :: "(int \<times> int) list"

record amachine = imachine +
  spu :: spu_state

definition SPU_RAM_SIZE :: u32 where "SPU_RAM_SIZE = 0x80000"
definition SPU_NUM_VOICES :: nat where "SPU_NUM_VOICES = 24"
definition SAMPLES_PER_FRAME :: int where "SAMPLES_PER_FRAME = 735"
definition CYCLES_PER_SAMPLE :: u64 where "CYCLES_PER_SAMPLE = 768"

definition adpcm_filter :: "(int \<times> int) list" where
  "adpcm_filter = [(0, 0), (60, 0), (115, - 52), (98, - 55), (122, - 60)]"

text \<open>The conversions to \<^verbatim>\<open>int16_t\<close> and \<^verbatim>\<open>int32_t\<close>.\<close>

definition to_s16 :: "int \<Rightarrow> int" where "to_s16 x = sint (word_of_int x :: u16)"
definition to_s32 :: "int \<Rightarrow> int" where "to_s32 x = sint (word_of_int x :: u32)"

section \<open>Envelope\<close>

text \<open>The shift, step index, curve and direction the registers give for a phase.\<close>

definition adsr_params :: "SPU_Voice \<Rightarrow> (nat \<times> int \<times> bool \<times> bool) option" where
  "adsr_params v =
     (let a = adsr_lo v; b = adsr_hi v
      in case adsr_phase v of
           ADSR_ATTACK \<Rightarrow> Some (unat (drop_bit 10 a AND 0x1F), uint (drop_bit 8 a AND 3), bit a 15, False)
         | ADSR_DECAY \<Rightarrow> Some (unat (drop_bit 4 a AND 0x0F), 0, True, True)
         | ADSR_SUSTAIN \<Rightarrow> Some (unat (drop_bit 8 b AND 0x1F), uint (drop_bit 6 b AND 3), bit b 15, bit b 14)
         | ADSR_RELEASE \<Rightarrow> Some (unat (b AND 0x1F), 0, bit b 5, True)
         | ADSR_OFF \<Rightarrow> None)"

definition adsr_reload_params :: "SPU_Voice \<Rightarrow> SPU_Voice" where
  "adsr_reload_params v =
     (let v1 = v\<lparr>adsr_sl := (uint (adsr_lo v AND 0x0F) + 1) * 2 ^ 11\<rparr>
      in case adsr_params v of
           None \<Rightarrow> v1\<lparr>adsr_ci := 0, adsr_step := 0, adsr_exp := False, adsr_inc := False\<rparr>
         | Some (shift, step_idx, is_exp, is_dec) \<Rightarrow>
             let raw_step = (if is_dec then 8 - step_idx else 7 - step_idx);
                 base = (if shift < 11 then raw_step * 2 ^ (11 - shift) else raw_step)
             in v1\<lparr>adsr_ci := (if shift > 11 then 0x8000 div 2 ^ (shift - 11) else 0x8000),
                   adsr_step := (if is_dec then - base else base), adsr_exp := is_exp, adsr_inc := \<not> is_dec\<rparr>)"

definition adsr_rate :: "SPU_Voice \<Rightarrow> int" where
  "adsr_rate v = (if adsr_exp v \<and> adsr_inc v \<and> adsr_vol v > 0x6000 then adsr_ci v div 4 else adsr_ci v)"

text \<open>The envelope step that follows an overflow of the counter.\<close>

definition adsr_apply :: "SPU_Voice \<Rightarrow> SPU_Voice" where
  "adsr_apply v =
     (let step = (if adsr_exp v \<and> \<not> adsr_inc v then adsr_step v * adsr_vol v div 2 ^ 15 else adsr_step v);
          vol = adsr_vol v + step;
          (vol', v') = (case adsr_phase v of
             ADSR_ATTACK \<Rightarrow> if vol \<ge> 0x7FFF \<or> vol < 0
                then (0x7FFF, adsr_reload_params (v\<lparr>adsr_phase := ADSR_DECAY, adsr_counter := 0\<rparr>)) else (vol, v)
           | ADSR_DECAY \<Rightarrow> if max vol 0 \<le> adsr_sl v
                then (adsr_sl v, adsr_reload_params (v\<lparr>adsr_phase := ADSR_SUSTAIN, adsr_counter := 0\<rparr>)) else (max vol 0, v)
           | ADSR_SUSTAIN \<Rightarrow> (if adsr_inc v then min vol 0x7FFF else max vol 0, v)
           | ADSR_RELEASE \<Rightarrow> if max vol 0 = 0 then (0, v\<lparr>adsr_phase := ADSR_OFF, active := False\<rparr>) else (max vol 0, v)
           | ADSR_OFF \<Rightarrow> (vol, v))
      in v'\<lparr>adsr_vol := vol', adsr_level := word_of_int vol' AND 0x7FFF\<rparr>)"

definition adsr_tick :: "SPU_Voice \<Rightarrow> SPU_Voice" where
  "adsr_tick v =
     (let counter = adsr_counter v + adsr_rate v
      in if counter < 0x8000 then v\<lparr>adsr_counter := counter\<rparr>
         else adsr_apply (v\<lparr>adsr_counter := counter mod 0x8000\<rparr>))"

definition get_effective_volume :: "u16 \<Rightarrow> int" where
  "get_effective_volume raw =
     (if bit raw 15
      then let v = uint (raw AND 0x7FFF) * 2 in if v > 0x7FFF then 0x7FFF else v
      else let v = uint (raw AND 0x7FFF) * 2; v = (if v > 0x7FFF then 0x7FFF else v) in if v < 0 then 0 else v)"

section \<open>Decoding\<close>

text \<open>The two samples of a byte, shifted: \<^verbatim>\<open>(nibble << 12) >> shift\<close> as a 16-bit value.\<close>

definition adpcm_nibbles :: "nat \<Rightarrow> u8 \<Rightarrow> int list" where
  "adpcm_nibbles shift byte =
     [to_s16 (sint (push_bit 4 (byte AND 0x0F)) div 2 ^ 4 * 2 ^ 12 div 2 ^ shift),
      to_s16 (sint (byte AND 0xF0) div 2 ^ 4 * 2 ^ 12 div 2 ^ shift)]"

definition clamp16 :: "int \<Rightarrow> int" where
  "clamp16 x = max (- 32768) (min 32767 x)"

text \<open>The samples, and the last two of the history.\<close>

fun adpcm_samples :: "int \<Rightarrow> int \<Rightarrow> int list \<Rightarrow> int \<Rightarrow> int \<Rightarrow> int list \<times> int \<times> int" where
  "adpcm_samples f0 f1 [] s1 s2 = ([], s1, s2)"
| "adpcm_samples f0 f1 (x # xs) s1 s2 =
     (let sample = clamp16 (x + (s1 * f0 + s2 * f1 + 32) div 2 ^ 6);
          (ys, t1, t2) = adpcm_samples f0 f1 xs sample s1
      in (sample # ys, t1, t2))"

text \<open>
  One block of sixteen bytes for a voice: the voice, and whether its end flag is set. The first byte holds shift and
  filter, the second the loop flags. Filter 0 copies the samples.
\<close>

definition decode_block_samples :: "bytes \<Rightarrow> u32 \<Rightarrow> SPU_Voice \<Rightarrow> SPU_Voice" where
  "decode_block_samples ram a v =
     (let sf = ram a; shift = unat (sf AND 0x0F); filter = min 4 (unat (drop_bit 4 sf AND 7));
          shifted = concat (map (\<lambda>i. adpcm_nibbles shift (ram (a + 2 + of_nat i))) [0..<14])
      in if filter = 0
         then v\<lparr>decoded := shifted, prev_1 := shifted ! 27, prev_2 := shifted ! 26, block_decoded := True\<rparr>
         else let (f0, f1) = adpcm_filter ! filter; (ys, s1, s2) = adpcm_samples f0 f1 shifted (prev_1 v) (prev_2 v)
              in v\<lparr>decoded := ys, prev_1 := s1, prev_2 := s2, block_decoded := True\<rparr>)"

definition decode_adpcm_block :: "bytes \<Rightarrow> u32 \<Rightarrow> SPU_Voice \<Rightarrow> SPU_Voice \<times> bool" where
  "decode_adpcm_block ram addr v =
     (let a = addr AND (SPU_RAM_SIZE - 1); flags = ram (a + 1); v1 = decode_block_samples ram a v;
          v2 = (if flags AND 4 \<noteq> 0 \<and> \<not> ignore_loop v1 then v1\<lparr>repeat_addr := ucast (drop_bit 3 addr)\<rparr> else v1)
      in if flags AND 1 \<noteq> 0
         then (if flags AND 2 \<noteq> 0 then v2\<lparr>loop_pending := True\<rparr> else v2\<lparr>loop_pending := False, active := False\<rparr>, True)
         else (v2, False))"

section \<open>Voices of the machine\<close>

definition upd_spu :: "(spu_state \<Rightarrow> spu_state) \<Rightarrow> 'a amachine_scheme \<Rightarrow> 'a amachine_scheme" where
  "upd_spu f s = s\<lparr>spu := f (spu s)\<rparr>"

definition voice :: "nat \<Rightarrow> 'a amachine_scheme \<Rightarrow> SPU_Voice" where
  "voice i s = voices (spu s) i"

definition set_voice :: "nat \<Rightarrow> SPU_Voice \<Rightarrow> 'a amachine_scheme \<Rightarrow> 'a amachine_scheme" where
  "set_voice i v = upd_spu (\<lambda>a. a\<lparr>voices := (voices a)(i := v)\<rparr>)"

text \<open>The address interrupt, raised once until it is acknowledged.\<close>

definition spu_irq_check :: "u32 \<Rightarrow> 'a amachine_scheme \<Rightarrow> 'a amachine_scheme" where
  "spu_irq_check addr s =
     (if spu_irq_enabled (spu s) \<and> \<not> spu_irq_fired (spu s) \<and> addr = spu_irq_addr (spu s)
      then SignalInterrupt 9 (upd_spu (\<lambda>a. a\<lparr>spu_stat := spu_stat a OR 0x0040, spu_irq_fired := True\<rparr>) s)
      else s)"

section \<open>Key on and key off\<close>

definition key_on_voice :: "SPU_Voice \<Rightarrow> SPU_Voice" where
  "key_on_voice v = adsr_reload_params (v\<lparr>active := True, current_addr := push_bit 3 (ucast (start_addr v AND NOT 1)),
     sample_pos := 0, prev_1 := 0, prev_2 := 0, block_decoded := False, loop_pending := False, ignore_loop := False,
     adsr_vol := 0, adsr_phase := ADSR_ATTACK, adsr_counter := 0, adsr_level := 0\<rparr>)"

definition key_off_voice :: "SPU_Voice \<Rightarrow> SPU_Voice" where
  "key_off_voice v = (if active v then adsr_reload_params (v\<lparr>adsr_phase := ADSR_RELEASE, adsr_counter := 0\<rparr>) else v)"

text \<open>The voices of a mask, lowest first; bits above the last voice are not looked at.\<close>

definition process_key_on :: "u32 \<Rightarrow> spu_state \<Rightarrow> spu_state" where
  "process_key_on kon = fold (\<lambda>i a. if bit kon i
     then a\<lparr>voices := (voices a)(i := key_on_voice (voices a i)), endx := endx a AND NOT (push_bit i 1)\<rparr> else a)
     [0..<SPU_NUM_VOICES]"

definition process_key_off :: "u32 \<Rightarrow> spu_state \<Rightarrow> spu_state" where
  "process_key_off koff = fold (\<lambda>i a. if bit koff i then a\<lparr>voices := (voices a)(i := key_off_voice (voices a i))\<rparr> else a)
     [0..<SPU_NUM_VOICES]"

definition flush_pending_kon :: "spu_state \<Rightarrow> spu_state" where
  "flush_pending_kon a = (if pending_kon a \<noteq> 0 then (process_key_on (pending_kon a) a)\<lparr>pending_kon := 0\<rparr> else a)"

section \<open>Mixing\<close>

text \<open>Decode the block under the voice if that has not been done.\<close>

definition spu_load_block :: "nat \<Rightarrow> 'a amachine_scheme \<Rightarrow> 'a amachine_scheme" where
  "spu_load_block i s =
     (if block_decoded (voice i s) then s
      else let s1 = spu_irq_check (current_addr (voice i s)) s;
               (v, ended) = decode_adpcm_block (spu_ram (spu s1)) (current_addr (voice i s1)) (voice i s1);
               s2 = set_voice i v s1
           in if ended then upd_spu (\<lambda>a. a\<lparr>endx := endx a OR push_bit i 1\<rparr>) s2 else s2)"

text \<open>Cross block boundaries: 28 samples in 20.12 fixed point.\<close>

definition next_block :: "SPU_Voice \<Rightarrow> SPU_Voice" where
  "next_block v =
     (let v1 = v\<lparr>sample_pos := sample_pos v - push_bit 12 28\<rparr>
      in if loop_pending v1 then v1\<lparr>current_addr := push_bit 3 (ucast (repeat_addr v1)), loop_pending := False\<rparr>
         else v1\<lparr>current_addr := (current_addr v1 + 16) AND (SPU_RAM_SIZE - 1)\<rparr>)"

function skip_blocks :: "SPU_Voice \<Rightarrow> SPU_Voice" where
  "skip_blocks v = (if 28 \<le> drop_bit 12 (sample_pos v) then skip_blocks (next_block v) else v)"
  by auto

termination
proof (relation "measure (\<lambda>v. unat (sample_pos v))")
  fix v :: SPU_Voice assume "28 \<le> drop_bit 12 (sample_pos v)"
  then have "28 \<le> unat (sample_pos v) div 2 ^ 12" by (simp add: word_le_nat_alt drop_bit_eq_div unat_div)
  then have "114688 \<le> unat (sample_pos v)" by simp
  then have "unat (sample_pos v - push_bit 12 28) < unat (sample_pos v)"
    by (simp add: unat_sub word_le_nat_alt push_bit_eq_mult)
  then show "(next_block v, v) \<in> measure (\<lambda>v. unat (sample_pos v))" by (simp add: next_block_def Let_def)
qed simp

declare skip_blocks.simps [simp del]

definition cross_block :: "SPU_Voice \<Rightarrow> SPU_Voice" where
  "cross_block v = (if 28 \<le> drop_bit 12 (sample_pos v) then (skip_blocks v)\<lparr>block_decoded := False\<rparr> else v)"

text \<open>Add one sample of the voice at position \<open>k\<close> of the mix buffers and move on by the pitch.\<close>

definition mix_sample :: "nat \<Rightarrow> int \<Rightarrow> int \<Rightarrow> nat \<Rightarrow> spu_state \<Rightarrow> spu_state" where
  "mix_sample i comb_l comb_r k a =
     (let v = voices a i; pcm = decoded v ! unat (drop_bit 12 (sample_pos v))
      in a\<lparr>mix_buf_l := (mix_buf_l a)(k := mix_buf_l a k + pcm * comb_l div 2 ^ 15),
           mix_buf_r := (mix_buf_r a)(k := mix_buf_r a k + pcm * comb_r div 2 ^ 15),
           voices := (voices a)(i := v\<lparr>sample_pos := sample_pos v + ucast (pitch v)\<rparr>)\<rparr>)"

definition mix_run :: "nat \<Rightarrow> int \<Rightarrow> int \<Rightarrow> nat \<Rightarrow> nat \<Rightarrow> spu_state \<Rightarrow> spu_state" where
  "mix_run i comb_l comb_r k n a = fold (mix_sample i comb_l comb_r) [k..<k + n] a"

text \<open>The samples before the envelope counter overflows, the block ends or the chunk is full.\<close>

definition batch_rate :: "SPU_Voice \<Rightarrow> int" where
  "batch_rate v = (if adsr_rate v \<le> 0 then 1 else adsr_rate v)"

definition batch_length :: "SPU_Voice \<Rightarrow> int \<Rightarrow> int" where
  "batch_length v remain =
     (let batch = (if adsr_counter v < 0x8000 then (0x7FFF - adsr_counter v) sdiv batch_rate v else 0);
          blk_lim = (28 * 2 ^ 12 - sint (sample_pos v) - 1) sdiv uint (pitch v) + 1;
          batch = (if pitch v > 0 \<and> blk_lim > 0 \<and> blk_lim < batch then blk_lim else batch)
      in if batch > remain then remain else batch)"

definition voice_volumes :: "SPU_Voice \<Rightarrow> int \<Rightarrow> int \<times> int" where
  "voice_volumes v envelope =
     (get_effective_volume (vol_l v) * envelope div 2 ^ 15, get_effective_volume (vol_r v) * envelope div 2 ^ 15)"

text \<open>The two halves of the loop body: a batch at constant volume, and one sample with an envelope tick.\<close>

definition voice_batch :: "nat \<Rightarrow> nat \<Rightarrow> nat \<Rightarrow> 'a amachine_scheme \<Rightarrow> nat \<times> 'a amachine_scheme" where
  "voice_batch i k remain s =
     (let v = voice i s; batch = batch_length v (int remain); (cl, cr) = voice_volumes v (adsr_vol v);
          s1 = upd_spu (mix_run i cl cr k (nat batch)) s; v1 = voice i s1
      in (nat batch, set_voice i (cross_block (v1\<lparr>adsr_counter := adsr_counter v1 + batch_rate v * batch\<rparr>)) s1))"

definition voice_tick :: "nat \<Rightarrow> 'a amachine_scheme \<Rightarrow> 'a amachine_scheme" where
  "voice_tick i s =
     (let v = adsr_tick (voice i s)
      in set_voice i (if adsr_phase v = ADSR_OFF then v\<lparr>active := False\<rparr> else v) s)"

definition voice_single :: "nat \<Rightarrow> nat \<Rightarrow> 'a amachine_scheme \<Rightarrow> 'a amachine_scheme" where
  "voice_single i k s =
     (let v = voice i s; (cl, cr) = voice_volumes v (adsr_vol v); s1 = upd_spu (mix_sample i cl cr k) s
      in set_voice i (cross_block (voice i s1)) s1)"

text \<open>A voice over the \<open>remain\<close> samples from position \<open>k\<close> of the buffers.\<close>

function voice_loop :: "nat \<Rightarrow> nat \<Rightarrow> nat \<Rightarrow> 'a amachine_scheme \<Rightarrow> 'a amachine_scheme" where
  "voice_loop i k remain s =
     (if remain = 0 \<or> \<not> active (voice i s) then s
      else let s1 = spu_load_block i s
      in if \<not> active (voice i s1) then s1
      else let (n, s2) = voice_batch i k remain s1
      in if remain \<le> n then s2
      else let s3 = spu_load_block i s2
      in if \<not> active (voice i s3) then s3
      else let s4 = voice_tick i s3
      in if adsr_phase (voice i s4) = ADSR_OFF then s4
      else voice_loop i (k + n + 1) (remain - n - 1) (voice_single i (k + n) s4))"
  by auto

termination
  by (relation "measure (\<lambda>(i, k, remain, s). remain)") auto

declare voice_loop.simps [simp del]

definition mix_voice :: "nat \<Rightarrow> nat \<Rightarrow> nat \<Rightarrow> 'a amachine_scheme \<Rightarrow> 'a amachine_scheme" where
  "mix_voice k n i s =
     (let v = voice i s
      in if \<not> active v then s
         else if get_effective_volume (vol_l v) = 0 \<and> get_effective_volume (vol_r v) = 0 then s
         else voice_loop i k n s)"

definition SPU_GenerateChunk :: "int \<Rightarrow> 'a amachine_scheme \<Rightarrow> 'a amachine_scheme" where
  "SPU_GenerateChunk num_samples s =
     (if \<not> spu_initialized (spu s) \<or> num_samples \<le> 0 then s
      else let offset = spu_samples_generated (spu s);
               n = (if offset + num_samples > SAMPLES_PER_FRAME then SAMPLES_PER_FRAME - offset else num_samples)
           in if n \<le> 0 then s
              else let clear = (\<lambda>b k. if nat offset \<le> k \<and> k < nat offset + nat n then 0 else b k);
                       s1 = upd_spu (\<lambda>a. a\<lparr>mix_buf_l := clear (mix_buf_l a), mix_buf_r := clear (mix_buf_r a)\<rparr>) s;
                       s2 = fold (mix_voice (nat offset) (nat n)) [0..<SPU_NUM_VOICES] s1
                   in upd_spu (\<lambda>a. a\<lparr>spu_samples_generated := spu_samples_generated a + n\<rparr>) s2)"

definition mix_and_clamp :: "int \<Rightarrow> int \<Rightarrow> int" where
  "mix_and_clamp m vol =
     (let s = to_s32 (m * vol) div 2 ^ 15 in if s > 32767 then 32767 else if s < - 32768 then - 32768 else s)"

definition SPU_Mix_And_Clamp :: "(nat \<Rightarrow> int) \<Rightarrow> (nat \<Rightarrow> int) \<Rightarrow> nat \<Rightarrow> int \<Rightarrow> int \<Rightarrow> (int \<times> int) list" where
  "SPU_Mix_And_Clamp ml mr n main_l main_r = map (\<lambda>k. (mix_and_clamp (ml k) main_l, mix_and_clamp (mr k) main_r)) [0..<n]"

definition SPU_FlushAudio :: "spu_state \<Rightarrow> spu_state" where
  "SPU_FlushAudio a =
     (if \<not> spu_initialized a then a
      else if spu_samples_generated a \<le> 0 then a\<lparr>spu_samples_generated := 0\<rparr>
      else a\<lparr>audio_played := audio_played a @ SPU_Mix_And_Clamp (mix_buf_l a) (mix_buf_r a) (nat (spu_samples_generated a))
                (get_effective_volume (main_vol_l a)) (get_effective_volume (main_vol_r a)),
             spu_samples_generated := 0\<rparr>)"

text \<open>\<^verbatim>\<open>(int)((now - spu_frame_start_cycle) / CYCLES_PER_SAMPLE)\<close>.\<close>

definition spu_target :: "u64 \<Rightarrow> u64 \<Rightarrow> int" where
  "spu_target now start = sint (ucast ((now - start) div CYCLES_PER_SAMPLE) :: u32)"

definition SPU_CatchUp :: "'a amachine_scheme \<Rightarrow> 'a amachine_scheme" where
  "SPU_CatchUp s =
     (if prof_disable_spu (spu s) \<or> \<not> spu_initialized (spu s) then s
      else let now = global_cycles s + ucast (partial_block_cycles s)
      in if now \<le> spu_frame_start_cycle (spu s) then s
      else let target = spu_target now (spu_frame_start_cycle (spu s));
               (target, s) = (if target > SAMPLES_PER_FRAME \<and> spu_samples_generated (spu s) \<ge> SAMPLES_PER_FRAME
                 then let s1 = upd_spu (\<lambda>a. (SPU_FlushAudio a)\<lparr>spu_frame_start_cycle := spu_frame_start_cycle a + 735 * CYCLES_PER_SAMPLE\<rparr>) s
                      in (spu_target now (spu_frame_start_cycle (spu s1)), s1)
                 else (target, s));
               target = min target SAMPLES_PER_FRAME;
               pending = target - spu_samples_generated (spu s)
      in if pending > 0 then SPU_GenerateChunk pending (upd_spu flush_pending_kon s) else s)"

definition SPU_FrameStart :: "'a amachine_scheme \<Rightarrow> 'a amachine_scheme" where
  "SPU_FrameStart s = upd_spu (\<lambda>a. a\<lparr>spu_frame_start_cycle := global_cycles s\<rparr>) s"

definition SPU_GenerateSamples :: "'a amachine_scheme \<Rightarrow> 'a amachine_scheme" where
  "SPU_GenerateSamples s =
     (if prof_disable_spu (spu s) then upd_spu (\<lambda>a. a\<lparr>spu_samples_generated := 0\<rparr>) s
      else let s1 = upd_spu flush_pending_kon s; remaining = SAMPLES_PER_FRAME - spu_samples_generated (spu s1)
           in upd_spu SPU_FlushAudio (if remaining > 0 then SPU_GenerateChunk remaining s1 else s1))"

section \<open>Registers\<close>

definition voice_write :: "u32 \<Rightarrow> u16 \<Rightarrow> SPU_Voice \<Rightarrow> SPU_Voice" where
  "voice_write reg value v =
     (let reload = (\<lambda>v. if active v then adsr_reload_params v else v)
      in if reg = 0 then v\<lparr>vol_l := value\<rparr> else if reg = 1 then v\<lparr>vol_r := value\<rparr>
         else if reg = 2 then v\<lparr>pitch := value\<rparr> else if reg = 3 then v\<lparr>start_addr := value\<rparr>
         else if reg = 4 then reload (v\<lparr>adsr_lo := value\<rparr>) else if reg = 5 then reload (v\<lparr>adsr_hi := value\<rparr>)
         else if reg = 6 then v\<lparr>adsr_level := value\<rparr> else v\<lparr>repeat_addr := value, ignore_loop := True\<rparr>)"

definition voice_read :: "u32 \<Rightarrow> SPU_Voice \<Rightarrow> u16" where
  "voice_read reg v =
     (if reg = 0 then vol_l v else if reg = 1 then vol_r v else if reg = 2 then pitch v else if reg = 3 then start_addr v
      else if reg = 4 then adsr_lo v else if reg = 5 then adsr_hi v else if reg = 6 then adsr_level v else repeat_addr v)"

text \<open>Store a halfword at the transfer pointer, through the address check, and move the pointer on.\<close>

definition transfer_advance :: "'a amachine_scheme \<Rightarrow> 'a amachine_scheme" where
  "transfer_advance s =
     upd_spu (\<lambda>a. a\<lparr>transfer_ptr := (transfer_ptr a + 2) AND (SPU_RAM_SIZE - 1)\<rparr>)
       (spu_irq_check (transfer_ptr (spu s) AND NOT 0xF) s)"

definition spu_write_fifo :: "u16 \<Rightarrow> 'a amachine_scheme \<Rightarrow> 'a amachine_scheme" where
  "spu_write_fifo value s =
     (let s1 = upd_spu (\<lambda>a. a\<lparr>data_fifo := value\<rparr>) s
      in if transfer_ptr (spu s1) < SPU_RAM_SIZE - 1
         then transfer_advance (upd_spu (\<lambda>a. a\<lparr>spu_ram := store16 (spu_ram a) (transfer_ptr a) value\<rparr>) s1)
         else s1)"

definition spu_write_kon :: "u32 \<Rightarrow> 'a amachine_scheme \<Rightarrow> 'a amachine_scheme" where
  "spu_write_kon kon s = upd_spu (\<lambda>a. a\<lparr>pending_kon := pending_kon a OR kon\<rparr>) (SPU_CatchUp s)"

definition spu_write_koff :: "u32 \<Rightarrow> 'a amachine_scheme \<Rightarrow> 'a amachine_scheme" where
  "spu_write_koff bits s =
     upd_spu (\<lambda>a. let koff = bits AND NOT (pending_kon a); a1 = a\<lparr>pending_kon := pending_kon a AND NOT bits\<rparr>
        in if koff \<noteq> 0 then process_key_off koff a1 else a1) (SPU_CatchUp s)"

definition spu_write_cnt :: "u16 \<Rightarrow> spu_state \<Rightarrow> spu_state" where
  "spu_write_cnt value a =
     (let a1 = a\<lparr>spu_cnt := value, spu_stat := (spu_stat a AND 0x0040) OR (value AND 0x3F), spu_irq_enabled := bit value 6\<rparr>
      in if \<not> spu_irq_enabled a1 then a1\<lparr>spu_stat := spu_stat a1 AND NOT 0x0040, spu_irq_fired := False\<rparr> else a1)"

definition SPU_WriteReg :: "u32 \<Rightarrow> u16 \<Rightarrow> 'a amachine_scheme \<Rightarrow> 'a amachine_scheme" where
  "SPU_WriteReg offset value s =
     (if offset < 0xC0
      then let i = unat (drop_bit 3 offset)
           in if i < SPU_NUM_VOICES then set_voice i (voice_write (offset AND 7) value (voice i s)) s else s
      else if offset = 0xC0 then upd_spu (\<lambda>a. a\<lparr>main_vol_l := value\<rparr>) s
      else if offset = 0xC1 then upd_spu (\<lambda>a. a\<lparr>main_vol_r := value\<rparr>) s
      else if offset = 0xC4
      then let s1 = upd_spu (\<lambda>a. a\<lparr>key_on_lo := value\<rparr>) s in if value \<noteq> 0 then spu_write_kon (ucast value) s1 else s1
      else if offset = 0xC5
      then let s1 = upd_spu (\<lambda>a. a\<lparr>key_on_hi := value\<rparr>) s
           in if value \<noteq> 0 then spu_write_kon (push_bit 16 (ucast value AND 0xFF)) s1 else s1
      else if offset = 0xC6 then (if value \<noteq> 0 then spu_write_koff (ucast value) s else s)
      else if offset = 0xC7 then (if value \<noteq> 0 then spu_write_koff (push_bit 16 (ucast value)) s else s)
      else if offset = 0xCE \<or> offset = 0xCF then upd_spu (\<lambda>a. a\<lparr>endx := 0\<rparr>) (SPU_CatchUp s)
      else if offset = 0xD2
      then upd_spu (\<lambda>a. a\<lparr>spu_reg_store := (spu_reg_store a)(0xD2 := value), spu_irq_addr := push_bit 3 (ucast value)\<rparr>) s
      else if offset = 0xD3 then upd_spu (\<lambda>a. a\<lparr>transfer_addr := value, transfer_ptr := push_bit 3 (ucast value)\<rparr>) s
      else if offset = 0xD4 then spu_write_fifo value s
      else if offset = 0xD5 then upd_spu (spu_write_cnt value) s
      else if offset = 0xD7 then s
      else if offset < 256 then upd_spu (\<lambda>a. a\<lparr>spu_reg_store := (spu_reg_store a)(offset := value)\<rparr>) s
      else s)"

definition SPU_ReadReg :: "u32 \<Rightarrow> 'a amachine_scheme \<Rightarrow> u16 \<times> 'a amachine_scheme" where
  "SPU_ReadReg offset s =
     (if offset < 0xC0
      then let i = unat (drop_bit 3 offset); reg = offset AND 7
           in if i < SPU_NUM_VOICES
              then let s1 = (if reg = 6 then SPU_CatchUp s else s) in (voice_read reg (voice i s1), s1)
              else (0, s)
      else if offset = 0xC0 then (main_vol_l (spu s), s)
      else if offset = 0xC1 then (main_vol_r (spu s), s)
      else if offset = 0xC4 then (key_on_lo (spu s), s)
      else if offset = 0xC5 then (key_on_hi (spu s), s)
      else if offset = 0xCE then let s1 = SPU_CatchUp s in (ucast (endx (spu s1)), s1)
      else if offset = 0xCF then let s1 = SPU_CatchUp s in (ucast (drop_bit 16 (endx (spu s1))), s1)
      else if offset = 0xD3 then (transfer_addr (spu s), s)
      else if offset = 0xD5 then (spu_cnt (spu s), s)
      else if offset = 0xD7 then (spu_stat (spu s), s)
      else if offset < 256 then (spu_reg_store (spu s) offset, s)
      else (0, s))"

section \<open>The transfer channel\<close>

definition spu_dma_to_spu :: "u32 \<Rightarrow> nat \<Rightarrow> 'a amachine_scheme \<Rightarrow> 'a amachine_scheme" where
  "spu_dma_to_spu src k s =
     (let a = src + 2 * of_nat k
      in if a + 1 < PSX_RAM_SIZE \<and> transfer_ptr (spu s) < SPU_RAM_SIZE - 1
         then transfer_advance (upd_spu (\<lambda>u. u\<lparr>spu_ram := (spu_ram u)(transfer_ptr u := psx_ram s a,
                transfer_ptr u + 1 := psx_ram s (a + 1))\<rparr>) s)
         else s)"

definition spu_dma_to_ram :: "u32 \<Rightarrow> nat \<Rightarrow> 'a amachine_scheme \<Rightarrow> 'a amachine_scheme" where
  "spu_dma_to_ram src k s =
     (let a = src + 2 * of_nat k; ptr = transfer_ptr (spu s)
      in if a + 1 < PSX_RAM_SIZE \<and> ptr < SPU_RAM_SIZE - 1
         then transfer_advance (s\<lparr>psx_ram := (psx_ram s)(a := spu_ram (spu s) ptr, a + 1 := spu_ram (spu s) (ptr + 1))\<rparr>)
         else s)"

definition SPU_DMA4 :: "u32 \<Rightarrow> u32 \<Rightarrow> u32 \<Rightarrow> 'a amachine_scheme \<Rightarrow> 'a amachine_scheme" where
  "SPU_DMA4 ma bc cc s =
     (let s1 = SPU_CatchUp s; size = bc AND 0xFFFF; blocks = drop_bit 16 bc AND 0xFFFF;
          total_words = (if size = 0 then 1 else size) * (if blocks = 0 then 1 else blocks);
          total_bytes = total_words * 4; src = ma AND 0x1FFFFC; n = unat total_bytes div 2
      in if cc AND 1 \<noteq> 0 then fold (spu_dma_to_spu src) [0..<n] s1 else fold (spu_dma_to_ram src) [0..<n] s1)"

section \<open>Start\<close>

definition voice_zero :: SPU_Voice where
  "voice_zero = \<lparr>vol_l = 0, vol_r = 0, pitch = 0, start_addr = 0, adsr_lo = 0, adsr_hi = 0, adsr_level = 0,
     repeat_addr = 0, active = False, current_addr = 0, sample_pos = 0, prev_1 = 0, prev_2 = 0,
     decoded = replicate 28 0, block_decoded = False, loop_pending = False, ignore_loop = False, adsr_vol = 0,
     adsr_phase = ADSR_ATTACK, adsr_counter = 0, adsr_ci = 0, adsr_step = 0, adsr_exp = False, adsr_inc = False, adsr_sl = 0\<rparr>"

text \<open>The results of initialising and configuring the host's audio output are parameters.\<close>

definition SPU_Init :: "int \<Rightarrow> int \<Rightarrow> 'a amachine_scheme \<Rightarrow> 'a amachine_scheme" where
  "SPU_Init audio_ret configure_ret = upd_spu (\<lambda>a.
     let a1 = a\<lparr>spu_ram := (\<lambda>_. 0), voices := (\<lambda>_. voice_zero), spu_reg_store := (\<lambda>_. 0), main_vol_l := 0, main_vol_r := 0,
           key_on_lo := 0, key_on_hi := 0, pending_kon := 0, endx := 0, spu_cnt := 0, spu_stat := 0, transfer_addr := 0,
           transfer_ptr := 0, spu_irq_addr := 0, spu_irq_enabled := False, spu_irq_fired := False\<rparr>
     in if audio_ret < 0 \<or> configure_ret \<noteq> 0 then a1 else a1\<lparr>spu_initialized := True\<rparr>)"

definition SPU_Shutdown :: "'a amachine_scheme \<Rightarrow> 'a amachine_scheme" where
  "SPU_Shutdown = upd_spu (\<lambda>a. if spu_initialized a then a\<lparr>spu_initialized := False\<rparr> else a)"

text \<open>The devices of the bus with the sound processor in place.\<close>

definition with_spu :: "'a amachine_scheme devices \<Rightarrow> 'a amachine_scheme devices" where
  "with_spu d = d\<lparr>SPU_DMA4 := SPU_DMA4, SPU_ReadReg := SPU_ReadReg, SPU_WriteReg := SPU_WriteReg\<rparr>"

end
