(* ===== verification/Spu_Laws.thy ===== *)
theory Spu_Laws
  imports Spu
begin

text \<open>
  The laws of the sound processor: the envelope stays in range and a released voice falls silent, a block decodes to the
  samples of its filter, mixing in batches equals mixing sample by sample, the transfer channel moves data in and out
  unchanged, key on and key off order, the invariant of the registers and voices, and the contract of the bus that the
  register and transfer handlers keep.
\<close>

section \<open>Envelope\<close>

definition adsr_ok :: "SPU_Voice \<Rightarrow> bool" where
  "adsr_ok v \<longleftrightarrow> 0 \<le> adsr_vol v \<and> adsr_vol v \<le> 0x8000 \<and> 0 \<le> adsr_counter v \<and> adsr_counter v < 0x8000 \<and>
     0 \<le> adsr_ci v \<and> adsr_ci v \<le> 0x8000 \<and> 0 \<le> adsr_sl v \<and> adsr_sl v \<le> 0x8000 \<and>
     (if adsr_inc v then 0 \<le> adsr_step v \<and> adsr_step v \<le> 0x3800 else - 0x4000 \<le> adsr_step v \<and> adsr_step v \<le> 0) \<and>
     (active v \<longrightarrow> adsr_phase v \<noteq> ADSR_OFF \<and> (adsr_phase v = ADSR_ATTACK \<longrightarrow> adsr_inc v) \<and> (adsr_phase v \<in> {ADSR_DECAY, ADSR_RELEASE} \<longrightarrow> \<not> adsr_inc v))"

lemma uint_and_bounds: "0 \<le> uint (w AND m)" "uint (w AND m) \<le> uint (m :: u16)"
  by (simp_all add: uint_and AND_upper2)

lemma reload_fields [simp]:
  "vol_l (adsr_reload_params v) = vol_l v" "vol_r (adsr_reload_params v) = vol_r v" "pitch (adsr_reload_params v) = pitch v"
  "active (adsr_reload_params v) = active v" "current_addr (adsr_reload_params v) = current_addr v"
  "sample_pos (adsr_reload_params v) = sample_pos v" "prev_1 (adsr_reload_params v) = prev_1 v"
  "prev_2 (adsr_reload_params v) = prev_2 v" "decoded (adsr_reload_params v) = decoded v"
  "block_decoded (adsr_reload_params v) = block_decoded v" "loop_pending (adsr_reload_params v) = loop_pending v"
  "adsr_vol (adsr_reload_params v) = adsr_vol v" "adsr_phase (adsr_reload_params v) = adsr_phase v"
  "adsr_counter (adsr_reload_params v) = adsr_counter v" "repeat_addr (adsr_reload_params v) = repeat_addr v"
  "adsr_lo (adsr_reload_params v) = adsr_lo v" "adsr_hi (adsr_reload_params v) = adsr_hi v"
  "adsr_level (adsr_reload_params v) = adsr_level v" "start_addr (adsr_reload_params v) = start_addr v"
  "ignore_loop (adsr_reload_params v) = ignore_loop v"
  by (simp_all add: adsr_reload_params_def Let_def split: option.splits prod.splits)

lemma reload_sl: "adsr_sl (adsr_reload_params v) = (uint (adsr_lo v AND 0x0F) + 1) * 2048"
  by (simp add: adsr_reload_params_def Let_def split: option.splits prod.splits)

lemma params_bounds:
  assumes "adsr_params v = Some (shift, idx, e, d)"
  shows "0 \<le> idx" "idx \<le> 3" "shift \<le> 31" "adsr_phase v = ADSR_ATTACK \<Longrightarrow> \<not> d"
    "adsr_phase v \<in> {ADSR_DECAY, ADSR_RELEASE} \<Longrightarrow> d" "adsr_phase v \<noteq> ADSR_OFF"
proof -
  have u: "0 \<le> uint (w AND 3)" "uint (w AND 3) \<le> 3" "unat (w AND 0x1F) \<le> 31" "unat (w AND 0x0F) \<le> 31" for w :: u16
    using uint_and_bounds [of w 3] word_and_le1 [of w "0x1F"] word_and_le1 [of w "0x0F"]
    by (simp_all add: word_le_nat_alt)
  show "0 \<le> idx" "idx \<le> 3" "shift \<le> 31" "adsr_phase v = ADSR_ATTACK \<Longrightarrow> \<not> d"
    "adsr_phase v \<in> {ADSR_DECAY, ADSR_RELEASE} \<Longrightarrow> d" "adsr_phase v \<noteq> ADSR_OFF"
    using assms u by (auto simp: adsr_params_def Let_def split: AdsrPhase.splits)
qed

lemma pow2_div_le: "(0x8000 :: int) div 2 ^ n \<le> 0x8000"
  using div_le_dividend [of "0x8000" "2 ^ n"] by (simp add: zdiv_mono2 [of "0x8000" 1, simplified])

lemma scaled_step:
  fixes r :: int
  assumes "0 \<le> r" "shift < 11"
  shows "0 \<le> r * 2 ^ (11 - shift)" "r * 2 ^ (11 - shift) \<le> r * 2048"
proof -
  have "(2 :: int) ^ (11 - shift) \<le> 2 ^ 11" by (rule power_increasing) simp_all
  then show "0 \<le> r * 2 ^ (11 - shift)" "r * 2 ^ (11 - shift) \<le> r * 2048" using assms by (simp_all add: mult_left_mono)
qed

lemma reload_rates:
  "0 \<le> adsr_ci (adsr_reload_params v)" "adsr_ci (adsr_reload_params v) \<le> 0x8000"
  "if adsr_inc (adsr_reload_params v) then 0 \<le> adsr_step (adsr_reload_params v) \<and> adsr_step (adsr_reload_params v) \<le> 0x3800
   else - 0x4000 \<le> adsr_step (adsr_reload_params v) \<and> adsr_step (adsr_reload_params v) \<le> 0"
proof -
  have "0 \<le> adsr_ci (adsr_reload_params v) \<and> adsr_ci (adsr_reload_params v) \<le> 0x8000 \<and>
    (if adsr_inc (adsr_reload_params v) then 0 \<le> adsr_step (adsr_reload_params v) \<and> adsr_step (adsr_reload_params v) \<le> 0x3800
     else - 0x4000 \<le> adsr_step (adsr_reload_params v) \<and> adsr_step (adsr_reload_params v) \<le> 0)"
  proof (cases "adsr_params v")
    case None
    then show ?thesis by (simp add: adsr_reload_params_def Let_def)
  next
    case (Some q)
    obtain shift idx e d where q: "q = (shift, idx, e, d)" by (cases q)
    note b = params_bounds(1-3) [OF Some [unfolded q]]
    show ?thesis
      using b pow2_div_le [of "shift - 11"] scaled_step [of "8 - idx" shift] scaled_step [of "7 - idx" shift]
        pos_imp_zdiv_nonneg_iff [of "2 ^ (shift - 11)" "0x8000"]
      by (auto simp: adsr_reload_params_def Let_def Some q)
  qed
  then show "0 \<le> adsr_ci (adsr_reload_params v)" "adsr_ci (adsr_reload_params v) \<le> 0x8000"
    "if adsr_inc (adsr_reload_params v) then 0 \<le> adsr_step (adsr_reload_params v) \<and> adsr_step (adsr_reload_params v) \<le> 0x3800
     else - 0x4000 \<le> adsr_step (adsr_reload_params v) \<and> adsr_step (adsr_reload_params v) \<le> 0" by simp_all
qed

lemma reload_direction:
  "adsr_phase v = ADSR_ATTACK \<Longrightarrow> adsr_inc (adsr_reload_params v)"
  "adsr_phase v \<in> {ADSR_DECAY, ADSR_RELEASE, ADSR_OFF} \<Longrightarrow> \<not> adsr_inc (adsr_reload_params v)"
  by (auto simp: adsr_reload_params_def adsr_params_def Let_def)

lemma reload_ok:
  assumes "0 \<le> adsr_vol v" "adsr_vol v \<le> 0x8000" "0 \<le> adsr_counter v" "adsr_counter v < 0x8000"
    and "active v \<Longrightarrow> adsr_phase v \<noteq> ADSR_OFF"
  shows "adsr_ok (adsr_reload_params v)"
  using assms reload_rates [of v] reload_direction [of v] uint_and_bounds [of "adsr_lo v" "0x0F"]
  by (simp add: adsr_ok_def reload_sl)

lemma exp_step:
  fixes step vol :: int
  assumes "step \<le> 0" "- 0x4000 \<le> step" "0 \<le> vol" "vol \<le> 0x8000"
  shows "- 0x4000 \<le> step * vol div 2 ^ 15" "step * vol div 2 ^ 15 \<le> 0" "step < 0 \<Longrightarrow> 0 < vol \<Longrightarrow> step * vol div 2 ^ 15 \<le> - 1"
proof -
  have "step * 0x8000 \<le> step * vol" using assms by (intro mult_left_mono_neg) auto
  moreover have "step * vol \<le> 0" using assms by (simp add: mult_nonpos_nonneg)
  ultimately show "- 0x4000 \<le> step * vol div 2 ^ 15" "step * vol div 2 ^ 15 \<le> 0" using assms(2) by auto
  show "step * vol div 2 ^ 15 \<le> - 1" if "step < 0" "0 < vol"
  proof -
    have "step * vol < 0" using that by (simp add: mult_neg_pos)
    then show ?thesis by simp
  qed
qed

text \<open>The step that an overflow applies.\<close>

definition envelope_step :: "SPU_Voice \<Rightarrow> int" where
  "envelope_step v = (if adsr_exp v \<and> \<not> adsr_inc v then adsr_step v * adsr_vol v div 2 ^ 15 else adsr_step v)"

lemma envelope_step_bounds:
  assumes "adsr_ok v"
  shows "adsr_inc v \<Longrightarrow> 0 \<le> envelope_step v \<and> envelope_step v \<le> 0x3800"
    "\<not> adsr_inc v \<Longrightarrow> - 0x4000 \<le> envelope_step v \<and> envelope_step v \<le> 0"
  using assms exp_step [of "adsr_step v" "adsr_vol v"] by (auto simp: adsr_ok_def envelope_step_def)

lemma adsr_apply_step:
  "adsr_apply v =
     (let vol = adsr_vol v + envelope_step v;
          (vol', v') = (case adsr_phase v of
             ADSR_ATTACK \<Rightarrow> if vol \<ge> 0x7FFF \<or> vol < 0
                then (0x7FFF, adsr_reload_params (v\<lparr>adsr_phase := ADSR_DECAY, adsr_counter := 0\<rparr>)) else (vol, v)
           | ADSR_DECAY \<Rightarrow> if max vol 0 \<le> adsr_sl v
                then (adsr_sl v, adsr_reload_params (v\<lparr>adsr_phase := ADSR_SUSTAIN, adsr_counter := 0\<rparr>)) else (max vol 0, v)
           | ADSR_SUSTAIN \<Rightarrow> (if adsr_inc v then min vol 0x7FFF else max vol 0, v)
           | ADSR_RELEASE \<Rightarrow> if max vol 0 = 0 then (0, v\<lparr>adsr_phase := ADSR_OFF, active := False\<rparr>) else (max vol 0, v)
           | ADSR_OFF \<Rightarrow> (vol, v))
      in v'\<lparr>adsr_vol := vol', adsr_level := word_of_int vol' AND 0x7FFF\<rparr>)"
  by (simp only: adsr_apply_def envelope_step_def Let_def)

lemma adsr_apply_ok:
  assumes "adsr_ok v" "active v"
  shows "adsr_ok (adsr_apply v)"
proof -
  define e where "e = envelope_step v"
  have b: "adsr_inc v \<Longrightarrow> 0 \<le> e" "\<not> adsr_inc v \<Longrightarrow> e \<le> 0"
    using envelope_step_bounds [OF assms(1)] by (auto simp: e_def)
  have v: "0 \<le> adsr_vol v" "adsr_vol v \<le> 0x8000" "0 \<le> adsr_counter v" "adsr_counter v < 0x8000" "0 \<le> adsr_sl v"
    "adsr_sl v \<le> 0x8000" "adsr_phase v \<noteq> ADSR_OFF"
    using assms by (auto simp: adsr_ok_def)
  have keep: "adsr_ok (w\<lparr>adsr_vol := x, adsr_level := y\<rparr>)" if "adsr_ok w" "0 \<le> x" "x \<le> 0x8000" for w x y
    using that by (simp add: adsr_ok_def)
  have phases: "adsr_ok (adsr_reload_params (v\<lparr>adsr_phase := ph, adsr_counter := 0\<rparr>))" if "ph \<noteq> ADSR_OFF" for ph
    by (rule reload_ok) (use v that in auto)
  have off: "adsr_ok (v\<lparr>adsr_phase := ADSR_OFF, active := False\<rparr>)" using assms(1) by (simp add: adsr_ok_def)
  have inc: "adsr_phase v = ADSR_ATTACK \<Longrightarrow> adsr_inc v" "adsr_phase v \<in> {ADSR_DECAY, ADSR_RELEASE} \<Longrightarrow> \<not> adsr_inc v"
    using assms by (auto simp: adsr_ok_def)
  show ?thesis
    unfolding adsr_apply_step e_def [symmetric]
    using v b inc assms(1) keep [OF phases, of ADSR_DECAY] keep [OF phases, of ADSR_SUSTAIN] keep [OF off] keep [OF assms(1)]
    by (cases "adsr_phase v"; cases "adsr_inc v") (simp_all add: Let_def)
qed

lemma adsr_rate_bounds: "adsr_ok v \<Longrightarrow> 0 \<le> adsr_rate v \<and> adsr_rate v \<le> 0x8000"
  by (auto simp: adsr_ok_def adsr_rate_def)

lemma adsr_tick_ok:
  assumes "adsr_ok v" "active v"
  shows "adsr_ok (adsr_tick v)"
proof -
  have c: "adsr_ok (v\<lparr>adsr_counter := c\<rparr>)" if "0 \<le> c" "c < 0x8000" for c
    using assms(1) that by (simp add: adsr_ok_def)
  have "0 \<le> adsr_counter v + adsr_rate v"
    using assms(1) adsr_rate_bounds [OF assms(1)] by (simp add: adsr_ok_def)
  then show ?thesis
    using c assms(2) adsr_apply_ok [OF c] unfolding adsr_tick_def Let_def by simp
qed

lemma adsr_frame [simp]:
  "decoded (adsr_apply v) = decoded v" "prev_1 (adsr_apply v) = prev_1 v" "prev_2 (adsr_apply v) = prev_2 v"
  "sample_pos (adsr_apply v) = sample_pos v" "current_addr (adsr_apply v) = current_addr v" "pitch (adsr_apply v) = pitch v"
  "vol_l (adsr_apply v) = vol_l v" "vol_r (adsr_apply v) = vol_r v" "block_decoded (adsr_apply v) = block_decoded v"
  by (cases "adsr_phase v"; simp add: adsr_apply_def Let_def)+

lemma adsr_tick_frame [simp]:
  "decoded (adsr_tick v) = decoded v" "prev_1 (adsr_tick v) = prev_1 v" "prev_2 (adsr_tick v) = prev_2 v"
  "sample_pos (adsr_tick v) = sample_pos v" "current_addr (adsr_tick v) = current_addr v" "pitch (adsr_tick v) = pitch v"
  "vol_l (adsr_tick v) = vol_l v" "vol_r (adsr_tick v) = vol_r v" "block_decoded (adsr_tick v) = block_decoded v"
  by (simp_all add: adsr_tick_def Let_def)

section \<open>Decoding\<close>

lemma concat_pairs_length: "length (concat (map (\<lambda>i. [f i, g i]) [0..<k])) = 2 * k"
  by (induction k) simp_all

lemma concat_pairs_nth:
  "n < 2 * k \<Longrightarrow> concat (map (\<lambda>i. [f i, g i]) [0..<k]) ! n = (if even n then f (n div 2) else g (n div 2))"
proof (induction k)
  case (Suc k)
  consider "n < 2 * k" | "n = 2 * k" | "n = 2 * k + 1" using Suc.prems by fastforce
  then show ?case
    by cases (use Suc.IH in \<open>auto simp: nth_append concat_pairs_length\<close>)
qed simp

text \<open>The signed nibble of sample \<open>n\<close> of a block, and what it contributes before filtering.\<close>

definition adpcm_nibble :: "bytes \<Rightarrow> u32 \<Rightarrow> nat \<Rightarrow> int" where
  "adpcm_nibble ram a n =
     (let byte = ram (a + 2 + of_nat (n div 2)); x = uint (if even n then byte AND 0x0F else drop_bit 4 byte)
      in if x < 8 then x else x - 16)"

definition adpcm_residual :: "bytes \<Rightarrow> u32 \<Rightarrow> nat \<Rightarrow> int" where
  "adpcm_residual ram a n = adpcm_nibble ram a n * 2 ^ 12 div 2 ^ unat (ram a AND 0x0F)"

lemma nibble_cases: "(\<And>n. n < 16 \<Longrightarrow> P (of_nat n :: u8)) \<Longrightarrow> P (w AND 0x0F)"
proof -
  assume P: "\<And>n. n < 16 \<Longrightarrow> P (of_nat n :: u8)"
  have "unat (w AND 0x0F) < 16" using word_and_le1 [of w "0x0F"] by (simp add: word_le_nat_alt)
  from P [OF this] show ?thesis by simp
qed

lemma all_less_16: "(\<forall>n<16. P (n :: nat)) = (P 0 \<and> P 1 \<and> P 2 \<and> P 3 \<and> P 4 \<and> P 5 \<and> P 6 \<and> P 7 \<and> P 8 \<and> P 9 \<and> P 10 \<and>
    P 11 \<and> P 12 \<and> P 13 \<and> P 14 \<and> P 15)"
  by (simp add: numeral_eq_Suc All_less_Suc conj_ac)

lemma low_nibble: "sint (push_bit 4 (w AND 0x0F)) div 2 ^ 4 = (let x = uint (w AND 0x0F) in if x < 8 then x else x - 16)"
  for w :: u8
proof -
  have "\<forall>n<16. sint (push_bit 4 (of_nat n :: u8)) div 2 ^ 4 = (let x = uint (of_nat n :: u8) in if x < 8 then x else x - 16)"
    unfolding all_less_16 by simp
  then show ?thesis by (intro nibble_cases [where P = "\<lambda>u. sint (push_bit 4 u) div 2 ^ 4 = (let x = uint u in if x < 8 then x else x - 16)"]) blast
qed

lemma high_nibble: "sint (w AND 0xF0) div 2 ^ 4 = (let x = uint (drop_bit 4 w) in if x < 8 then x else x - 16)"
  for w :: u8
proof -
  have "w AND 0xF0 = push_bit 4 (drop_bit 4 w AND 0x0F)" "drop_bit 4 w AND 0x0F = drop_bit 4 w"
    by (simp_all add: u8_eq_bits bit_simps)
  then show ?thesis using low_nibble [of "drop_bit 4 w"] by simp
qed

lemma to_s16_id: "- 32768 \<le> x \<Longrightarrow> x \<le> 32767 \<Longrightarrow> to_s16 x = x"
  by (simp add: to_s16_def signed_of_int signed_take_bit_int_eq_self)

lemma to_s16_range: "- 32768 \<le> to_s16 x" "to_s16 x \<le> 32767"
  using sint_range_size [of "word_of_int x :: u16"] by (simp_all add: to_s16_def word_size)

lemma nibble_range: "- 8 \<le> adpcm_nibble ram a n" "adpcm_nibble ram a n \<le> 7"
proof -
  define w where "w = ram (a + 2 + of_nat (n div 2))"
  have "uint (w AND 0x0F) \<le> 15" "uint (drop_bit 4 w) \<le> 15" "0 \<le> uint (w AND 0x0F)" "0 \<le> uint (drop_bit 4 w)"
    using word_and_le1 [of w "0x0F"] uint_lt2p [of w]
    by (simp_all add: word_le_def drop_bit_eq_div uint_div pos_imp_zdiv_nonneg_iff)
  then show "- 8 \<le> adpcm_nibble ram a n" "adpcm_nibble ram a n \<le> 7"
    unfolding adpcm_nibble_def Let_def w_def [symmetric] by (auto intro: order_trans [of _ 0])
qed

lemma shifted_range:
  fixes x :: int
  assumes "- 8 \<le> x" "x \<le> 7"
  shows "- 32768 \<le> x * 2 ^ 12 div 2 ^ s" "x * 2 ^ 12 div 2 ^ s \<le> 32767"
proof -
  have p: "(1 :: int) \<le> 2 ^ s" by simp
  have "(- 32768) * 2 ^ s \<le> - (32768 :: int)" using p by simp
  moreover have "- 32768 \<le> x * 2 ^ 12" using assms by simp
  ultimately have "- 32768 * 2 ^ s \<le> x * 2 ^ 12" by linarith
  then have "(- 32768) * 2 ^ s div 2 ^ s \<le> x * 2 ^ 12 div 2 ^ s" by (rule zdiv_mono1) simp
  moreover have "(- 32768) * 2 ^ s div 2 ^ s = - (32768 :: int)" by (rule nonzero_mult_div_cancel_right) simp
  ultimately show "- 32768 \<le> x * 2 ^ 12 div 2 ^ s" by linarith
  have "x * 2 ^ 12 \<le> 32767" using assms by simp
  then have "x * 2 ^ 12 div 2 ^ s \<le> 32767 div 2 ^ s" by (simp add: zdiv_mono1)
  also have "32767 div 2 ^ s \<le> (32767 :: int)" using zdiv_mono2 [of 32767 1 "2 ^ s"] p by simp
  finally show "x * 2 ^ 12 div 2 ^ s \<le> 32767" .
qed

lemma residual_range: "- 32768 \<le> adpcm_residual ram a n" "adpcm_residual ram a n \<le> 32767"
  unfolding adpcm_residual_def by (rule shifted_range [OF nibble_range])+

definition adpcm_shifted :: "bytes \<Rightarrow> u32 \<Rightarrow> int list" where
  "adpcm_shifted ram a = concat (map (\<lambda>i. adpcm_nibbles (unat (ram a AND 0x0F)) (ram (a + 2 + of_nat i))) [0..<14])"

lemma adpcm_shifted_length [simp]: "length (adpcm_shifted ram a) = 28"
  unfolding adpcm_shifted_def adpcm_nibbles_def concat_pairs_length by simp

lemma adpcm_shifted_nth: "n < 28 \<Longrightarrow> adpcm_shifted ram a ! n = adpcm_residual ram a n"
proof -
  assume n: "n < 28"
  have low: "to_s16 (sint (push_bit 4 (w AND 0x0F)) div 2 ^ 4 * 2 ^ 12 div 2 ^ s) = sint (push_bit 4 (w AND 0x0F)) div 2 ^ 4 * 2 ^ 12 div 2 ^ s"
    for w :: u8 and s
    unfolding low_nibble using nibble_range [of "\<lambda>_. w" 0 0]
    by (intro to_s16_id shifted_range) (simp_all only: adpcm_nibble_def Let_def even_zero if_True)
  have high: "to_s16 (sint (w AND 0xF0) div 2 ^ 4 * 2 ^ 12 div 2 ^ s) = sint (w AND 0xF0) div 2 ^ 4 * 2 ^ 12 div 2 ^ s"
    for w :: u8 and s
    unfolding high_nibble using nibble_range [of "\<lambda>_. w" 0 1]
    by (intro to_s16_id shifted_range) (simp_all only: adpcm_nibble_def Let_def odd_one if_False)
  show ?thesis
    unfolding adpcm_shifted_def adpcm_nibbles_def adpcm_residual_def low high
    unfolding low_nibble high_nibble
    by (subst concat_pairs_nth) (use n in \<open>auto simp: adpcm_nibble_def Let_def\<close>)
qed

lemma adpcm_samples_spec:
  assumes "adpcm_samples f0 f1 xs s1 s2 = (ys, t1, t2)"
  shows "length ys = length xs \<and> t1 = (s2 # s1 # ys) ! Suc (length xs) \<and> t2 = (s2 # s1 # ys) ! length xs \<and>
    (\<forall>n<length xs. ys ! n = clamp16 (xs ! n + ((s2 # s1 # ys) ! Suc n * f0 + (s2 # s1 # ys) ! n * f1 + 32) div 2 ^ 6))"
  using assms
proof (induction xs arbitrary: s1 s2 ys)
  case (Cons x xs)
  define y where "y = clamp16 (x + (s1 * f0 + s2 * f1 + 32) div 2 ^ 6)"
  obtain zs where zs: "adpcm_samples f0 f1 xs y s1 = (zs, t1, t2)" "ys = y # zs"
    using Cons.prems by (auto simp: y_def Let_def split: prod.splits)
  from Cons.IH [OF zs(1)] show ?case
    unfolding zs(2) by (auto simp: y_def less_Suc_eq_0_disj)
qed simp

text \<open>The weights of the two previous samples.\<close>

definition adpcm_weights :: "bytes \<Rightarrow> u32 \<Rightarrow> int \<times> int" where
  "adpcm_weights ram a = adpcm_filter ! min 4 (unat (drop_bit 4 (ram a) AND 7))"

lemma clamp16_id: "- 32768 \<le> x \<Longrightarrow> x \<le> 32767 \<Longrightarrow> clamp16 x = x"
  by (simp add: clamp16_def)

lemma decode_block_samples_spec:
  "let w = decode_block_samples ram a v; (f0, f1) = adpcm_weights ram a; h = prev_2 v # prev_1 v # decoded w
   in length (decoded w) = 28 \<and> prev_1 w = decoded w ! 27 \<and> prev_2 w = decoded w ! 26 \<and>
     (\<forall>n<28. decoded w ! n = clamp16 (adpcm_residual ram a n + (h ! Suc n * f0 + h ! n * f1 + 32) div 2 ^ 6))"
proof (cases "min 4 (unat (drop_bit 4 (ram a) AND 7)) = 0")
  case True
  then have w: "adpcm_weights ram a = (0, 0)" by (simp add: adpcm_weights_def adpcm_filter_def)
  have "decode_block_samples ram a v = v\<lparr>decoded := adpcm_shifted ram a, prev_1 := adpcm_shifted ram a ! 27,
      prev_2 := adpcm_shifted ram a ! 26, block_decoded := True\<rparr>"
    using True by (simp add: decode_block_samples_def Let_def adpcm_shifted_def)
  then show ?thesis by (simp add: w Let_def adpcm_shifted_nth clamp16_id residual_range)
next
  case False
  obtain f0 f1 where w: "adpcm_weights ram a = (f0, f1)" by (cases "adpcm_weights ram a")
  obtain ys t1 t2 where s: "adpcm_samples f0 f1 (adpcm_shifted ram a) (prev_1 v) (prev_2 v) = (ys, t1, t2)"
    by (cases "adpcm_samples f0 f1 (adpcm_shifted ram a) (prev_1 v) (prev_2 v)")
  have "decode_block_samples ram a v = v\<lparr>decoded := ys, prev_1 := t1, prev_2 := t2, block_decoded := True\<rparr>"
    using False s w by (simp add: decode_block_samples_def Let_def adpcm_shifted_def adpcm_weights_def)
  then have fields: "decoded (decode_block_samples ram a v) = ys" "prev_1 (decode_block_samples ram a v) = t1"
    "prev_2 (decode_block_samples ram a v) = t2" by simp_all
  note sp = adpcm_samples_spec [OF s, unfolded adpcm_shifted_length]
  have t: "t1 = (prev_2 v # prev_1 v # ys) ! Suc 28" "t2 = (prev_2 v # prev_1 v # ys) ! 28" using sp by blast+
  then have t': "t1 = ys ! 27" "t2 = ys ! 26" by simp_all
  have "ys ! n = clamp16 (adpcm_residual ram a n + ((prev_2 v # prev_1 v # ys) ! Suc n * f0 + (prev_2 v # prev_1 v # ys) ! n * f1 + 32) div 2 ^ 6)"
    if n: "n < 28" for n
  proof -
    have "ys ! n = clamp16 (adpcm_shifted ram a ! n + ((prev_2 v # prev_1 v # ys) ! Suc n * f0 + (prev_2 v # prev_1 v # ys) ! n * f1 + 32) div 2 ^ 6)"
      using sp n by blast
    then show ?thesis by (simp only: adpcm_shifted_nth [OF n])
  qed
  moreover have "length ys = 28" using sp by blast
  moreover note fields t'
  ultimately show ?thesis unfolding w Let_def by (simp only: prod.case) blast
qed

lemma decode_fields [simp]:
  "decoded (fst (decode_adpcm_block ram addr v)) = decoded (decode_block_samples ram (addr AND (SPU_RAM_SIZE - 1)) v)"
  "prev_1 (fst (decode_adpcm_block ram addr v)) = prev_1 (decode_block_samples ram (addr AND (SPU_RAM_SIZE - 1)) v)"
  "prev_2 (fst (decode_adpcm_block ram addr v)) = prev_2 (decode_block_samples ram (addr AND (SPU_RAM_SIZE - 1)) v)"
  by (simp_all add: decode_adpcm_block_def Let_def)


section \<open>Voices\<close>

definition voice_ok :: "SPU_Voice \<Rightarrow> bool" where
  "voice_ok v \<longleftrightarrow> adsr_ok v \<and> length (decoded v) = 28 \<and> (\<forall>x\<in>set (decoded v). - 32768 \<le> x \<and> x \<le> 32767) \<and>
     - 32768 \<le> prev_1 v \<and> prev_1 v \<le> 32767 \<and> - 32768 \<le> prev_2 v \<and> prev_2 v \<le> 32767 \<and>
     unat (sample_pos v) < 28 * 2 ^ 12 \<and> current_addr v < SPU_RAM_SIZE"

lemma clamp16_range: "- 32768 \<le> clamp16 x" "clamp16 x \<le> 32767"
  by (simp_all add: clamp16_def)

lemma decode_samples_history:
  "length (decoded (decode_block_samples ram a v)) = 28"
  "prev_1 (decode_block_samples ram a v) = decoded (decode_block_samples ram a v) ! 27"
  "prev_2 (decode_block_samples ram a v) = decoded (decode_block_samples ram a v) ! 26"
  "n < 28 \<Longrightarrow> \<exists>y. decoded (decode_block_samples ram a v) ! n = clamp16 y"
  using decode_block_samples_spec [of ram a v] unfolding Let_def case_prod_unfold by blast+

lemma decode_samples_range:
  "n < 28 \<Longrightarrow> - 32768 \<le> decoded (decode_block_samples ram a v) ! n \<and> decoded (decode_block_samples ram a v) ! n \<le> 32767"
  using decode_samples_history(4) [of n ram a v] clamp16_range by auto

lemma decode_block_frame [simp]:
  "adsr_ok (decode_block_samples ram a v) = adsr_ok v" "sample_pos (decode_block_samples ram a v) = sample_pos v"
  "current_addr (decode_block_samples ram a v) = current_addr v" "block_decoded (decode_block_samples ram a v)"
  "active (decode_block_samples ram a v) = active v" "adsr_phase (decode_block_samples ram a v) = adsr_phase v"
  "adsr_lo (decode_block_samples ram a v) = adsr_lo v" "adsr_hi (decode_block_samples ram a v) = adsr_hi v"
  "adsr_ci (decode_block_samples ram a v) = adsr_ci v" "vol_l (decode_block_samples ram a v) = vol_l v"
  "vol_r (decode_block_samples ram a v) = vol_r v"
  by (simp_all add: decode_block_samples_def adsr_ok_def Let_def case_prod_unfold)

lemma decode_frame [simp]:
  "sample_pos (fst (decode_adpcm_block ram a v)) = sample_pos v"
  "current_addr (fst (decode_adpcm_block ram a v)) = current_addr v" "block_decoded (fst (decode_adpcm_block ram a v))"
  "adsr_phase (fst (decode_adpcm_block ram a v)) = adsr_phase v"
  "adsr_lo (fst (decode_adpcm_block ram a v)) = adsr_lo v" "adsr_hi (fst (decode_adpcm_block ram a v)) = adsr_hi v"
  "adsr_ci (fst (decode_adpcm_block ram a v)) = adsr_ci v" "vol_l (fst (decode_adpcm_block ram a v)) = vol_l v"
  "vol_r (fst (decode_adpcm_block ram a v)) = vol_r v"
  by (simp_all add: decode_adpcm_block_def Let_def)

lemma decode_active: "active (fst (decode_adpcm_block ram a v)) \<Longrightarrow> active v"
  by (auto simp: decode_adpcm_block_def Let_def split: if_splits)

lemma adsr_ok_decode:
  assumes "adsr_ok v"
  shows "adsr_ok (fst (decode_adpcm_block ram a v))"
proof -
  have "adsr_ok w \<Longrightarrow> adsr_ok (w\<lparr>repeat_addr := x\<rparr>)" "adsr_ok w \<Longrightarrow> adsr_ok (w\<lparr>loop_pending := b\<rparr>)"
    "adsr_ok w \<Longrightarrow> adsr_ok (w\<lparr>loop_pending := b, active := False\<rparr>)" for w x b by (simp_all add: adsr_ok_def)
  then show ?thesis using assms by (simp add: decode_adpcm_block_def Let_def)
qed

lemma decode_ok:
  assumes "voice_ok v"
  shows "voice_ok (fst (decode_adpcm_block ram a v))"
  using assms adsr_ok_decode [of v ram a] decode_samples_range [of _ ram "a AND (SPU_RAM_SIZE - 1)" v]
    decode_samples_history(1-3) [of ram "a AND (SPU_RAM_SIZE - 1)" v]
  by (auto simp: voice_ok_def in_set_conv_nth)

subsection \<open>Block boundaries\<close>

lemma position_shift: "28 \<le> drop_bit 12 (p :: u32) \<longleftrightarrow> 28 * 2 ^ 12 \<le> unat p"
proof -
  have "28 \<le> drop_bit 12 p \<longleftrightarrow> 28 \<le> unat p div 2 ^ 12" by (simp add: word_le_nat_alt drop_bit_eq_div unat_div)
  then show ?thesis by auto
qed

lemma position_index: "unat (p :: u32) < 28 * 2 ^ 12 \<Longrightarrow> unat (drop_bit 12 p) < 28"
  by (simp add: drop_bit_eq_div unat_div)

lemma next_block_frame [simp]:
  "adsr_ok (next_block v) = adsr_ok v" "decoded (next_block v) = decoded v" "prev_1 (next_block v) = prev_1 v"
  "prev_2 (next_block v) = prev_2 v" "adsr_lo (next_block v) = adsr_lo v" "adsr_hi (next_block v) = adsr_hi v"
  "adsr_ci (next_block v) = adsr_ci v" "active (next_block v) = active v" "adsr_phase (next_block v) = adsr_phase v"
  "vol_l (next_block v) = vol_l v" "vol_r (next_block v) = vol_r v"
  by (simp_all add: next_block_def adsr_ok_def Let_def)

lemma next_block_addr: "current_addr (next_block v) < SPU_RAM_SIZE"
proof -
  have "(w :: u32) AND 0x7FFFF < 0x80000" for w by (rule le_less_trans [OF word_and_le1]) simp
  moreover have "push_bit 3 (ucast (w :: u16) :: u32) < 0x80000" for w
  proof -
    have "unat w < 2 ^ LENGTH(16)" by (rule unsigned_less)
    then have "unat (ucast w :: u32) < 65536" by (simp add: unsigned_ucast_eq take_bit_eq_mod)
    then show ?thesis by (simp add: push_bit_eq_mult word_less_nat_alt unat_word_ariths)
  qed
  ultimately show ?thesis by (simp add: next_block_def SPU_RAM_SIZE_def Let_def)
qed

lemma skip_blocks_frame [simp]:
  "adsr_ok (skip_blocks v) = adsr_ok v" "decoded (skip_blocks v) = decoded v" "prev_1 (skip_blocks v) = prev_1 v"
  "prev_2 (skip_blocks v) = prev_2 v" "adsr_lo (skip_blocks v) = adsr_lo v" "adsr_hi (skip_blocks v) = adsr_hi v"
  "adsr_ci (skip_blocks v) = adsr_ci v" "active (skip_blocks v) = active v" "adsr_phase (skip_blocks v) = adsr_phase v"
  "vol_l (skip_blocks v) = vol_l v" "vol_r (skip_blocks v) = vol_r v"
  by (induction v rule: skip_blocks.induct; subst skip_blocks.simps; simp)+

lemma skip_blocks_position: "unat (sample_pos (skip_blocks v)) < 28 * 2 ^ 12"
proof (induction v rule: skip_blocks.induct)
  case (1 v)
  then show ?case by (subst skip_blocks.simps) (simp add: position_shift)
qed

lemma skip_blocks_addr: "current_addr v < SPU_RAM_SIZE \<Longrightarrow> current_addr (skip_blocks v) < SPU_RAM_SIZE"
proof (induction v rule: skip_blocks.induct)
  case (1 v)
  then show ?case by (subst skip_blocks.simps) (simp add: next_block_addr)
qed

lemma adsr_ok_undecode [simp]: "adsr_ok (v\<lparr>block_decoded := b\<rparr>) = adsr_ok v"
  by (simp add: adsr_ok_def)

lemma cross_block_frame [simp]:
  "adsr_ok (cross_block v) = adsr_ok v" "decoded (cross_block v) = decoded v" "prev_1 (cross_block v) = prev_1 v"
  "prev_2 (cross_block v) = prev_2 v" "adsr_lo (cross_block v) = adsr_lo v" "adsr_hi (cross_block v) = adsr_hi v"
  "adsr_ci (cross_block v) = adsr_ci v" "active (cross_block v) = active v" "adsr_phase (cross_block v) = adsr_phase v"
  "vol_l (cross_block v) = vol_l v" "vol_r (cross_block v) = vol_r v"
  by (simp_all add: cross_block_def)

lemma cross_block_ok:
  assumes "adsr_ok v" "length (decoded v) = 28" "\<forall>x\<in>set (decoded v). - 32768 \<le> x \<and> x \<le> 32767"
    "- 32768 \<le> prev_1 v" "prev_1 v \<le> 32767" "- 32768 \<le> prev_2 v" "prev_2 v \<le> 32767" "current_addr v < SPU_RAM_SIZE"
  shows "voice_ok (cross_block v)"
  using assms skip_blocks_position [of v] skip_blocks_addr [of v] position_shift [of "sample_pos v"]
  by (simp add: voice_ok_def) (simp add: cross_block_def)

lemma cross_block_id: "unat (sample_pos v) < 28 * 2 ^ 12 \<Longrightarrow> cross_block v = v"
  by (simp add: cross_block_def position_shift)

section \<open>The machine under the voices\<close>

lemma spu_signal [simp]: "spu (SignalInterrupt n s) = spu s"
  by (simp add: SignalInterrupt_def update_irq_pending_def cap_cycles_for_irq_def Let_def)

lemma upd_spu_fields [simp]: "spu (upd_spu f s) = f (spu s)" "voice i (upd_spu f s) = voices (f (spu s)) i"
  by (simp_all add: upd_spu_def voice_def)

lemma upd_spu_upd [simp]: "upd_spu f (upd_spu g s) = upd_spu (\<lambda>a. f (g a)) s"
  by (simp add: upd_spu_def)

lemma voice_set_voice [simp]: "voice j (set_voice i v s) = (if j = i then v else voice j s)"
  by (simp add: set_voice_def voice_def)

lemma set_voice_set_voice [simp]: "set_voice i v (set_voice i w s) = set_voice i v s"
  by (simp add: set_voice_def)

lemma set_voice_same: "set_voice i (voice i s) s = s"
proof -
  have "voices a = (voices a)(i := voices a i)" for a :: spu_state by simp
  then show ?thesis by (simp add: set_voice_def upd_spu_def voice_def)
qed

lemma irq_check_spu: "spu (spu_irq_check a s) = (if spu_irq_enabled (spu s) \<and> \<not> spu_irq_fired (spu s) \<and> a = spu_irq_addr (spu s)
   then (spu s)\<lparr>spu_stat := spu_stat (spu s) OR 0x0040, spu_irq_fired := True\<rparr> else spu s)"
  by (simp add: spu_irq_check_def)

lemma irq_check_frame [simp]: "voice i (spu_irq_check a s) = voice i s" "voices (spu (spu_irq_check a s)) = voices (spu s)"
  "spu_ram (spu (spu_irq_check a s)) = spu_ram (spu s)"
  by (simp_all add: irq_check_spu voice_def)

section \<open>One sample at a time\<close>

text \<open>
  The reference for the mixing loop: a sample of a voice loads the block under it, advances the envelope by one tick and
  adds the sample at the new volume.
\<close>

definition voice_sample :: "nat \<Rightarrow> nat \<Rightarrow> 'a amachine_scheme \<Rightarrow> 'a amachine_scheme" where
  "voice_sample i k s =
     (if \<not> active (voice i s) then s
      else let s1 = spu_load_block i s
      in if \<not> active (voice i s1) then s1
      else let s2 = voice_tick i s1
      in if adsr_phase (voice i s2) = ADSR_OFF then s2 else voice_single i k s2)"

text \<open>The rates that the registers give are at least four, so the counter always moves.\<close>

definition rates_move :: "SPU_Voice \<Rightarrow> bool" where
  "rates_move v \<longleftrightarrow> 4 \<le> adsr_ci v \<and> unat (drop_bit 10 (adsr_lo v) AND 0x1F) \<le> 24 \<and> unat (drop_bit 8 (adsr_hi v) AND 0x1F) \<le> 24 \<and>
     unat (adsr_hi v AND 0x1F) \<le> 24"

lemma rates_move_positive: "rates_move v \<Longrightarrow> 1 \<le> adsr_rate v"
  by (auto simp: rates_move_def adsr_rate_def)

lemma reload_rates_move:
  assumes "rates_move v" "adsr_phase w \<noteq> ADSR_OFF" "adsr_lo w = adsr_lo v" "adsr_hi w = adsr_hi v"
  shows "rates_move (adsr_reload_params w)"
proof -
  obtain shift idx e d where p: "adsr_params w = Some (shift, idx, e, d)"
    using assms(2) by (cases "adsr_params w") (auto simp: adsr_params_def Let_def split: AdsrPhase.splits)
  have "unat (drop_bit 4 (adsr_lo w) AND 0x0F) \<le> 24"
    using word_and_le1 [of "drop_bit 4 (adsr_lo w)" "0x0F"] by (simp add: word_le_nat_alt)
  then have "shift \<le> 24" using p assms by (auto simp: adsr_params_def rates_move_def Let_def split: AdsrPhase.splits)
  then have "(4 :: int) \<le> 0x8000 div 2 ^ (shift - 11)"
  proof -
    assume "shift \<le> 24"
    then have "(2 :: int) ^ (shift - 11) \<le> 2 ^ 13" by (intro power_increasing) simp_all
    then have "(0x8000 :: int) div 2 ^ 13 \<le> 0x8000 div 2 ^ (shift - 11)" by (intro zdiv_mono2) simp_all
    then show ?thesis by simp
  qed
  then show ?thesis using assms p by (simp add: rates_move_def) (simp add: adsr_reload_params_def Let_def)
qed

definition voice_inv :: "SPU_Voice \<Rightarrow> bool" where
  "voice_inv v \<longleftrightarrow> voice_ok v \<and> rates_move v"

lemma adsr_apply_registers [simp]: "adsr_lo (adsr_apply v) = adsr_lo v" "adsr_hi (adsr_apply v) = adsr_hi v"
  "adsr_lo (adsr_tick v) = adsr_lo v" "adsr_hi (adsr_tick v) = adsr_hi v"
proof -
  show 1: "adsr_lo (adsr_apply v) = adsr_lo v" "adsr_hi (adsr_apply v) = adsr_hi v" for v
    by (cases "adsr_phase v"; simp add: adsr_apply_def Let_def)+
  show "adsr_lo (adsr_tick v) = adsr_lo v" "adsr_hi (adsr_tick v) = adsr_hi v"
    by (simp_all add: adsr_tick_def Let_def 1)
qed

lemma rates_move_frame [simp]:
  "rates_move (v\<lparr>adsr_counter := c\<rparr>) = rates_move v" "rates_move (v\<lparr>adsr_vol := x, adsr_level := y\<rparr>) = rates_move v"
  "rates_move (v\<lparr>adsr_phase := ph, active := b\<rparr>) = rates_move v" "rates_move (cross_block v) = rates_move v"
  "rates_move (v\<lparr>sample_pos := p\<rparr>) = rates_move v" "rates_move (fst (decode_adpcm_block ram a v)) = rates_move v"
  by (simp_all add: rates_move_def)

lemma rates_move_tick:
  assumes "rates_move v" "adsr_phase v \<noteq> ADSR_OFF"
  shows "rates_move (adsr_tick v)"
proof -
  have "rates_move (adsr_apply w)" if "rates_move w" "adsr_phase w \<noteq> ADSR_OFF" for w
    using that reload_rates_move [OF that(1), of "w\<lparr>adsr_phase := ADSR_DECAY, adsr_counter := 0\<rparr>"]
      reload_rates_move [OF that(1), of "w\<lparr>adsr_phase := ADSR_SUSTAIN, adsr_counter := 0\<rparr>"]
    by (cases "adsr_phase w") (simp_all add: adsr_apply_def Let_def)
  then show ?thesis using assms by (simp add: adsr_tick_def Let_def)
qed

lemma load_block_inv:
  assumes "voice_inv (voice i s)"
  shows "voice_inv (voice i (spu_load_block i s))" "block_decoded (voice i (spu_load_block i s))"
  using assms decode_ok [of "voice i s"]
  by (simp_all add: spu_load_block_def Let_def case_prod_unfold voice_inv_def) (simp_all add: set_voice_def)

lemma load_block_done: "block_decoded (voice i s) \<Longrightarrow> spu_load_block i s = s"
  by (simp add: spu_load_block_def)

lemma inv_active: "voice_inv v \<Longrightarrow> active v \<Longrightarrow> adsr_phase v \<noteq> ADSR_OFF"
  by (simp add: voice_inv_def voice_ok_def adsr_ok_def)

lemma tick_inv:
  assumes "voice_inv v" "active v"
  shows "voice_inv (adsr_tick v)"
  using assms adsr_tick_ok [of v] rates_move_tick [of v] inv_active [OF assms] by (simp add: voice_inv_def voice_ok_def)

lemma voice_tick_inv:
  assumes "voice_inv (voice i s)" "active (voice i s)"
  shows "voice_inv (voice i (voice_tick i s))"
proof -
  have "adsr_ok w \<Longrightarrow> adsr_ok (w\<lparr>active := False\<rparr>)" for w by (simp add: adsr_ok_def)
  then show ?thesis
    using tick_inv [OF assms] by (simp add: voice_tick_def Let_def voice_inv_def voice_ok_def rates_move_def)
qed

lemma mix_sample_voice:
  "voices (mix_sample i cl cr k a) i = (voices a i)\<lparr>sample_pos := sample_pos (voices a i) + ucast (pitch (voices a i))\<rparr>"
  by (simp add: mix_sample_def Let_def)

lemma voice_single_inv:
  assumes "voice_inv (voice i s)"
  shows "voice_inv (voice i (voice_single i k s))"
proof -
  have "adsr_ok w \<Longrightarrow> adsr_ok (w\<lparr>sample_pos := p\<rparr>)" for w p by (simp add: adsr_ok_def)
  then have "voice_inv (cross_block (w\<lparr>sample_pos := p\<rparr>))" if "voice_inv w" for w p
    using that by (simp add: voice_inv_def) (rule cross_block_ok; simp add: voice_ok_def)
  then show ?thesis
    using assms by (simp add: voice_single_def Let_def case_prod_unfold mix_sample_voice) (simp add: voice_def)
qed

lemma voice_sample_inv: "voice_inv (voice i s) \<Longrightarrow> voice_inv (voice i (voice_sample i k s))"
  by (simp add: voice_sample_def Let_def load_block_inv voice_tick_inv voice_single_inv)

lemma samples_inactive: "\<not> active (voice i s) \<Longrightarrow> fold (voice_sample i) ks s = s"
  by (induction ks) (simp_all add: voice_sample_def)

subsection \<open>Batches\<close>

text \<open>A tick that does not overflow only moves the counter.\<close>

lemma tick_quiet: "adsr_counter v + adsr_rate v < 0x8000 \<Longrightarrow> adsr_tick v = v\<lparr>adsr_counter := adsr_counter v + adsr_rate v\<rparr>"
  by (simp add: adsr_tick_def Let_def)

definition set_counter :: "nat \<Rightarrow> int \<Rightarrow> spu_state \<Rightarrow> spu_state" where
  "set_counter i c a = a\<lparr>voices := (voices a)(i := (voices a i)\<lparr>adsr_counter := c\<rparr>)\<rparr>"

lemma counter_then_position: "v\<lparr>adsr_counter := c, sample_pos := p\<rparr> = v\<lparr>sample_pos := p, adsr_counter := c\<rparr>"
  for v :: SPU_Voice
  by (cases v) simp

lemma mix_sample_counter: "mix_sample i cl cr k (set_counter i c a) = set_counter i c (mix_sample i cl cr k a)"
  by (simp add: mix_sample_def set_counter_def Let_def counter_then_position)

lemma mix_run_counter: "mix_run i cl cr k n (set_counter i c a) = set_counter i c (mix_run i cl cr k n a)"
  unfolding mix_run_def by (induction n) (simp_all add: mix_sample_counter)

lemma mix_run_voice:
  "voices (mix_run i cl cr k n a) i = (voices a i)\<lparr>sample_pos := sample_pos (voices a i) + of_nat n * ucast (pitch (voices a i))\<rparr>"
  unfolding mix_run_def by (induction n) (simp_all add: mix_sample_voice algebra_simps)

lemma run_position:
  fixes p :: u32 and q :: u16
  assumes "unat p + n * unat q < 2 ^ 32"
  shows "unat (p + of_nat n * ucast q) = unat p + n * unat q"
proof -
  have u: "unat (ucast q :: u32) = unat q" using unsigned_less [of q, where ?'a = nat] by (simp add: unsigned_ucast_eq take_bit_eq_mod)
  have "of_nat n * ucast q = (of_nat (n * unat q) :: u32)" by (simp add: u [symmetric])
  then show ?thesis using assms unat_add_of_nat [of p "n * unat q"] by simp
qed

text \<open>One sample of a voice that is loaded and whose counter does not overflow.\<close>

lemma voice_sample_quiet:
  assumes "voice_inv (voice i s)" "active (voice i s)" "block_decoded (voice i s)"
    and "adsr_counter (voice i s) + adsr_rate (voice i s) < 0x8000"
  shows "voice_sample i k s =
    (let v = voice i s; (cl, cr) = voice_volumes v (adsr_vol v);
         s1 = upd_spu (\<lambda>a. mix_sample i cl cr k (set_counter i (adsr_counter v + adsr_rate v) a)) s
     in set_voice i (cross_block (voice i s1)) s1)"
proof -
  have "adsr_phase (voice i s) \<noteq> ADSR_OFF" using inv_active [OF assms(1,2)] .
  moreover have "voice_tick i s = upd_spu (set_counter i (adsr_counter (voice i s) + adsr_rate (voice i s))) s"
    using calculation unfolding voice_tick_def tick_quiet [OF assms(4)]
    by (simp add: Let_def set_voice_def set_counter_def upd_spu_def voice_def)
  ultimately show ?thesis
    using assms(2,3)
    by (simp add: voice_sample_def load_block_done Let_def voice_single_def case_prod_unfold)
      (simp add: set_counter_def voice_def voice_volumes_def)
qed

text \<open>A batch that stays below the overflow and inside the block is its samples, one at a time.\<close>

definition batch_result :: "nat \<Rightarrow> nat \<Rightarrow> nat \<Rightarrow> 'a amachine_scheme \<Rightarrow> 'a amachine_scheme" where
  "batch_result i k n s =
     (let v = voice i s; (cl, cr) = voice_volumes v (adsr_vol v);
          s1 = upd_spu (\<lambda>a. set_counter i (adsr_counter v + adsr_rate v * int n) (mix_run i cl cr k n a)) s
      in set_voice i (cross_block (voice i s1)) s1)"

lemma batch_result_0: "voice_ok (voice i s) \<Longrightarrow> batch_result i k 0 s = s"
proof -
  assume ok: "voice_ok (voice i s)"
  have a: "set_counter i (adsr_counter (voices a i)) a = a" for a
  proof -
    have "(voices a)(i := (voices a i)\<lparr>adsr_counter := adsr_counter (voices a i)\<rparr>) = voices a" by simp
    then show ?thesis by (simp add: set_counter_def)
  qed
  have s: "upd_spu (\<lambda>a. set_counter i (adsr_counter (voice i s)) a) s = s"
    by (simp add: upd_spu_def voice_def a)
  have "cross_block (voice i s) = voice i s" using ok by (simp add: cross_block_id voice_ok_def)
  then show ?thesis
    using s set_voice_same [of i s]
    by (simp only: batch_result_def mix_run_def Let_def case_prod_unfold add_0_right upt_rec [of k k] less_irrefl if_False fold_simps
        int_ops(1) mult_zero_right)
qed

lemma batch_result_Suc:
  assumes "voice_inv (voice i s)" "active (voice i s)" "block_decoded (voice i s)"
    and "adsr_counter (voice i s) + adsr_rate (voice i s) * int (Suc n) < 0x8000"
    and "unat (sample_pos (voice i s)) + n * unat (pitch (voice i s)) < 28 * 2 ^ 12"
  shows "voice_sample i (k + n) (batch_result i k n s) = batch_result i k (Suc n) s"
proof -
  define v where "v = voice i s"
  obtain cl cr where vol: "voice_volumes v (adsr_vol v) = (cl, cr)" by (cases "voice_volumes v (adsr_vol v)")
  define c where "c = adsr_counter v + adsr_rate v * int n"
  define a1 where "a1 = set_counter i c (mix_run i cl cr k n (spu s))"
  define w where "w = v\<lparr>sample_pos := sample_pos v + of_nat n * ucast (pitch v), adsr_counter := c\<rparr>"
  have w: "voices a1 i = w" by (simp add: a1_def set_counter_def mix_run_voice w_def v_def voice_def)
  have pos: "unat (sample_pos w) < 28 * 2 ^ 12"
    using assms(5) run_position [of "sample_pos v" n "pitch v"] by (simp add: w_def v_def)
  have rate: "adsr_rate w = adsr_rate v" "adsr_counter w = c" "adsr_vol w = adsr_vol v" "vol_l w = vol_l v" "vol_r w = vol_r v"
    by (simp_all add: w_def adsr_rate_def)
  have r1: "1 \<le> adsr_rate v" using assms(1) by (simp add: voice_inv_def v_def rates_move_positive)
  have cb: "0 \<le> c" "c + adsr_rate v < 0x8000"
    using assms(1,4) r1 by (auto simp: c_def v_def voice_inv_def voice_ok_def adsr_ok_def algebra_simps)
  have winv: "voice_inv w"
    using assms(1) pos cb r1 by (auto simp: w_def v_def [symmetric] voice_inv_def voice_ok_def adsr_ok_def rates_move_def)
  have br: "batch_result i k n s = upd_spu (\<lambda>_. a1) s"
    unfolding batch_result_def v_def [symmetric] vol Let_def
    using w cross_block_id [OF pos] set_voice_same [of i "upd_spu (\<lambda>_. a1) s"]
    by (simp add: c_def [symmetric] a1_def upd_spu_def voice_def)
  have "voice_sample i (k + n) (upd_spu (\<lambda>_. a1) s) =
    (let s1 = upd_spu (\<lambda>_. mix_sample i cl cr (k + n) (set_counter i (c + adsr_rate v) a1)) s
     in set_voice i (cross_block (voice i s1)) s1)"
    using voice_sample_quiet [of i "upd_spu (\<lambda>_. a1) s" "k + n"] winv assms(2,3) cb(2) vol
    by (simp add: w rate Let_def voice_volumes_def) (simp add: w_def v_def)
  moreover have "mix_sample i cl cr (k + n) (set_counter i (c + adsr_rate v) a1) =
    set_counter i (c + adsr_rate v) (mix_run i cl cr k (Suc n) (spu s))"
    by (simp add: a1_def mix_sample_counter mix_run_def) (simp add: set_counter_def)
  moreover have "adsr_counter v + adsr_rate v * int (Suc n) = c + adsr_rate v" by (simp add: c_def algebra_simps)
  ultimately show ?thesis
    unfolding br unfolding batch_result_def v_def [symmetric] vol Let_def by (simp add: upd_spu_def)
qed

lemma sint_of_small: "unat (w :: u32) < 2 ^ 31 \<Longrightarrow> sint w = int (unat w)"
proof -
  assume "unat w < 2 ^ 31"
  then have "int (unat w) < int (2 ^ 31)" by (simp only: of_nat_less_iff)
  moreover have "- (2 ^ 31) \<le> uint w" by (rule order_trans [OF _ uint_ge_0]) simp
  ultimately show "sint w = int (unat w)" by (simp add: sint_uint signed_take_bit_int_eq_self)
qed

lemma div_mult_below: "0 < b \<Longrightarrow> b * (a div b) \<le> a" for a b :: int
  using pos_mod_sign [of b a] mult_div_mod_eq [of b a] by linarith

lemma batch_result_active: "active (voice i (batch_result i k m s)) = active (voice i s)"
  by (simp add: batch_result_def Let_def case_prod_unfold set_counter_def mix_run_voice) (simp add: voice_def)

lemma sdiv_nonneg: "0 \<le> a \<Longrightarrow> 0 < b \<Longrightarrow> a sdiv b = a div b" for a b :: int
  by (cases "a = 0") (simp_all add: signed_divide_int_def)

lemma batch_bounds:
  assumes "voice_ok v" "0 \<le> remain"
  shows "0 \<le> batch_length v remain" "batch_length v remain \<le> remain"
    "adsr_counter v + batch_rate v * batch_length v remain < 0x8000"
    "int m < batch_length v remain \<Longrightarrow> unat (sample_pos v) + m * unat (pitch v) < 28 * 2 ^ 12"
proof -
  define q where "q = (0x7FFF - adsr_counter v) div batch_rate v"
  define b where "b = (28 * 2 ^ 12 - sint (sample_pos v) - 1) sdiv uint (pitch v) + 1"
  have r: "1 \<le> batch_rate v" and c: "0 \<le> adsr_counter v" "adsr_counter v < 0x8000" and p: "unat (sample_pos v) < 28 * 2 ^ 12"
    using assms(1) by (auto simp: voice_ok_def adsr_ok_def batch_rate_def)
  have s: "sint (sample_pos v) = int (unat (sample_pos v))"
    using p by (simp add: sint_of_small)
  have q: "0 \<le> q" "batch_rate v * q \<le> 0x7FFF - adsr_counter v"
    using r c div_mult_below [of "batch_rate v" "0x7FFF - adsr_counter v"] by (simp_all add: q_def pos_imp_zdiv_nonneg_iff)
  have bl: "batch_length v remain = (let k = (if pitch v > 0 \<and> b > 0 \<and> b < q then b else q) in if k > remain then remain else k)"
    using r c by (simp add: batch_length_def b_def q_def sdiv_nonneg Let_def)
  show bounds: "0 \<le> batch_length v remain" "batch_length v remain \<le> remain"
    using q assms(2) unfolding bl Let_def by auto
  have "batch_length v remain \<le> q" unfolding bl Let_def by auto
  then have "batch_rate v * batch_length v remain \<le> batch_rate v * q" using r by (intro mult_left_mono) auto
  then show "adsr_counter v + batch_rate v * batch_length v remain < 0x8000" using q(2) by linarith
  show "unat (sample_pos v) + m * unat (pitch v) < 28 * 2 ^ 12" if m: "int m < batch_length v remain"
  proof (cases "pitch v = 0")
    case False
    then have pos: "0 < uint (pitch v)" by (metis uint_0_iff uint_ge_0 order_le_less)
    from p have "int (unat (sample_pos v)) < int (28 * 2 ^ 12)" by (simp only: of_nat_less_iff)
    then have pi: "0 \<le> 28 * 2 ^ 12 - int (unat (sample_pos v)) - 1" by simp
    define d where "d = (28 * 2 ^ 12 - int (unat (sample_pos v)) - 1) div uint (pitch v)"
    have d: "0 \<le> d" "uint (pitch v) * d \<le> 28 * 2 ^ 12 - int (unat (sample_pos v)) - 1"
      using p div_mult_below [OF pos, of "28 * 2 ^ 12 - int (unat (sample_pos v)) - 1"] pos
      pi unfolding d_def by (simp_all only: pos_imp_zdiv_nonneg_iff [OF pos])
    have "b = d + 1" unfolding b_def d_def s sdiv_nonneg [OF pi pos] ..
    then have "batch_length v remain \<le> d + 1"
      using d(1) False unfolding bl Let_def by (auto simp: word_neq_0_conv)
    then have "int m \<le> d" using m by linarith
    then have "uint (pitch v) * int m \<le> uint (pitch v) * d" using pos by (intro mult_left_mono) auto
    then have "int (unat (sample_pos v) + m * unat (pitch v)) < int (28 * 2 ^ 12)"
      using d(2) by (simp add: mult.commute [of _ "uint (pitch v)"])
    then show ?thesis by (simp only: of_nat_less_iff)
  qed (use p in simp)
qed

lemma batch_bounds_inv:
  assumes "voice_inv v" "0 \<le> remain"
  shows "0 \<le> batch_length v remain" "batch_length v remain \<le> remain"
    "adsr_counter v + adsr_rate v * batch_length v remain < 0x8000"
    "int m < batch_length v remain \<Longrightarrow> unat (sample_pos v) + m * unat (pitch v) < 28 * 2 ^ 12"
proof -
  have r: "batch_rate v = adsr_rate v"
    using rates_move_positive [of v] assms(1) by (simp add: batch_rate_def voice_inv_def)
  have ok: "voice_ok v" using assms(1) by (simp add: voice_inv_def)
  show "0 \<le> batch_length v remain" "batch_length v remain \<le> remain"
    "adsr_counter v + adsr_rate v * batch_length v remain < 0x8000"
    "int m < batch_length v remain \<Longrightarrow> unat (sample_pos v) + m * unat (pitch v) < 28 * 2 ^ 12"
    using batch_bounds [OF ok assms(2)] r by simp_all
qed

lemma voice_batch_result:
  assumes "voice_inv (voice i s)"
  shows "voice_batch i k remain s = (let n = nat (batch_length (voice i s) (int remain)) in (n, batch_result i k n s))"
proof -
  have r: "batch_rate (voice i s) = adsr_rate (voice i s)"
    using rates_move_positive [of "voice i s"] assms by (simp add: batch_rate_def voice_inv_def)
  have n: "int (nat (batch_length (voice i s) (int remain))) = batch_length (voice i s) (int remain)"
    using batch_bounds_inv(1) [OF assms, of "int remain"] by simp
  show ?thesis
    unfolding voice_batch_def batch_result_def Let_def case_prod_unfold r n
    by (simp add: set_counter_def set_voice_def upd_spu_def voice_def mix_run_voice)
qed

lemma batch_samples:
  assumes "voice_inv (voice i s)" "active (voice i s)" "block_decoded (voice i s)"
    and "m \<le> nat (batch_length (voice i s) (int remain))"
  shows "fold (voice_sample i) [k..<k + m] s = batch_result i k m s"
  using assms(4)
proof (induction m)
  case 0
  then show ?case using assms(1) batch_result_0 [of i s k] by (simp add: voice_inv_def)
next
  case (Suc m)
  note b = batch_bounds_inv [OF assms(1), of "int remain"]
  have r: "0 \<le> adsr_rate (voice i s)" using rates_move_positive [of "voice i s"] assms(1) by (simp add: voice_inv_def)
  have "int (Suc m) \<le> batch_length (voice i s) (int remain)" using Suc.prems b(1) by linarith
  then have "adsr_rate (voice i s) * int (Suc m) \<le> adsr_rate (voice i s) * batch_length (voice i s) (int remain)"
    using r by (rule mult_left_mono)
  then have "adsr_counter (voice i s) + adsr_rate (voice i s) * int (Suc m) < 0x8000" using b(3) by linarith
  moreover have "unat (sample_pos (voice i s)) + m * unat (pitch (voice i s)) < 28 * 2 ^ 12"
    using b(4) [of m] Suc.prems b(1) by linarith
  ultimately show ?case using batch_result_Suc [OF assms(1-3)] Suc by simp
qed

lemma sample_after_load:
  assumes "active (voice i s)" "active (voice i (spu_load_block i s))" "voice_inv (voice i s)"
  shows "voice_sample i k (spu_load_block i s) = voice_sample i k s"
  using assms load_block_inv(2) [OF assms(3)] by (simp add: voice_sample_def load_block_done Let_def)

lemma samples_after_load:
  assumes "active (voice i s)" "active (voice i (spu_load_block i s))" "voice_inv (voice i s)" "0 < m"
  shows "fold (voice_sample i) [k..<k + m] (spu_load_block i s) = fold (voice_sample i) [k..<k + m] s"
  using assms sample_after_load [OF assms(1-3)] by (simp add: upt_rec [of k])

lemma samples_inv: "voice_inv (voice i s) \<Longrightarrow> voice_inv (voice i (fold (voice_sample i) ks s))"
  by (induction ks arbitrary: s) (simp_all add: voice_sample_inv)

lemma fold_upt_split: "n \<le> m \<Longrightarrow> fold f [k..<k + m] s = fold f [k + n..<k + m] (fold f [k..<k + n] s)"
  using upt_add_eq_append [of k "k + n" "m - n"] by simp

text \<open>
  C17. The mixing loop is sample by sample. The loop mixes runs of samples at constant volume and ticks the envelope only where its
  counter overflows; it stops runs at the end of a block. Over any number of samples that has the effect of the plain
  loop that, for each sample, loads the block when one is due, ticks the envelope and adds the sample at the new
  volume: the same buffers, the same voice, the same end flags and the same address interrupts. The voice is within its
  bounds and the shifts of its rates are at most 24; slower rates do not advance at all, which the batches do not know.
\<close>

theorem spu_mixing_sample_by_sample:
  assumes "voice_inv (voice i s)"
  shows "voice_loop i k n s = fold (voice_sample i) [k..<k + n] s"
  using assms
proof (induction i k n s rule: voice_loop.induct)
  case (1 i k n s)
  show ?case
  proof (cases "n = 0 \<or> \<not> active (voice i s)")
    case True
    then show ?thesis by (subst voice_loop.simps) (auto simp: samples_inactive)
  next
    case act: False
    define s1 where "s1 = spu_load_block i s"
    have first: "voice_sample i k s = s1" if "\<not> active (voice i s1)"
      using act that by (simp add: voice_sample_def Let_def s1_def)
    show ?thesis
    proof (cases "active (voice i s1)")
      case False
      then show ?thesis
        using act first by (subst voice_loop.simps) (simp add: s1_def [symmetric] upt_rec [of k] samples_inactive)
    next
      case act1: True
      have inv1: "voice_inv (voice i s1)" "block_decoded (voice i s1)"
        using load_block_inv [OF 1(2)] by (simp_all add: s1_def)
      define m where "m = nat (batch_length (voice i s1) (int n))"
      define s2 where "s2 = batch_result i k m s1"
      have batch: "voice_batch i k n s1 = (m, s2)" using voice_batch_result [OF inv1(1)] by (simp add: m_def s2_def Let_def)
      have s2: "s2 = fold (voice_sample i) [k..<k + m] s1"
        using batch_samples [OF inv1(1) act1 inv1(2), of m n k] by (simp add: m_def s2_def)
      have mn: "m \<le> n" using batch_bounds_inv(1,2) [OF inv1(1), of "int n"] by (simp add: m_def)
      have all: "fold (voice_sample i) [k..<k + n] s = fold (voice_sample i) [k + m..<k + n] s2"
        using samples_after_load [of i s n k] act act1 1(2) fold_upt_split [OF mn, of "voice_sample i" k s1]
        by (simp add: s1_def [symmetric] s2)
      have inv2: "voice_inv (voice i s2)" using samples_inv [OF inv1(1)] by (simp add: s2)
      show ?thesis
      proof (cases "n \<le> m")
        case True
        then show ?thesis
          using act act1 batch all mn by (subst voice_loop.simps) (simp add: s1_def [symmetric])
      next
        case False
        define s3 where "s3 = spu_load_block i s2"
        have act2: "active (voice i s2)" using act1 by (simp add: s2_def batch_result_active)
        have rest: "fold (voice_sample i) [k..<k + n] s = fold (voice_sample i) [k + m + 1..<k + n] (voice_sample i (k + m) s2)"
          using False all by (simp add: upt_rec [of "k + m"])
        show ?thesis
        proof (cases "active (voice i s3)")
          case False3: False
          have "voice_sample i (k + m) s2 = s3"
            using False3 act2 by (simp add: voice_sample_def Let_def s3_def)
          then show ?thesis
            using act act1 batch rest False False3 by (subst voice_loop.simps) (simp add: s1_def [symmetric] s3_def [symmetric] samples_inactive)
        next
          case True
          define s4 where "s4 = voice_tick i s3"
          have inv3: "voice_inv (voice i s3)" using load_block_inv(1) [OF inv2] by (simp add: s3_def)
          have inv4: "voice_inv (voice i s4)" using voice_tick_inv [OF inv3 True] by (simp add: s4_def)
          show ?thesis
          proof (cases "adsr_phase (voice i s4) = ADSR_OFF")
            case off: True
            then have "\<not> active (voice i s4)" by (auto simp: s4_def voice_tick_def Let_def)
            moreover have "voice_sample i (k + m) s2 = s4"
              using True act2 off by (simp add: voice_sample_def Let_def s3_def [symmetric] s4_def [symmetric])
            ultimately show ?thesis
              using act act1 batch rest False True off
              by (subst voice_loop.simps) (simp add: s1_def [symmetric] s3_def [symmetric] s4_def [symmetric] samples_inactive)
          next
            case on: False
            have vs: "voice_sample i (k + m) s2 = voice_single i (k + m) s4"
              using True act2 on by (simp add: voice_sample_def Let_def s3_def [symmetric] s4_def [symmetric])
            have "voice_loop i k n s = voice_loop i (k + m + 1) (n - m - 1) (voice_single i (k + m) s4)"
              using act act1 batch False True on
              by (subst voice_loop.simps) (simp add: s1_def [symmetric] s3_def [symmetric] s4_def [symmetric])
            also have "\<dots> = fold (voice_sample i) [k + m + 1..<k + m + 1 + (n - m - 1)] (voice_single i (k + m) s4)"
              using 1(1) [OF act s1_def _ batch [symmetric] refl _ s3_def _ s4_def] act1 False True on voice_single_inv [OF inv4]
              by simp
            finally show ?thesis using rest vs False by simp
          qed
        qed
      qed
    qed
  qed
qed

section \<open>The invariant of the sound processor\<close>

definition voices_ok :: "'a amachine_scheme \<Rightarrow> bool" where
  "voices_ok s \<longleftrightarrow> (\<forall>i. voice_ok (voice i s))"

lemma voices_okI: "voices_ok s \<Longrightarrow> voice_ok v \<Longrightarrow> voices_ok (set_voice i v s)"
  by (simp add: voices_ok_def)

lemma voices_ok_same: "(\<And>i. voice i t = voice i s) \<Longrightarrow> voices_ok t = voices_ok s"
  by (simp add: voices_ok_def)

lemma voices_ok_upd [simp]: "(\<And>a. voices (f a) = voices a) \<Longrightarrow> voices_ok (upd_spu f s) = voices_ok s"
  by (rule voices_ok_same) (simp add: voice_def)

lemma load_block_ok: "voices_ok s \<Longrightarrow> voices_ok (spu_load_block i s)"
  by (simp add: spu_load_block_def Let_def case_prod_unfold)
    (auto simp: voices_ok_def intro!: voices_okI decode_ok)

lemma mix_sample_others: "j \<noteq> i \<Longrightarrow> voices (mix_sample i cl cr k a) j = voices a j"
  by (simp add: mix_sample_def Let_def)

lemma mix_run_others: "j \<noteq> i \<Longrightarrow> voices (mix_run i cl cr k n a) j = voices a j"
  unfolding mix_run_def by (induction n) (simp_all add: mix_sample_others)

lemma moved_ok:
  assumes "voice_ok v" "0 \<le> c" "c < 0x8000"
  shows "voice_ok (cross_block (v\<lparr>sample_pos := p, adsr_counter := c\<rparr>))" "voice_ok (cross_block (v\<lparr>sample_pos := p\<rparr>))"
  using assms by (intro cross_block_ok; simp add: voice_ok_def adsr_ok_def)+

lemma voice_batch_ok:
  assumes "voices_ok s"
  shows "voices_ok (snd (voice_batch i k remain s))"
proof -
  note b = batch_bounds [of "voice i s" "int remain"]
  have v: "voice_ok (voice i s)" using assms by (simp add: voices_ok_def)
  have "0 \<le> adsr_counter (voice i s)" "0 \<le> batch_rate (voice i s)"
    using v by (auto simp: voice_ok_def adsr_ok_def batch_rate_def)
  then have c: "0 \<le> adsr_counter (voice i s) + batch_rate (voice i s) * batch_length (voice i s) (int remain)"
    using b(1) [OF v] by simp
  show ?thesis
    using assms moved_ok(1) [OF v c b(3) [OF v]]
    by (simp add: voice_batch_def Let_def case_prod_unfold voices_ok_def mix_run_others) (simp add: mix_run_voice voice_def)
qed

lemma voice_single_ok:
  assumes "voices_ok s"
  shows "voices_ok (voice_single i k s)"
proof -
  have v: "voice_ok (voice i s)" using assms by (simp add: voices_ok_def)
  show ?thesis
    using assms moved_ok(2) [OF v, of 0]
    by (simp add: voice_single_def Let_def case_prod_unfold voices_ok_def mix_sample_others) (simp add: mix_sample_voice voice_def)
qed

lemma voice_tick_ok:
  assumes "voices_ok s" "active (voice i s)"
  shows "voices_ok (voice_tick i s)"
proof -
  have "adsr_ok w \<Longrightarrow> adsr_ok (w\<lparr>active := False\<rparr>)" for w by (simp add: adsr_ok_def)
  then have "voice_ok (adsr_tick (voice i s))" "voice_ok ((adsr_tick (voice i s))\<lparr>active := False\<rparr>)"
    using assms adsr_tick_ok [of "voice i s"] by (simp_all add: voices_ok_def voice_ok_def)
  then show ?thesis using assms(1) by (simp add: voice_tick_def Let_def voices_okI)
qed

lemma voice_loop_ok: "voices_ok s \<Longrightarrow> voices_ok (voice_loop i k n s)"
proof (induction i k n s rule: voice_loop.induct)
  case (1 i k n s)
  define s1 where "s1 = spu_load_block i s"
  define m where "m = fst (voice_batch i k n s1)"
  define s2 where "s2 = snd (voice_batch i k n s1)"
  define s3 where "s3 = spu_load_block i s2"
  define s4 where "s4 = voice_tick i s3"
  have batch: "voice_batch i k n s1 = (m, s2)" by (simp add: m_def s2_def)
  have ok: "voices_ok s1" "voices_ok s2" "voices_ok s3"
    using 1(2) by (simp_all add: s1_def s2_def s3_def load_block_ok voice_batch_ok)
  have ok4: "voices_ok s4" if "active (voice i s3)" using that ok(3) by (simp add: s4_def voice_tick_ok)
  show ?case
    using 1(1) [OF _ s1_def _ batch [symmetric] refl _ s3_def _ s4_def] 1(2) ok ok4
    by (subst voice_loop.simps) (simp add: s1_def [symmetric] batch s3_def [symmetric] s4_def [symmetric] voice_single_ok)
qed

lemma fold_keeps: "(\<And>x s. P s \<Longrightarrow> P (f x s)) \<Longrightarrow> P s \<Longrightarrow> P (fold f xs s)"
  by (induction xs arbitrary: s) auto

lemma generate_ok: "voices_ok s \<Longrightarrow> voices_ok (SPU_GenerateChunk n s)"
  by (auto simp: SPU_GenerateChunk_def Let_def mix_voice_def intro!: fold_keeps [where P = voices_ok] voice_loop_ok)

lemma key_on_ok: "voice_ok v \<Longrightarrow> voice_ok (key_on_voice v)"
proof -
  have "push_bit 3 (ucast (w :: u16) :: u32) < 0x80000" for w
  proof -
    have "unat w < 2 ^ LENGTH(16)" by (rule unsigned_less)
    then have "unat (ucast w :: u32) < 65536" by (simp add: unsigned_ucast_eq take_bit_eq_mod)
    then show ?thesis by (simp add: push_bit_eq_mult word_less_nat_alt unat_word_ariths)
  qed
  then show "voice_ok v \<Longrightarrow> voice_ok (key_on_voice v)"
    by (simp add: key_on_voice_def voice_ok_def SPU_RAM_SIZE_def reload_ok)
qed

lemma key_off_ok: "voice_ok v \<Longrightarrow> voice_ok (key_off_voice v)"
proof -
  assume v: "voice_ok v"
  then have "adsr_ok (adsr_reload_params (v\<lparr>adsr_phase := ADSR_RELEASE, adsr_counter := 0\<rparr>))"
    by (intro reload_ok) (auto simp: voice_ok_def adsr_ok_def)
  then show ?thesis using v by (simp add: key_off_voice_def voice_ok_def)
qed

definition all_voices :: "spu_state \<Rightarrow> bool" where
  "all_voices a \<longleftrightarrow> (\<forall>i. voice_ok (voices a i))"

lemma voices_ok_all: "voices_ok s = all_voices (spu s)"
  by (simp add: voices_ok_def all_voices_def voice_def)

lemma process_ok:
  "all_voices a \<Longrightarrow> all_voices (process_key_on m a)" "all_voices a \<Longrightarrow> all_voices (process_key_off m a)"
  unfolding process_key_on_def process_key_off_def
  by (rule fold_keeps [where P = all_voices]; auto simp: all_voices_def key_on_ok key_off_ok)+

lemma flush_ok: "all_voices a \<Longrightarrow> all_voices (flush_pending_kon a)"
  using process_ok(1) [of a "pending_kon a"] by (simp add: flush_pending_kon_def all_voices_def)

lemma flush_audio_ok [simp]: "voices (SPU_FlushAudio a) = voices a"
  by (simp add: SPU_FlushAudio_def)

lemma catch_up_ok: "voices_ok s \<Longrightarrow> voices_ok (SPU_CatchUp s)"
  using flush_ok unfolding SPU_CatchUp_def Let_def case_prod_unfold
  by (auto simp: voices_ok_all intro!: generate_ok [unfolded voices_ok_all]) (simp_all add: all_voices_def)

lemma voice_write_ok: "voice_ok v \<Longrightarrow> voice_ok (voice_write r x v)"
proof -
  assume v: "voice_ok v"
  have "adsr_ok (w\<lparr>adsr_lo := x\<rparr>) = adsr_ok w" "adsr_ok (w\<lparr>adsr_hi := x\<rparr>) = adsr_ok w" for w by (simp_all add: adsr_ok_def)
  moreover have "active v \<Longrightarrow> adsr_ok (adsr_reload_params (v\<lparr>adsr_lo := x\<rparr>))" "active v \<Longrightarrow> adsr_ok (adsr_reload_params (v\<lparr>adsr_hi := x\<rparr>))"
    using v by (intro reload_ok; auto simp: voice_ok_def adsr_ok_def)+
  moreover have "adsr_ok (w\<lparr>vol_l := x\<rparr>) = adsr_ok w" "adsr_ok (w\<lparr>vol_r := x\<rparr>) = adsr_ok w" "adsr_ok (w\<lparr>pitch := x\<rparr>) = adsr_ok w"
    "adsr_ok (w\<lparr>start_addr := x\<rparr>) = adsr_ok w" "adsr_ok (w\<lparr>adsr_level := x\<rparr>) = adsr_ok w"
    "adsr_ok (w\<lparr>repeat_addr := x, ignore_loop := True\<rparr>) = adsr_ok w" for w by (simp_all add: adsr_ok_def)
  ultimately show "voice_ok (voice_write r x v)" using v by (simp add: voice_write_def voice_ok_def Let_def)
qed

text \<open>The transfer pointer stays inside sound memory.\<close>

definition spu_ok :: "'a amachine_scheme \<Rightarrow> bool" where
  "spu_ok s \<longleftrightarrow> voices_ok s \<and> transfer_ptr (spu s) < SPU_RAM_SIZE"

section \<open>What generating samples leaves alone\<close>

definition spu_fixed :: "spu_state \<Rightarrow> bytes \<times> u32 \<times> u16 \<times> u32 \<times> u16 \<times> bool \<times> bool \<times> bool" where
  "spu_fixed a = (spu_ram a, transfer_ptr a, transfer_addr a, spu_irq_addr a, spu_cnt a, spu_irq_enabled a,
     spu_initialized a, prof_disable_spu a)"

lemma fold_fixed: "(\<And>x s. f (g x s) = f s) \<Longrightarrow> f (fold g xs s) = f s"
  by (induction xs arbitrary: s) simp_all

lemma fixed_mix [simp]: "spu_fixed (mix_sample i cl cr k a) = spu_fixed a" "spu_fixed (mix_run i cl cr k n a) = spu_fixed a"
proof -
  show 1: "spu_fixed (mix_sample i cl cr k a) = spu_fixed a" for k a by (simp add: mix_sample_def spu_fixed_def Let_def)
  show "spu_fixed (mix_run i cl cr k n a) = spu_fixed a" unfolding mix_run_def by (rule fold_fixed) (rule 1)
qed

lemma fixed_keys [simp]: "spu_fixed (process_key_on m a) = spu_fixed a" "spu_fixed (process_key_off m a) = spu_fixed a"
  "spu_fixed (flush_pending_kon a) = spu_fixed a" "spu_fixed (SPU_FlushAudio a) = spu_fixed a"
proof -
  show 1: "spu_fixed (process_key_on m a) = spu_fixed a" "spu_fixed (process_key_off m a) = spu_fixed a" for m a
    unfolding process_key_on_def process_key_off_def by (rule fold_fixed; simp add: spu_fixed_def)+
  show "spu_fixed (flush_pending_kon a) = spu_fixed a"
    using 1(1) [of "pending_kon a" a] by (simp add: flush_pending_kon_def spu_fixed_def)
  show "spu_fixed (SPU_FlushAudio a) = spu_fixed a" by (simp add: SPU_FlushAudio_def spu_fixed_def)
qed

text \<open>A view of the machine that neither an interrupt nor the running state of the voices changes.\<close>

definition sound_view :: "('a amachine_scheme \<Rightarrow> 'v) \<Rightarrow> bool" where
  "sound_view f \<longleftrightarrow> (\<forall>s. f (SignalInterrupt 9 s) = f s) \<and> (\<forall>g s. (\<forall>a. spu_fixed (g a) = spu_fixed a) \<longrightarrow> f (upd_spu g s) = f s)"

lemma sound_viewD:
  "sound_view f \<Longrightarrow> f (SignalInterrupt 9 s) = f s" "sound_view f \<Longrightarrow> (\<And>a. spu_fixed (g a) = spu_fixed a) \<Longrightarrow> f (upd_spu g s) = f s"
  by (simp_all add: sound_view_def)

lemma irq_check_view: "sound_view f \<Longrightarrow> f (spu_irq_check a s) = f s"
  by (simp add: spu_irq_check_def sound_viewD spu_fixed_def)

lemma set_voice_view: "sound_view f \<Longrightarrow> f (set_voice i v s) = f s"
  unfolding set_voice_def by (rule sound_viewD) (simp_all add: spu_fixed_def)

lemma load_block_view: "sound_view f \<Longrightarrow> f (spu_load_block i s) = f s"
  by (simp add: spu_load_block_def Let_def case_prod_unfold sound_viewD(2) set_voice_view irq_check_view spu_fixed_def)

lemma voice_steps_view:
  "sound_view f \<Longrightarrow> f (snd (voice_batch i k n s)) = f s" "sound_view f \<Longrightarrow> f (voice_tick i s) = f s"
  "sound_view f \<Longrightarrow> f (voice_single i k s) = f s"
  by (simp_all add: voice_batch_def voice_tick_def voice_single_def Let_def case_prod_unfold set_voice_view sound_viewD(2))

lemma voice_loop_view: "sound_view f \<Longrightarrow> f (voice_loop i k n s) = f s"
proof (induction i k n s rule: voice_loop.induct)
  case (1 i k n s)
  define s1 where "s1 = spu_load_block i s"
  define m where "m = fst (voice_batch i k n s1)"
  define s2 where "s2 = snd (voice_batch i k n s1)"
  define s3 where "s3 = spu_load_block i s2"
  define s4 where "s4 = voice_tick i s3"
  have batch: "voice_batch i k n s1 = (m, s2)" by (simp add: m_def s2_def)
  have eq: "f s1 = f s" "f s2 = f s" "f s3 = f s" "f s4 = f s"
    using 1(2) by (simp_all add: s1_def s2_def s3_def s4_def load_block_view voice_steps_view)
  show ?case
    using 1(1) [OF _ s1_def _ batch [symmetric] refl _ s3_def _ s4_def] 1(2) eq
    by (subst voice_loop.simps) (simp add: s1_def [symmetric] batch s3_def [symmetric] s4_def [symmetric] voice_steps_view)
qed

lemma generate_view: "sound_view f \<Longrightarrow> f (SPU_GenerateChunk n s) = f s"
proof -
  assume f: "sound_view f"
  have "f (mix_voice k m i t) = f t" for k m i t using f by (simp add: mix_voice_def Let_def voice_loop_view)
  then have "f (fold (mix_voice k m) xs t) = f t" for k m xs t by (rule fold_fixed)
  then show ?thesis using f by (simp add: SPU_GenerateChunk_def Let_def sound_viewD(2) spu_fixed_def)
qed

lemma catch_up_view: "sound_view f \<Longrightarrow> f (SPU_CatchUp s) = f s"
proof -
  assume f: "sound_view f"
  have "spu_fixed ((SPU_FlushAudio a)\<lparr>spu_frame_start_cycle := c\<rparr>) = spu_fixed a" for a c
    using fixed_keys(4) [of a] by (simp add: spu_fixed_def)
  then have "f (upd_spu (\<lambda>a. (SPU_FlushAudio a)\<lparr>spu_frame_start_cycle := c a\<rparr>) t) = f t"
    "f (upd_spu (\<lambda>a. flush_pending_kon ((SPU_FlushAudio a)\<lparr>spu_frame_start_cycle := c a\<rparr>)) t) = f t" for c t
    using f by (auto intro!: sound_viewD(2))
  then show ?thesis
    using f by (simp add: SPU_CatchUp_def Let_def case_prod_unfold generate_view sound_viewD(2))
qed

lemma sound_views:
  "sound_view (\<lambda>s. spu_fixed (spu s))" "sound_view (\<lambda>s :: 'a amachine_scheme. psx_ram s)"
  "sound_view (\<lambda>s :: 'a amachine_scheme. dma s)" "sound_view (\<lambda>s :: 'a amachine_scheme. bus_view s)"
proof -
  show "sound_view (\<lambda>s. spu_fixed (spu s))" by (simp add: sound_view_def)
  show "sound_view (\<lambda>s :: 'a amachine_scheme. psx_ram s)" "sound_view (\<lambda>s :: 'a amachine_scheme. dma s)"
    by (simp_all add: sound_view_def upd_spu_def SignalInterrupt_def update_irq_pending_def cap_cycles_for_irq_def Let_def)
  have "bus_view (SignalInterrupt 9 s) = bus_view s" for s :: "'a amachine_scheme"
    using bus_irq(3) [of s 9 s] by (simp add: bus_same_def)
  then show "sound_view (\<lambda>s :: 'a amachine_scheme. bus_view s)"
    by (simp add: sound_view_def) (simp add: upd_spu_def bus_view_def)
qed

lemma catch_up_fixed:
  "spu_ram (spu (SPU_CatchUp s)) = spu_ram (spu s)" "transfer_ptr (spu (SPU_CatchUp s)) = transfer_ptr (spu s)"
  "psx_ram (SPU_CatchUp s) = psx_ram s" "dma (SPU_CatchUp s) = dma s" "bus_view (SPU_CatchUp s) = bus_view s"
  using catch_up_view [OF sound_views(1), of s] catch_up_view [OF sound_views(2), of s] catch_up_view [OF sound_views(3), of s]
    catch_up_view [OF sound_views(4), of s] by (simp_all add: spu_fixed_def)

section \<open>Transfers\<close>

lemma psx_ram_signal [simp]: "psx_ram (SignalInterrupt n (s :: 'a core_scheme)) = psx_ram s"
  by (simp add: SignalInterrupt_def update_irq_pending_def cap_cycles_for_irq_def Let_def)

lemma psx_ram_upd [simp]: "psx_ram (upd_spu f s) = psx_ram s"
  by (simp add: upd_spu_def)

lemma advance_spu [simp]:
  "spu_ram (spu (transfer_advance s)) = spu_ram (spu s)" "psx_ram (transfer_advance s) = psx_ram s"
  "transfer_ptr (spu (transfer_advance s)) = (transfer_ptr (spu s) + 2) AND 0x7FFFF"
  "voices (spu (transfer_advance s)) = voices (spu s)"
  by (simp_all add: transfer_advance_def irq_check_spu SPU_RAM_SIZE_def) (simp add: spu_irq_check_def)

lemma pointer_mask: "unat ((p :: u32) AND 0x7FFFF) = unat p mod 0x80000"
proof -
  have "p AND 0x7FFFF = take_bit 19 p" by (simp add: take_bit_eq_mask mask_eq_exp_minus_1)
  then show ?thesis by (simp only: unsigned_take_bit_eq) (simp add: take_bit_eq_mod)
qed

lemma interval_step:
  fixes a p :: u32
  assumes "unat p + 2 * n + 2 \<le> 2 ^ 31"
  shows "unat p \<le> unat a \<and> unat a < unat p + 2 * Suc n \<longleftrightarrow>
    (unat p \<le> unat a \<and> unat a < unat p + 2 * n) \<or> a = p + of_nat (2 * n) \<or> a = p + of_nat (2 * n) + 1"
proof -
  have "unat (p + of_nat (2 * n)) = unat p + 2 * n" using assms by (intro unat_add_of_nat) simp
  moreover have "unat (p + of_nat (2 * n) + 1) = unat p + 2 * n + 1"
    using unat_add_of_nat [of p "2 * n + 1"] assms by (simp add: algebra_simps)
  ultimately show ?thesis by (auto simp: word_unat_eq_iff)
qed

text \<open>Copying \<open>n\<close> halfwords into sound memory, when neither side wraps.\<close>

lemma upload:
  assumes "unat (transfer_ptr (spu s)) + 2 * n \<le> 0x80000" "unat src + 2 * n \<le> 0x200000" "transfer_ptr (spu s) < SPU_RAM_SIZE"
  shows "unat (transfer_ptr (spu (fold (spu_dma_to_spu src) [0..<n] s))) = (unat (transfer_ptr (spu s)) + 2 * n) mod 0x80000 \<and>
    psx_ram (fold (spu_dma_to_spu src) [0..<n] s) = psx_ram s \<and>
    (\<forall>a. spu_ram (spu (fold (spu_dma_to_spu src) [0..<n] s)) a =
      (if unat (transfer_ptr (spu s)) \<le> unat a \<and> unat a < unat (transfer_ptr (spu s)) + 2 * n
       then psx_ram s (src + (a - transfer_ptr (spu s))) else spu_ram (spu s) a))"
  using assms
proof (induction n)
  case 0
  then show ?case by (auto simp: SPU_RAM_SIZE_def word_less_nat_alt)
next
  case (Suc n)
  define p where "p = transfer_ptr (spu s)"
  define t where "t = fold (spu_dma_to_spu src) [0..<n] s"
  have IH: "unat (transfer_ptr (spu t)) = (unat p + 2 * n) mod 0x80000" "psx_ram t = psx_ram s"
    "\<And>a. spu_ram (spu t) a = (if unat p \<le> unat a \<and> unat a < unat p + 2 * n then psx_ram s (src + (a - p)) else spu_ram (spu s) a)"
    using Suc by (simp_all add: t_def p_def)
  have ptr: "transfer_ptr (spu t) = p + of_nat (2 * n)" "unat (p + of_nat (2 * n)) = unat p + 2 * n"
    using IH(1) Suc.prems(1) unat_add_of_nat [of p "2 * n"] by (simp_all add: word_unat_eq_iff p_def)
  have src: "unat (src + 2 * of_nat n + 1) = unat src + 2 * n + 1"
    using unat_add_of_nat [of src "2 * n + 1"] Suc.prems(2) by (simp add: algebra_simps)
  have cond: "src + 2 * of_nat n + 1 < PSX_RAM_SIZE" "transfer_ptr (spu t) < SPU_RAM_SIZE - 1"
    using src ptr Suc.prems by (simp_all add: word_less_nat_alt PSX_RAM_SIZE_def SPU_RAM_SIZE_def p_def)
  define u where "u = spu_dma_to_spu src n t"
  have u: "u = transfer_advance (upd_spu (\<lambda>x. x\<lparr>spu_ram := (spu_ram x)(transfer_ptr x := psx_ram t (src + 2 * of_nat n),
      transfer_ptr x + 1 := psx_ram t (src + 2 * of_nat n + 1))\<rparr>) t)"
    using cond by (simp add: u_def spu_dma_to_spu_def Let_def)
  have up: "unat (transfer_ptr (spu u)) = (unat p + 2 * Suc n) mod 0x80000"
    using ptr unat_add_of_nat [of p "2 * n + 2"] Suc.prems(1) by (simp add: u pointer_mask p_def algebra_simps)
  have ram: "spu_ram (spu u) a = (if unat p \<le> unat a \<and> unat a < unat p + 2 * Suc n then psx_ram s (src + (a - p)) else spu_ram (spu s) a)"
    for a
    using Suc.prems(1) by (subst interval_step) (auto simp: u ptr IH p_def algebra_simps)
  show ?case using up ram IH(2) by (simp add: t_def [symmetric] u_def [symmetric] p_def [symmetric]) (simp add: u)
qed

text \<open>Copying \<open>n\<close> halfwords out of sound memory.\<close>

lemma download:
  assumes "unat (transfer_ptr (spu s)) + 2 * n \<le> 0x80000" "unat dst + 2 * n \<le> 0x200000" "transfer_ptr (spu s) < SPU_RAM_SIZE"
  shows "unat (transfer_ptr (spu (fold (spu_dma_to_ram dst) [0..<n] s))) = (unat (transfer_ptr (spu s)) + 2 * n) mod 0x80000 \<and>
    spu_ram (spu (fold (spu_dma_to_ram dst) [0..<n] s)) = spu_ram (spu s) \<and>
    (\<forall>a. psx_ram (fold (spu_dma_to_ram dst) [0..<n] s) a =
      (if unat dst \<le> unat a \<and> unat a < unat dst + 2 * n
       then spu_ram (spu s) (transfer_ptr (spu s) + (a - dst)) else psx_ram s a))"
  using assms
proof (induction n)
  case 0
  then show ?case by (auto simp: SPU_RAM_SIZE_def word_less_nat_alt)
next
  case (Suc n)
  define p where "p = transfer_ptr (spu s)"
  define t where "t = fold (spu_dma_to_ram dst) [0..<n] s"
  have IH: "unat (transfer_ptr (spu t)) = (unat p + 2 * n) mod 0x80000" "spu_ram (spu t) = spu_ram (spu s)"
    "\<And>a. psx_ram t a = (if unat dst \<le> unat a \<and> unat a < unat dst + 2 * n then spu_ram (spu s) (p + (a - dst)) else psx_ram s a)"
    using Suc by (simp_all add: t_def p_def)
  have ptr: "transfer_ptr (spu t) = p + of_nat (2 * n)" "unat (p + of_nat (2 * n)) = unat p + 2 * n"
    using IH(1) Suc.prems(1) unat_add_of_nat [of p "2 * n"] by (simp_all add: word_unat_eq_iff p_def)
  have dst: "unat (dst + 2 * of_nat n + 1) = unat dst + 2 * n + 1"
    using unat_add_of_nat [of dst "2 * n + 1"] Suc.prems(2) by (simp add: algebra_simps)
  have cond: "dst + 2 * of_nat n + 1 < PSX_RAM_SIZE" "transfer_ptr (spu t) < SPU_RAM_SIZE - 1"
    using dst ptr Suc.prems by (simp_all add: word_less_nat_alt PSX_RAM_SIZE_def SPU_RAM_SIZE_def p_def)
  define u where "u = spu_dma_to_ram dst n t"
  have u: "u = transfer_advance (t\<lparr>psx_ram := (psx_ram t)(dst + 2 * of_nat n := spu_ram (spu t) (transfer_ptr (spu t)),
      dst + 2 * of_nat n + 1 := spu_ram (spu t) (transfer_ptr (spu t) + 1))\<rparr>)"
    using cond by (simp add: u_def spu_dma_to_ram_def Let_def)
  have up: "unat (transfer_ptr (spu u)) = (unat p + 2 * Suc n) mod 0x80000"
    using ptr unat_add_of_nat [of p "2 * n + 2"] Suc.prems(1) by (simp add: u pointer_mask p_def algebra_simps)
  have ram: "psx_ram u a = (if unat dst \<le> unat a \<and> unat a < unat dst + 2 * Suc n then spu_ram (spu s) (p + (a - dst)) else psx_ram s a)"
    for a
    using Suc.prems(2) by (subst interval_step) (auto simp: u ptr IH algebra_simps)
  show ?case using up ram IH(2) by (simp add: t_def [symmetric] u_def [symmetric] p_def [symmetric]) (simp add: u)
qed

text \<open>The words a block control register asks for.\<close>

definition spu_dma_words :: "u32 \<Rightarrow> u32" where
  "spu_dma_words bc = (let size = bc AND 0xFFFF; blocks = drop_bit 16 bc AND 0xFFFF
     in (if size = 0 then 1 else size) * (if blocks = 0 then 1 else blocks))"

lemma transfer_reset [simp]:
  "spu_ram (spu (SPU_WriteReg 0xD3 v s)) = spu_ram (spu s)" "psx_ram (SPU_WriteReg 0xD3 v s) = psx_ram s"
  "transfer_ptr (spu (SPU_WriteReg 0xD3 v s)) = push_bit 3 (ucast v)"
  by (simp_all add: SPU_WriteReg_def)

text \<open>
  C19. Uploading to sound memory and reading back. Data copied by the transfer channel from main memory to sound memory, and then from
  the same transfer address to another place of main memory, arrives unchanged, whatever the voices and the address
  interrupt do meanwhile, provided no side runs over the end of its memory.
\<close>

theorem spu_transfer_roundtrip:
  assumes "transfer_ptr (spu s) = push_bit 3 (ucast a)" "N = unat (spu_dma_words bc * 4)"
    and "unat (transfer_ptr (spu s)) + N \<le> 0x80000"
    and "unat (src AND 0x1FFFFC) + N \<le> 0x200000" "unat (dst AND 0x1FFFFC) + N \<le> 0x200000"
  shows "let t = SPU_DMA4 dst bc 0x01000200 (SPU_WriteReg 0xD3 a (SPU_DMA4 src bc 0x01000201 s))
    in \<forall>j<N. psx_ram t ((dst AND 0x1FFFFC) + of_nat j) = psx_ram s ((src AND 0x1FFFFC) + of_nat j)"
proof -
  define p where "p = (push_bit 3 (ucast a) :: u32)"
  define n where "n = N div 2"
  have N: "N = 2 * n"
  proof -
    have "even N" unfolding assms(2) unat_word_ariths by (rule dvd_mod) simp_all
    then show ?thesis by (simp add: n_def)
  qed
  have psmall: "p < SPU_RAM_SIZE" "unat p + 2 * n \<le> 0x80000"
  proof -
    have "unat a < 2 ^ LENGTH(16)" by (rule unsigned_less)
    then have "unat (ucast a :: u32) < 65536" by (simp add: unsigned_ucast_eq take_bit_eq_mod)
    then show "p < SPU_RAM_SIZE" by (simp add: p_def SPU_RAM_SIZE_def push_bit_eq_mult word_less_nat_alt unat_word_ariths)
    show "unat p + 2 * n \<le> 0x80000" using assms(1,3) N by (simp add: p_def)
  qed
  define s1 where "s1 = SPU_CatchUp s"
  define s2 where "s2 = fold (spu_dma_to_spu (src AND 0x1FFFFC)) [0..<n] s1"
  define s3 where "s3 = SPU_CatchUp (SPU_WriteReg 0xD3 a s2)"
  define s4 where "s4 = fold (spu_dma_to_ram (dst AND 0x1FFFFC)) [0..<n] s3"
  have s1: "transfer_ptr (spu s1) = p" "psx_ram s1 = psx_ram s" using assms(1) by (simp_all add: s1_def catch_up_fixed p_def)
  have d1: "SPU_DMA4 src bc 0x01000201 s = s2"
    unfolding SPU_DMA4_def s2_def s1_def n_def assms(2) spu_dma_words_def Let_def by simp
  have d2: "SPU_DMA4 dst bc 0x01000200 (SPU_WriteReg 0xD3 a s2) = s4"
    unfolding SPU_DMA4_def s4_def s3_def n_def assms(2) spu_dma_words_def Let_def by simp
  have up: "spu_ram (spu s2) x = (if unat p \<le> unat x \<and> unat x < unat p + 2 * n then psx_ram s ((src AND 0x1FFFFC) + (x - p)) else spu_ram (spu s1) x)"
    for x using upload [of s1 n "src AND 0x1FFFFC"] psmall assms(4) N s1 by (simp add: s2_def)
  have s3: "transfer_ptr (spu s3) = p" "spu_ram (spu s3) = spu_ram (spu s2)" by (simp_all add: s3_def catch_up_fixed p_def)
  have "psx_ram s4 ((dst AND 0x1FFFFC) + of_nat j) = psx_ram s ((src AND 0x1FFFFC) + of_nat j)" if j: "j < N" for j
  proof -
    have "unat ((dst AND 0x1FFFFC) + of_nat j) = unat (dst AND 0x1FFFFC) + j" "unat (p + of_nat j) = unat p + j"
      using j assms(5) psmall(2) N by (auto intro!: unat_add_of_nat)
    then show ?thesis
      using download [of s3 n "dst AND 0x1FFFFC"] psmall assms(5) N s3 j by (simp add: s4_def up)
  qed
  then show ?thesis unfolding Let_def d1 d2 by blast
qed

section \<open>The devices of the bus\<close>

text \<open>
  A sound device behind the bus: its registers and its transfer leave alone whatever a view of the machine shows.
\<close>

locale sound_device =
  fixes view :: "'s \<Rightarrow> 'v"
    and rd :: "u32 \<Rightarrow> 's \<Rightarrow> u16 \<times> 's"
    and wr :: "u32 \<Rightarrow> u16 \<Rightarrow> 's \<Rightarrow> 's"
    and xfer :: "u32 \<Rightarrow> u32 \<Rightarrow> u32 \<Rightarrow> 's \<Rightarrow> 's"
  assumes read_view: "view (snd (rd r s)) = view s"
    and write_view: "view (wr r v s) = view s"
    and transfer_view: "view (xfer m b c s) = view s"
begin

lemma installed:
  "devices_keep view d \<Longrightarrow>
    devices_keep view (d\<lparr>devices.SPU_DMA4 := xfer, devices.SPU_ReadReg := rd, devices.SPU_WriteReg := wr\<rparr>)"
  by (simp add: devices_keep_def read_view write_view transfer_view)

end

text \<open>A view that sound memory and the registers do not show either.\<close>

definition outer_view :: "('a amachine_scheme \<Rightarrow> 'v) \<Rightarrow> bool" where
  "outer_view f \<longleftrightarrow> (\<forall>s. f (SignalInterrupt 9 s) = f s) \<and> (\<forall>g s. f (upd_spu g s) = f s) \<and> (\<forall>m s. f (s\<lparr>psx_ram := m\<rparr>) = f s)"

lemma outer_viewD:
  assumes "outer_view f"
  shows "f (SignalInterrupt 9 s) = f s" "f (upd_spu g s) = f s" "f (s\<lparr>psx_ram := m\<rparr>) = f s" "sound_view f" "f (SPU_CatchUp s) = f s"
  using assms catch_up_view [of f s] by (simp_all add: outer_view_def sound_view_def)

lemma outer_advance: "outer_view f \<Longrightarrow> f (transfer_advance s) = f s"
  by (simp add: transfer_advance_def outer_viewD irq_check_view)

lemma outer_spu:
  assumes "outer_view f"
  shows "f (snd (SPU_ReadReg r s)) = f s" "f (SPU_WriteReg r v s) = f s" "f (SPU_DMA4 m b c s) = f s"
proof -
  show "f (snd (SPU_ReadReg r s)) = f s" using assms by (simp add: SPU_ReadReg_def Let_def outer_viewD)
  show "f (SPU_WriteReg r v s) = f s"
    using assms by (simp add: SPU_WriteReg_def spu_write_fifo_def spu_write_kon_def spu_write_koff_def set_voice_def Let_def
        outer_viewD outer_advance)
  have "f (spu_dma_to_spu a k t) = f t" "f (spu_dma_to_ram a k t) = f t" for a k t
    using assms by (simp_all add: spu_dma_to_spu_def spu_dma_to_ram_def Let_def outer_viewD outer_advance)
  then have "f (fold (spu_dma_to_spu a) ks t) = f t" "f (fold (spu_dma_to_ram a) ks t) = f t" for a ks t
    by (auto intro: fold_fixed)
  then show "f (SPU_DMA4 m b c s) = f s" using assms by (simp add: SPU_DMA4_def Let_def outer_viewD)
qed

lemma outer_views: "outer_view (\<lambda>s :: 'a amachine_scheme. dma s)" "outer_view (\<lambda>s :: 'a amachine_scheme. bus_view s)"
proof -
  have d: "dma (SignalInterrupt 9 s) = dma s" and b: "bus_view (SignalInterrupt 9 s) = bus_view s" for s :: "'a amachine_scheme"
    using sound_viewD(1) [OF sound_views(3), of s] sound_viewD(1) [OF sound_views(4), of s] by simp_all
  show "outer_view (\<lambda>s :: 'a amachine_scheme. dma s)" by (simp add: outer_view_def d) (simp add: upd_spu_def)
  show "outer_view (\<lambda>s :: 'a amachine_scheme. bus_view s)"
    unfolding outer_view_def using b by (auto simp: upd_spu_def bus_view_def)
qed

interpretation spu_bus: sound_device "bus_view :: 'a amachine_scheme \<Rightarrow> _" SPU_ReadReg SPU_WriteReg SPU_DMA4
  by unfold_locales (rule outer_spu [OF outer_views(2)])+

interpretation spu_dma: sound_device "dma :: 'a amachine_scheme \<Rightarrow> _" SPU_ReadReg SPU_WriteReg SPU_DMA4
  by unfold_locales (rule outer_spu [OF outer_views(1)])+

text \<open>
  The sound processor on the bus. Put in place of the sound device that the bus and the DMA controller take as a parameter, the
  modelled processor keeps their contract: its registers and its transfers never touch the registers of the
  processor, its pending branch and load, the clock, or the DMA registers.
\<close>

theorem spu_keeps_bus_contract:
  fixes d :: "'a amachine_scheme devices"
  assumes "bus_devices d" "devices_keep dma d"
  shows "bus_devices (with_spu d) \<and> devices_keep dma (with_spu d)"
  using assms spu_bus.installed [of d] spu_dma.installed [of d] by (simp add: bus_devices_def with_spu_def)

section \<open>Invariant\<close>

lemma ptr_mask: "(w :: u32) AND 0x7FFFF < SPU_RAM_SIZE"
  unfolding SPU_RAM_SIZE_def by (rule le_less_trans [OF word_and_le1]) simp

lemma start_pointer: "push_bit 3 (ucast (v :: u16)) < SPU_RAM_SIZE"
proof -
  have "unat v < 2 ^ LENGTH(16)" by (rule unsigned_less)
  then have "unat (ucast v :: u32) < 65536" by (simp add: unsigned_ucast_eq take_bit_eq_mod)
  then show ?thesis by (simp add: SPU_RAM_SIZE_def push_bit_eq_mult word_less_nat_alt unat_word_ariths)
qed

lemma catch_up_spu_ok: "spu_ok s \<Longrightarrow> spu_ok (SPU_CatchUp s)"
  by (simp add: spu_ok_def catch_up_ok catch_up_fixed)

lemma advance_ok: "voices_ok s \<Longrightarrow> spu_ok (transfer_advance s)"
  by (simp add: spu_ok_def voices_ok_def voice_def ptr_mask)

lemma upd_ok: "(\<And>a. voices (f a) = voices a) \<Longrightarrow> (\<And>a. transfer_ptr (f a) = transfer_ptr a) \<Longrightarrow> spu_ok (upd_spu f s) = spu_ok s"
  by (simp add: spu_ok_def)

lemma write_spu_ok:
  fixes s :: "'a amachine_scheme"
  assumes "spu_ok s"
  shows "spu_ok (SPU_WriteReg r v s)"
proof -
  have kon: "spu_ok (spu_write_kon m t)" if "spu_ok t" for m and t :: "'a amachine_scheme"
    using that by (simp add: spu_write_kon_def upd_ok catch_up_spu_ok)
  have koff: "spu_ok (spu_write_koff m t)" if "spu_ok t" for m and t :: "'a amachine_scheme"
  proof -
    have "all_voices (let koff = m AND NOT (pending_kon a); a1 = a\<lparr>pending_kon := pending_kon a AND NOT m\<rparr>
        in if koff \<noteq> 0 then process_key_off koff a1 else a1)" if "all_voices a" for a
      using that process_ok(2) [of "a\<lparr>pending_kon := pending_kon a AND NOT m\<rparr>"] by (simp add: Let_def all_voices_def)
    moreover have "transfer_ptr (process_key_off k a) = transfer_ptr a" for k a
      using fixed_keys(2) [of k a] by (simp add: spu_fixed_def)
    ultimately show ?thesis
      using catch_up_spu_ok [OF that] by (simp add: spu_write_koff_def spu_ok_def voices_ok_all Let_def)
  qed
  have fifo: "spu_ok (spu_write_fifo x t)" if "spu_ok t" for x and t :: "'a amachine_scheme"
    using that by (auto simp: spu_write_fifo_def Let_def upd_ok intro!: advance_ok) (simp add: spu_ok_def)
  have cnt: "spu_ok (upd_spu (spu_write_cnt x) t)" if "spu_ok t" for x and t :: "'a amachine_scheme"
    using that by (simp add: upd_ok spu_write_cnt_def Let_def)
  have voice: "spu_ok (set_voice i (voice_write x y (voice i s)) s)" for i x y
    using assms voices_okI [of s] voice_write_ok [of "voice i s" x y] by (simp add: spu_ok_def voices_ok_def) (simp add: set_voice_def)
  have addr: "spu_ok (upd_spu (\<lambda>a. a\<lparr>transfer_addr := x, transfer_ptr := push_bit 3 (ucast x)\<rparr>) s)" for x
    using assms start_pointer [of x] by (simp add: spu_ok_def)
  show ?thesis
    using assms addr addr [of 0] by (simp add: SPU_WriteReg_def Let_def upd_ok kon koff fifo cnt voice catch_up_spu_ok)
qed

lemma dma_spu_ok:
  fixes s :: "'a amachine_scheme"
  assumes "spu_ok s"
  shows "spu_ok (SPU_DMA4 m b c s)"
proof -
  have "spu_ok (spu_dma_to_spu a k t)" "spu_ok (spu_dma_to_ram a k t)" if "spu_ok t" for a k and t :: "'a amachine_scheme"
    using that by (auto simp: spu_dma_to_spu_def spu_dma_to_ram_def Let_def intro!: advance_ok)
      (simp_all add: spu_ok_def voices_ok_def voice_def)
  then have "spu_ok (fold (spu_dma_to_spu a) ks t)" "spu_ok (fold (spu_dma_to_ram a) ks t)" if "spu_ok t" for a ks and t :: "'a amachine_scheme"
    using that by (auto intro!: fold_keeps [where P = spu_ok])
  then show ?thesis using catch_up_spu_ok [OF assms] by (simp add: SPU_DMA4_def Let_def)
qed

lemma generate_spu_ok: "spu_ok s \<Longrightarrow> spu_ok (SPU_GenerateChunk n s)"
  using generate_view [OF sound_views(1), of n s] generate_ok [of s n] by (simp add: spu_ok_def spu_fixed_def)

lemma flush_spu_ok: "spu_ok s \<Longrightarrow> spu_ok (upd_spu flush_pending_kon s)"
  using flush_ok [of "spu s"] fixed_keys(3) [of "spu s"] by (simp add: spu_ok_def voices_ok_all spu_fixed_def)

lemma voice_zero_ok: "voice_ok voice_zero"
  by (simp add: voice_ok_def adsr_ok_def voice_zero_def SPU_RAM_SIZE_def)

text \<open>
  C20. The invariant of the sound processor. In every voice the envelope stays between 0 and 0x8000 with its counter below the overflow, steps
  and rates keep the sign and size of their phase, decoded samples and history are 16-bit values, the position is inside
  the decoded block and the address inside sound memory; the transfer pointer is inside sound memory. The reset state
  has these bounds, and every operation keeps them: register writes and reads, transfers, catching up, the end of
  the frame.
\<close>

theorem spu_invariant:
  fixes s :: "'a amachine_scheme"
  assumes "spu_ok s"
  shows "spu_ok (SPU_WriteReg r v s) \<and> spu_ok (snd (SPU_ReadReg r s)) \<and> spu_ok (SPU_DMA4 m b c s) \<and> spu_ok (SPU_CatchUp s) \<and>
    spu_ok (SPU_FrameStart s) \<and> spu_ok (SPU_GenerateChunk n s) \<and> spu_ok (SPU_GenerateSamples s) \<and> spu_ok (SPU_Init x y s)"
proof -
  have fl: "spu_ok (upd_spu SPU_FlushAudio t) = spu_ok t" for t :: "'a amachine_scheme"
    using fixed_keys(4) by (intro upd_ok) (simp_all add: spu_fixed_def)
  have "spu_ok (SPU_GenerateSamples s)"
    using assms flush_spu_ok [OF assms] by (simp add: SPU_GenerateSamples_def Let_def fl upd_ok generate_spu_ok)
  moreover have "spu_ok (snd (SPU_ReadReg r s))" using assms catch_up_spu_ok [OF assms] by (simp add: SPU_ReadReg_def Let_def)
  moreover have "spu_ok (SPU_Init x y s)"
    by (simp add: SPU_Init_def spu_ok_def voices_ok_def voice_zero_ok SPU_RAM_SIZE_def Let_def)
  ultimately show ?thesis
    using assms by (simp add: write_spu_ok dma_spu_ok catch_up_spu_ok generate_spu_ok) (simp add: SPU_FrameStart_def upd_ok)
qed

text \<open>
  The mixer reads inside the decoded block. Every sample that a batch adds, and the single sample after it, is taken from the 28
  decoded samples of the block, whatever the pitch.
\<close>

theorem spu_sample_in_block:
  assumes "voices_ok s"
  shows "(\<forall>m. int m < batch_length (voice i s) (int remain) \<longrightarrow>
      unat (drop_bit 12 (sample_pos (voices (mix_run i cl cr k m (spu s)) i))) < length (decoded (voice i s))) \<and>
    unat (drop_bit 12 (sample_pos (voice i (snd (voice_batch i k remain s))))) < length (decoded (voice i (snd (voice_batch i k remain s))))"
proof -
  have v: "voice_ok (voice i s)" using assms by (simp add: voices_ok_def)
  have "unat (drop_bit 12 (sample_pos (voices (mix_run i cl cr k m (spu s)) i))) < 28"
    if "int m < batch_length (voice i s) (int remain)" for m
  proof -
    have "unat (sample_pos (voice i s)) + m * unat (pitch (voice i s)) < 28 * 2 ^ 12"
      using batch_bounds(4) [OF v _ that] by simp
    then have "unat (sample_pos (voice i s) + of_nat m * ucast (pitch (voice i s))) < 28 * 2 ^ 12"
      by (subst run_position) simp_all
    then show ?thesis using position_index by (simp add: mix_run_voice) (simp add: voice_def)
  qed
  moreover have "voice_ok (voice i (snd (voice_batch i k remain s)))"
    using voice_batch_ok [OF assms, of i k remain] by (simp add: voices_ok_def)
  ultimately show ?thesis using v position_index by (auto simp: voice_ok_def)
qed

section \<open>Volume\<close>

lemma to_s32_id: "- (2 ^ 31) \<le> x \<Longrightarrow> x < 2 ^ 31 \<Longrightarrow> to_s32 x = x"
  by (simp add: to_s32_def sint_of_u32_range)

text \<open>
  C23. The main volume. While the product of a mixed sample and the main volume fits in 32 bits, which two voices at most cannot
  break, the output is the scaled sample clamped to 16 bits. Three voices at full volume leave the range: the product wraps
  and the loudest positive sum is played as the most negative sample.
\<close>

theorem spu_main_volume:
  "(- 65536 \<le> m \<and> m \<le> 65536 \<longrightarrow> mix_and_clamp m (get_effective_volume vol) = clamp16 (m * get_effective_volume vol div 2 ^ 15)) \<and>
   mix_and_clamp (32766 + 32766 + 32766) (get_effective_volume 0x3FFF) = 32767 - 65535 \<and>
   clamp16 ((32766 + 32766 + 32766) * get_effective_volume 0x3FFF div 2 ^ 15) = 32767"
proof -
  have v: "0 \<le> get_effective_volume vol" "get_effective_volume vol \<le> 0x7FFF"
    by (simp_all add: get_effective_volume_def Let_def)
  have "mix_and_clamp m (get_effective_volume vol) = clamp16 (m * get_effective_volume vol div 2 ^ 15)"
    if m: "- 65536 \<le> m" "m \<le> 65536"
  proof -
    have "m * get_effective_volume vol \<le> 65536 * 0x7FFF" "- 65536 * 0x7FFF \<le> m * get_effective_volume vol"
    proof -
      have "m * get_effective_volume vol \<le> 65536 * get_effective_volume vol" using m v by (intro mult_right_mono) auto
      moreover have "- 65536 * get_effective_volume vol \<le> m * get_effective_volume vol" using m v by (intro mult_right_mono) auto
      ultimately show "m * get_effective_volume vol \<le> 65536 * 0x7FFF" "- 65536 * 0x7FFF \<le> m * get_effective_volume vol"
        using v by linarith+
    qed
    then have "to_s32 (m * get_effective_volume vol) = m * get_effective_volume vol" by (intro to_s32_id) simp_all
    then show ?thesis by (simp add: mix_and_clamp_def clamp16_def Let_def max_def min_def)
  qed
  moreover have full: "get_effective_volume 0x3FFF = 0x7FFE" by (simp add: get_effective_volume_def Let_def)
  have "mix_and_clamp (32766 + 32766 + 32766) (get_effective_volume 0x3FFF) = 32767 - 65535"
    by (simp add: full mix_and_clamp_def to_s32_def Let_def)
  moreover have "clamp16 ((32766 + 32766 + 32766) * get_effective_volume 0x3FFF div 2 ^ 15) = 32767"
    by (simp add: full clamp16_def)
  ultimately show ?thesis by blast
qed

section \<open>Key on and key off\<close>

lemma fold_voices:
  assumes "\<And>i a. f i a = (if bit m i then g i a else a)" "\<And>i a. voices (g i a) = (voices a)(i := h (voices a i))"
  shows "voices (fold f [0..<n] a) i = (if i < n \<and> bit m i then h (voices a i) else voices a i)"
  by (induction n) (auto simp: assms less_Suc_eq)

lemma process_voices:
  "voices (process_key_on m a) i = (if i < 24 \<and> bit m i then key_on_voice (voices a i) else voices a i)"
  "voices (process_key_off m a) i = (if i < 24 \<and> bit m i then key_off_voice (voices a i) else voices a i)"
proof -
  show "voices (process_key_on m a) i = (if i < 24 \<and> bit m i then key_on_voice (voices a i) else voices a i)"
    unfolding process_key_on_def SPU_NUM_VOICES_def
    by (rule fold_voices [where g = "\<lambda>i a. a\<lparr>voices := (voices a)(i := key_on_voice (voices a i)), endx := endx a AND NOT (push_bit i 1)\<rparr>"])
      simp_all
  show "voices (process_key_off m a) i = (if i < 24 \<and> bit m i then key_off_voice (voices a i) else voices a i)"
    unfolding process_key_off_def SPU_NUM_VOICES_def
    by (rule fold_voices [where g = "\<lambda>i a. a\<lparr>voices := (voices a)(i := key_off_voice (voices a i))\<rparr>"]) simp_all
qed

lemma fold_idle: "(\<And>x s. f x s = s) \<Longrightarrow> fold f xs s = s"
  by (induction xs) simp_all

lemma process_none: "process_key_on 0 a = a" "process_key_off 0 a = a"
  unfolding process_key_on_def process_key_off_def by (rule fold_idle; simp)+

lemma flush_eq: "flush_pending_kon a = (process_key_on (pending_kon a) a)\<lparr>pending_kon := 0\<rparr>"
  by (simp add: flush_pending_kon_def process_none)

lemma koff_eq: "spu_write_koff bits s =
    upd_spu (\<lambda>a. process_key_off (bits AND NOT (pending_kon a)) (a\<lparr>pending_kon := pending_kon a AND NOT bits\<rparr>)) (SPU_CatchUp s)"
  unfolding spu_write_koff_def by (rule arg_cong [where f = "\<lambda>f. upd_spu f (SPU_CatchUp s)"]) (auto simp: Let_def process_none)

lemma process_pending [simp]: "pending_kon (process_key_off m a) = pending_kon a" "endx (process_key_off m a) = endx a"
  unfolding process_key_off_def by (rule fold_fixed; simp)+

lemma process_endx: "endx (process_key_on m a) = endx a AND NOT (m AND 0xFFFFFF)"
proof -
  have "bit (endx (fold (\<lambda>i a. if bit m i
     then a\<lparr>voices := (voices a)(i := key_on_voice (voices a i)), endx := endx a AND NOT (push_bit i 1)\<rparr> else a) [0..<n] a)) k
    \<longleftrightarrow> bit (endx a) k \<and> \<not> (k < n \<and> bit m k)" if "n \<le> 32" "k < 32" for n k
    using that by (induction n) (auto simp: bit_simps less_Suc_eq)
  from this [of 24] have *: "bit (endx (process_key_on m a)) k \<longleftrightarrow> bit (endx a) k \<and> \<not> (k < 24 \<and> bit m k)" if "k < 32" for k
    using that by (simp add: process_key_on_def SPU_NUM_VOICES_def)
  have mask: "bit (0xFFFFFF :: u32) k \<longleftrightarrow> k < 24" for k
    using bit_mask_iff [where 'a = u32, of 24 k] by (auto simp: mask_eq_exp_minus_1 possible_bit_word)
  show ?thesis
    by (rule bit_word_eqI) (auto simp: * bit_simps mask simp del: bit_numeral_word_iff)
qed


section \<open>Release\<close>

definition releasing :: "SPU_Voice \<Rightarrow> bool" where
  "releasing v \<longleftrightarrow> adsr_ok v \<and> active v \<and> adsr_phase v = ADSR_RELEASE \<and> 1 \<le> adsr_ci v \<and> adsr_step v \<le> - 1"

definition release_measure :: "SPU_Voice \<Rightarrow> nat" where
  "release_measure v = nat (adsr_vol v * 0x8000 + (0x7FFF - adsr_counter v))"

lemma release_tick:
  assumes "releasing v"
  shows "adsr_phase (adsr_tick v) = ADSR_OFF \<and> \<not> active (adsr_tick v) \<or>
    releasing (adsr_tick v) \<and> release_measure (adsr_tick v) < release_measure v"
proof -
  have v: "adsr_ok v" "active v" "adsr_phase v = ADSR_RELEASE" "\<not> adsr_inc v" "1 \<le> adsr_ci v" "adsr_step v \<le> - 1"
    "0 \<le> adsr_vol v" "adsr_vol v \<le> 0x8000" "0 \<le> adsr_counter v" "adsr_counter v < 0x8000"
    using assms by (auto simp: releasing_def adsr_ok_def)
  have ok: "adsr_ok (adsr_tick v)" by (rule adsr_tick_ok [OF v(1,2)])
  have rate: "adsr_rate v = adsr_ci v" using v(4) by (simp add: adsr_rate_def)
  show ?thesis
  proof (cases "adsr_counter v + adsr_ci v < 0x8000")
    case True
    then have "adsr_tick v = v\<lparr>adsr_counter := adsr_counter v + adsr_ci v\<rparr>" by (simp add: adsr_tick_def rate)
    then show ?thesis using ok v True by (auto simp: releasing_def release_measure_def)
  next
    case False
    define w where "w = v\<lparr>adsr_counter := (adsr_counter v + adsr_ci v) mod 0x8000\<rparr>"
    have tick: "adsr_tick v = adsr_apply w" using False by (simp add: adsr_tick_def rate w_def)
    have e: "envelope_step w \<le> - 1 \<or> adsr_vol v = 0"
      using exp_step(3) [of "adsr_step v" "adsr_vol v"] v by (auto simp: envelope_step_def w_def adsr_ok_def)
    have e0: "envelope_step w \<le> 0" using exp_step(2) [of "adsr_step v" "adsr_vol v"] v by (auto simp: envelope_step_def w_def adsr_ok_def)
    define x where "x = adsr_vol v + envelope_step w"
    have ap: "adsr_apply w = (if max x 0 = 0 then (w\<lparr>adsr_phase := ADSR_OFF, active := False\<rparr>)\<lparr>adsr_vol := 0, adsr_level := 0\<rparr>
        else w\<lparr>adsr_vol := x, adsr_level := word_of_int x AND 0x7FFF\<rparr>)"
      using v(3) unfolding adsr_apply_step x_def by (auto simp: w_def Let_def max_def)
    show ?thesis
    proof (cases "max x 0 = 0")
      case True
      then show ?thesis by (simp add: tick ap)
    next
      case pos: False
      then have x: "1 \<le> x" "x \<le> adsr_vol v - 1" using e e0 v by (auto simp: x_def)
      have "adsr_counter w < 0x8000" "0 \<le> adsr_counter w" by (simp_all add: w_def)
      then have "nat (x * 0x8000 + (0x7FFF - adsr_counter w)) < nat (adsr_vol v * 0x8000 + (0x7FFF - adsr_counter v))"
        using x v by (subst nat_less_eq_zless) auto
      then show ?thesis using ok v pos by (simp add: tick ap releasing_def release_measure_def) (simp add: w_def)
    qed
  qed
qed

lemma release_ends:
  "releasing v \<Longrightarrow> \<exists>n\<le>release_measure v + 1. adsr_phase ((adsr_tick ^^ n) v) = ADSR_OFF \<and> \<not> active ((adsr_tick ^^ n) v)"
proof (induction "release_measure v" arbitrary: v rule: less_induct)
  case less
  from release_tick [OF less.prems] show ?case
  proof
    assume "adsr_phase (adsr_tick v) = ADSR_OFF \<and> \<not> active (adsr_tick v)"
    then show ?thesis by (intro exI [of _ 1]) simp
  next
    assume r: "releasing (adsr_tick v) \<and> release_measure (adsr_tick v) < release_measure v"
    then obtain n where "n \<le> release_measure (adsr_tick v) + 1" "adsr_phase ((adsr_tick ^^ n) (adsr_tick v)) = ADSR_OFF"
      "\<not> active ((adsr_tick ^^ n) (adsr_tick v))" using less.hyps by blast
    then show ?thesis using r by (intro exI [of _ "Suc n"]) (simp add: funpow_Suc_right del: funpow.simps)
  qed
qed

text \<open>
  C22. A released voice falls silent. After key off of a playing voice whose release shift is at most 26, the envelope reaches
  zero and the voice stops within about two to the thirtieth samples, linear or exponential; with larger shifts the counter
  increment is zero and the voice would hold its volume for ever.
\<close>

theorem spu_release_ends:
  assumes "adsr_ok v" "active v" "unat (adsr_hi v AND 0x1F) \<le> 26"
  shows "\<exists>n\<le>2 ^ 30 + 2 ^ 16. adsr_phase ((adsr_tick ^^ n) (key_off_voice v)) = ADSR_OFF \<and>
    \<not> active ((adsr_tick ^^ n) (key_off_voice v))"
proof -
  define w where "w = key_off_voice v"
  define s where "s = unat (adsr_hi v AND 0x1F)"
  have w: "w = adsr_reload_params (v\<lparr>adsr_phase := ADSR_RELEASE, adsr_counter := 0\<rparr>)"
    using assms(2) by (simp add: w_def key_off_voice_def)
  have ok: "adsr_ok w" unfolding w by (rule reload_ok) (use assms(1) in \<open>auto simp: adsr_ok_def\<close>)
  have "(1 :: int) \<le> 0x8000 div 2 ^ (s - 11)"
  proof -
    have "(2 :: int) ^ (s - 11) \<le> 2 ^ 15" using assms(3) by (intro power_increasing) (simp_all add: s_def)
    then have "(0x8000 :: int) div 2 ^ 15 \<le> 0x8000 div 2 ^ (s - 11)" by (intro zdiv_mono2) simp_all
    then show ?thesis by simp
  qed
  moreover have "(1 :: int) \<le> 8 * 2 ^ (11 - s)"
    using one_le_power [of "2 :: int" "11 - s"] by linarith
  ultimately have "1 \<le> adsr_ci w" "adsr_step w \<le> - 1"
    unfolding w by (auto simp: adsr_reload_params_def adsr_params_def Let_def s_def [symmetric])
  then have r: "releasing w" using ok assms(2) by (simp add: releasing_def) (simp add: w)
  have "release_measure w \<le> 2 ^ 30 + 2 ^ 15"
    using ok by (auto simp: release_measure_def adsr_ok_def)
  then have "release_measure w + 1 \<le> 2 ^ 30 + 2 ^ 16" by simp
  then show ?thesis using release_ends [OF r] unfolding w_def by (meson order_trans)
qed

text \<open>At sustain level 15 the envelope settles one above its range, and the level register reads zero.\<close>

lemma sustain_level_15:
  assumes "adsr_phase v = ADSR_DECAY" "adsr_sl v = 0x8000" "adsr_ok v" "active v"
  shows "adsr_phase (adsr_apply v) = ADSR_SUSTAIN" "adsr_vol (adsr_apply v) = 0x8000" "adsr_level (adsr_apply v) = 0"
proof -
  have "\<not> adsr_inc v" using assms by (auto simp: adsr_ok_def)
  then have "envelope_step v \<le> 0" using envelope_step_bounds [OF assms(3)] by simp
  then have "adsr_vol v + envelope_step v \<le> 0x8000" using assms(3) by (simp add: adsr_ok_def)
  then show "adsr_phase (adsr_apply v) = ADSR_SUSTAIN" "adsr_vol (adsr_apply v) = 0x8000" "adsr_level (adsr_apply v) = 0"
    unfolding adsr_apply_step using assms(1,2) by (simp_all add: Let_def)
qed

text \<open>An interrupt address that is an odd multiple of eight is never matched by a transfer.\<close>

lemma odd_irq_address_not_matched:
  assumes "bit v 0"
  shows "spu_irq_check (p AND NOT 0xF) (SPU_WriteReg 0xD2 v s) = SPU_WriteReg 0xD2 v s"
proof -
  have "bit (push_bit 3 (ucast v) :: u32) 3" "\<not> bit (p AND NOT 0xF) 3" using assms by (simp_all add: bit_simps)
  then have "p AND NOT 0xF \<noteq> push_bit 3 (ucast v)" by metis
  then show ?thesis by (simp add: spu_irq_check_def SPU_WriteReg_def)
qed

text \<open>A voice stops at an end flag before any sample of the block is added.\<close>

lemma end_block_not_played:
  assumes "active (voice i s)" "\<not> block_decoded (voice i s)" "\<not> active (voice i (spu_load_block i s))" "0 < n"
  shows "voice_loop i k n s = spu_load_block i s"
  using assms by (subst voice_loop.simps) simp

section \<open>The properties at concrete inputs\<close>

definition sound_machine :: "SPU_Voice \<Rightarrow> bool \<Rightarrow> amachine" where
  "sound_machine v on = machine_with \<lparr>branch_target = 0, branch_state = 0, binary_loaded = False,
     spu = \<lparr>spu_ram = (\<lambda>_. 0), voices = (\<lambda>i. if i = 0 then v else voice_zero), main_vol_l = 0x3FFF, main_vol_r = 0x3FFF,
       key_on_lo = 0, key_on_hi = 0, endx = 0xF, spu_cnt = 0, spu_stat = 0, transfer_addr = 0, transfer_ptr = 0, data_fifo = 0,
       pending_kon = 0, spu_reg_store = (\<lambda>_. 0), spu_irq_addr = 0, spu_irq_enabled = False, spu_irq_fired = False,
       mix_buf_l = (\<lambda>_. 0), mix_buf_r = (\<lambda>_. 0), spu_initialized = on, spu_samples_generated = 0,
       spu_frame_start_cycle = 0, prof_disable_spu = False, audio_played = []\<rparr>\<rparr>"

lemma sound_machine_spu [simp]:
  "voice 0 (sound_machine v on) = v" "voices (spu (sound_machine v on)) = (\<lambda>i. if i = 0 then v else voice_zero)"
  "transfer_ptr (spu (sound_machine v on)) = 0" "pending_kon (spu (sound_machine v on)) = 0" "endx (spu (sound_machine v on)) = 0xF"
  by (simp_all add: sound_machine_def voice_def machine_with_def dmachine_with_def cmachine_with_def smachine_with_def tmachine_with_def)

lemma sound_machine_silent: "SPU_CatchUp (sound_machine v False) = sound_machine v False"
  by (simp add: SPU_CatchUp_def sound_machine_def machine_with_def dmachine_with_def cmachine_with_def smachine_with_def tmachine_with_def)

definition first_voice :: SPU_Voice where "first_voice = key_on_voice (voice_zero\<lparr>vol_l := 0x3FFF, pitch := 0x1000\<rparr>)"

lemma first_voice_simp: "first_voice = voice_zero\<lparr>vol_l := 0x3FFF, pitch := 0x1000, active := True,
   adsr_ci := 0x8000, adsr_step := 7 * 2 ^ 11, adsr_inc := True, adsr_sl := 0x800\<rparr>"
  by (simp add: first_voice_def key_on_voice_def voice_zero_def adsr_reload_params_def adsr_params_def Let_def)

lemma first_voice_ok: "voice_ok first_voice" "adsr_ok first_voice" "voice_inv first_voice"
  by (simp_all add: first_voice_simp voice_inv_def voice_ok_def adsr_ok_def voice_zero_def SPU_RAM_SIZE_def rates_move_def)

lemma sound_machine_ok: "voices_ok (sound_machine first_voice on)" "spu_ok (sound_machine first_voice on)"
  using first_voice_ok(1) voice_zero_ok by (simp_all add: voices_ok_def spu_ok_def voice_def SPU_RAM_SIZE_def)


theorem spu_invariant_witness: "spu_ok (SPU_GenerateChunk 735 (sound_machine first_voice True))"
  using spu_invariant [OF sound_machine_ok(2)] by blast

theorem spu_sample_in_block_witness:
  "unat (drop_bit 12 (sample_pos (voice 0 (snd (voice_batch 0 0 735 (sound_machine first_voice True)))))) <
    length (decoded (voice 0 (snd (voice_batch 0 0 735 (sound_machine first_voice True)))))"
  using spu_sample_in_block [OF sound_machine_ok(1)] by blast

theorem spu_mixing_sample_by_sample_witness:
  "voice_loop 0 0 735 (sound_machine first_voice True) = fold (voice_sample 0) [0..<735] (sound_machine first_voice True)"
  using spu_mixing_sample_by_sample [of 0 "sound_machine first_voice True" 0 735] first_voice_ok(3) by simp

theorem spu_release_ends_witness:
  "\<exists>n\<le>2 ^ 30 + 2 ^ 16. adsr_phase ((adsr_tick ^^ n) (key_off_voice first_voice)) = ADSR_OFF"
  using spu_release_ends [OF first_voice_ok(2)] by (auto simp: first_voice_simp voice_zero_def)


theorem spu_main_volume_witness: "mix_and_clamp 40000 (get_effective_volume 0x3FFF) = 32767"
  using spu_main_volume [of 40000 "0x3FFF"] by (simp add: clamp16_def get_effective_volume_def bit_simps)

theorem spu_transfer_roundtrip_witness:
  "psx_ram (SPU_DMA4 0x2000 0x00010004 0x01000200 (SPU_WriteReg 0xD3 0 (SPU_DMA4 0x1000 0x00010004 0x01000201
     (sound_machine voice_zero False)))) 0x200F = psx_ram (sound_machine voice_zero False) 0x100F"
  using spu_transfer_roundtrip [of "sound_machine voice_zero False" 0 16 "0x00010004" "0x1000" "0x2000"]
  by (auto simp: Let_def spu_dma_words_def dest: spec [of _ 15])

theorem spu_keeps_bus_contract_witness:
  "bus_devices (with_spu (idle_devices :: amachine devices)) \<and> devices_keep dma (with_spu (idle_devices :: amachine devices))"
  by (rule spu_keeps_bus_contract) (simp_all add: bus_devices_def idle_devices_keep)

end
