(* ===== verification/Mdec.thy ===== *)
theory Mdec
  imports Spu_Laws
begin

text \<open>
  The motion decoder of \<^verbatim>\<open>src/mdec.c\<close>, built without the hardware decoders: the register state
  machine, the run-length decoder, both inverse transforms, the conversions to pixels and the two transfer channels.

  C integers are 32-bit words with the signed view where the code shifts right or compares: the values of a stream
  can make its products overflow, and they wrap. The pointer to the compressed data points into main memory or into
  the manual input buffer; it is an object and a byte offset, on the 32-bit hosts of the program. The decoder does
  not check the end of the data inside a macroblock: it goes on reading the object, and reading past the object itself is
  undefined in C, which is \<open>None\<close> here. Diagnostics are left out.
\<close>

section \<open>Tables\<close>

definition zscan :: "nat list" where
  "zscan = [
     0,  1,  8, 16,  9,  2,  3, 10,
    17, 24, 32, 25, 18, 11,  4,  5,
    12, 19, 26, 33, 40, 48, 41, 34,
    27, 20, 13,  6,  7, 14, 21, 28,
    35, 42, 49, 56, 57, 50, 43, 36,
    29, 22, 15, 23, 30, 37, 44, 51,
    58, 59, 52, 45, 38, 31, 39, 46,
    53, 60, 61, 54, 47, 55, 62, 63]"

definition aanscales :: "u32 list" where
  "aanscales = [
    1048576, 1454417, 1370031, 1232995, 1048576,  823861, 567485, 289301,
    1454417, 2017334, 1900287, 1710213, 1454417, 1142728, 787125, 401273,
    1370031, 1900287, 1790031, 1610986, 1370031, 1076426, 741455, 377991,
    1232995, 1710213, 1610986, 1449849, 1232995,  968758, 667292, 340183,
    1048576, 1454417, 1370031, 1232995, 1048576,  823861, 567485, 289301,
     823861, 1142728, 1076426,  968758,  823861,  647303, 445870, 227303,
     567485,  787125,  741455,  667292,  567485,  445870, 307121, 156569,
     289301,  401273,  377991,  340183,  289301,  227303, 156569,  79818]"

text \<open>The fixed-point macros.\<close>

definition SCALER :: "u32 \<Rightarrow> nat \<Rightarrow> u32" where
  "SCALER x n = signed_drop_bit n (x + drop_bit 1 (push_bit n 1))"

definition MULS :: "u32 \<Rightarrow> u32 \<Rightarrow> u32" where
  "MULS v c = signed_drop_bit 12 (v * c)"

definition FIX_1_082392200 :: u32 where "FIX_1_082392200 = SCALER 18159528 12"
definition FIX_1_414213562 :: u32 where "FIX_1_414213562 = SCALER 23726566 12"
definition FIX_1_847759065 :: u32 where "FIX_1_847759065 = SCALER 31000253 12"
definition FIX_2_613125930 :: u32 where "FIX_2_613125930 = SCALER 43840978 12"

definition RLE_RUN :: "u16 \<Rightarrow> nat" where "RLE_RUN hw = unat (drop_bit 10 hw)"
definition RLE_VAL :: "u16 \<Rightarrow> u32" where "RLE_VAL hw = signed_drop_bit 22 (push_bit 22 (ucast hw))"

type_synonym table = "nat \<Rightarrow> u32"
type_synonym block = "nat \<Rightarrow> u32"

definition iqtab_init :: "(nat \<Rightarrow> u8) \<Rightarrow> table" where
  "iqtab_init qt = (\<lambda>i. if i < 64 then ucast (qt i) * SCALER (aanscales ! (zscan ! i)) 4 else 0)"

definition aan_only_init :: table where
  "aan_only_init = (\<lambda>i. if i < 64 then SCALER (aanscales ! i) 4 else 0)"

section \<open>Inverse transforms\<close>

text \<open>The transform by the uploaded matrix, for blocks with quantiser scale zero.\<close>

definition matrix_sum :: "(nat \<Rightarrow> u32) \<Rightarrow> (nat \<Rightarrow> u16) \<Rightarrow> u32" where
  "matrix_sum v w =
     signed_drop_bit 13 (fold (\<lambda>z sum. sum + v z * signed_drop_bit 3 (scast (w z))) [0..<8] 0 + 0xFFF)"

definition real_idct_core :: "(nat \<Rightarrow> u16) \<Rightarrow> block \<Rightarrow> block" where
  "real_idct_core st blk =
     (let tmp = (\<lambda>k. matrix_sum (\<lambda>z. blk (k mod 8 + z * 8)) (\<lambda>z. st (k div 8 + z * 8)))
      in (\<lambda>k. matrix_sum (\<lambda>z. tmp (z + k div 8 * 8)) (\<lambda>z. st (k mod 8 + z * 8))))"

text \<open>Eight values through the butterfly of either pass of the fast transform.\<close>

definition aan_pass :: "(nat \<Rightarrow> u32) \<Rightarrow> u32 list" where
  "aan_pass p =
     (let z10 = p 0 + p 4; z11 = p 0 - p 4; z13 = p 2 + p 6; z12 = MULS (p 2 - p 6) FIX_1_414213562 - z13;
          tmp0 = z10 + z13; tmp3 = z10 - z13; tmp1 = z11 + z12; tmp2 = z11 - z12;
          z13 = p 3 + p 5; z10 = p 3 - p 5; z11 = p 1 + p 7; z12 = p 1 - p 7;
          tmp7 = z11 + z13; z5 = (z12 - z10) * FIX_1_847759065;
          tmp6 = signed_drop_bit 12 (z10 * FIX_2_613125930 + z5) - tmp7;
          tmp5 = MULS (z11 - z13) FIX_1_414213562 - tmp6;
          tmp4 = signed_drop_bit 12 (z12 * FIX_1_082392200 - z5) + tmp5
      in [tmp0 + tmp7, tmp1 + tmp6, tmp2 + tmp5, tmp3 - tmp4, tmp3 + tmp4, tmp2 - tmp5, tmp1 - tmp6, tmp0 - tmp7])"

definition put_column :: "nat \<Rightarrow> (nat \<Rightarrow> u32) \<Rightarrow> block \<Rightarrow> block" where
  "put_column i v blk = (\<lambda>k. if k < 64 \<and> k mod 8 = i then v (k div 8) else blk k)"

definition put_row :: "nat \<Rightarrow> (nat \<Rightarrow> u32) \<Rightarrow> block \<Rightarrow> block" where
  "put_row i v blk = (\<lambda>k. if k < 64 \<and> k div 8 = i then v (k mod 8) else blk k)"

definition idct_column :: "nat \<Rightarrow> block \<times> u32 \<Rightarrow> block \<times> u32" where
  "idct_column i s =
     (let (blk, used_col) = s
      in if \<not> bit used_col i
         then if blk i \<noteq> 0 then (put_column i (\<lambda>_. blk i) blk, used_col OR push_bit i 1) else (blk, used_col)
         else (put_column i (\<lambda>j. aan_pass (\<lambda>j. blk (i + 8 * j)) ! j) blk, used_col))"

definition idct :: "block \<Rightarrow> u32 \<Rightarrow> block" where
  "idct blk used_col =
     (if used_col = - 1 then (\<lambda>k. if k < 64 then blk 0 else blk k)
      else let (c, used) = fold idct_column [0..<8] (blk, used_col)
      in if used = 1 then fold (\<lambda>i b. put_row i (\<lambda>_. b (8 * i)) b) [0..<8] c
         else fold (\<lambda>i b. put_row i (\<lambda>j. aan_pass (\<lambda>j. b (8 * i + j)) ! j) b) [0..<8] c)"

section \<open>The compressed stream\<close>

text \<open>The halfword at a byte offset of the object the stream lies in.\<close>

datatype rl_object = RL_RAM bytes | RL_BUF "nat \<Rightarrow> u16"

definition rl_limit :: "rl_object \<Rightarrow> nat" where
  "rl_limit m = (case m of RL_RAM _ \<Rightarrow> 0x200000 | RL_BUF _ \<Rightarrow> 2 * 8192)"

definition rl_fetch :: "rl_object \<Rightarrow> u32 \<Rightarrow> u16 option" where
  "rl_fetch m rl =
     (if unat rl + 2 \<le> rl_limit m
      then Some (case m of RL_RAM ram \<Rightarrow> load16 ram rl | RL_BUF buf \<Rightarrow> buf (unat rl div 2)) else None)"

lemma rl_fetch_limit: "rl_fetch m rl = Some h \<Longrightarrow> unat rl + 2 \<le> rl_limit m"
  by (auto simp: rl_fetch_def split: if_splits)

lemma rl_limit_le: "rl_limit m \<le> 0x200000"
  by (simp add: rl_limit_def split: rl_object.split)

lemma rl_fetch_step: "rl_fetch m rl = Some h \<Longrightarrow> unat (rl + 2) = unat rl + 2 \<and> unat rl + 2 \<le> rl_limit m"
  using rl_fetch_limit [of m rl h] rl_limit_le [of m] by (simp add: unat_word_ariths)

text \<open>Skip the padding between blocks.\<close>

function skip_padding :: "rl_object \<Rightarrow> u32 \<Rightarrow> u32 option" where
  "skip_padding m rl =
     (case rl_fetch m rl of None \<Rightarrow> None
      | Some hw \<Rightarrow> if hw = 0xFE00 then skip_padding m (rl + 2) else Some rl)"
  by auto

termination
  by (relation "measure (\<lambda>(m, rl). rl_limit m - unat rl)") (auto dest: rl_fetch_step)

declare skip_padding.simps [simp del]

text \<open>The level of a block without quantisation, and of one with it.\<close>

definition raw_level :: "u16 \<Rightarrow> u32" where
  "raw_level hw =
     (let val = RLE_VAL hw * 2
      in if sint val < - 0x400 then - 0x400 else if sint val > 0x3FF then 0x3FF else val)"

function raw_coefficients :: "rl_object \<Rightarrow> nat \<Rightarrow> block \<times> u32 \<Rightarrow> (block \<times> u32) option" where
  "raw_coefficients m k (blk, rl) =
     (if 63 \<le> k then Some (blk, rl)
      else case rl_fetch m rl of None \<Rightarrow> None
      | Some hw \<Rightarrow> let k = k + RLE_RUN hw + 1
          in raw_coefficients m k (if k < 64 then blk(k := raw_level hw) else blk, rl + 2))"
  by pat_completeness auto

termination
  by (relation "measure (\<lambda>(m, k, _). 63 - k)") auto

function coefficients :: "rl_object \<Rightarrow> table \<Rightarrow> u32 \<Rightarrow> nat \<Rightarrow> block \<times> u32 \<times> u32 \<Rightarrow> (block \<times> u32 \<times> u32) option" where
  "coefficients m iqtab q_scale k (blk, used_col, rl) =
     (if 63 \<le> k then Some (blk, used_col, rl)
      else case rl_fetch m rl of None \<Rightarrow> None
      | Some hw \<Rightarrow> let k = k + RLE_RUN hw + 1; z = zscan ! k
          in coefficients m iqtab q_scale k
               (if k < 64
                then (blk(z := SCALER (RLE_VAL hw * iqtab k * q_scale) 12),
                      if z > 7 then used_col OR push_bit (z mod 8) 1 else used_col, rl + 2)
                else (blk, used_col, rl + 2)))"
  by pat_completeness auto

termination
  by (relation "measure (\<lambda>(m, _, _, k, _). 63 - k)") auto

declare raw_coefficients.simps [simp del] coefficients.simps [simp del]

text \<open>
  One block: its samples and the stream after it. The test for a block with only its first coefficient looks for
  \<open>k = 0\<close> after the loop, where \<open>k\<close> is at least 63.
\<close>

definition decode_block :: "rl_object \<Rightarrow> (nat \<Rightarrow> u16) \<Rightarrow> table \<Rightarrow> u32 \<Rightarrow> (block \<times> u32) option" where
  "decode_block m st iqtab rl0 =
     (case skip_padding m rl0 of None \<Rightarrow> None | Some rl \<Rightarrow>
      case rl_fetch m rl of None \<Rightarrow> None | Some hw \<Rightarrow>
      let q_scale = RLE_RUN hw; rl = rl + 2
      in if q_scale = 0
         then case raw_coefficients m 0 ((\<lambda>_. 0)(0 := raw_level hw), rl) of None \<Rightarrow> None
              | Some (blk, rl) \<Rightarrow> Some (\<lambda>k. push_bit 10 (real_idct_core st blk k), rl)
         else case coefficients m iqtab (of_nat q_scale) 0 ((\<lambda>_. 0)(0 := SCALER (RLE_VAL hw * iqtab 0) 9), 0, rl) of
                None \<Rightarrow> None
              | Some (blk, used_col, rl) \<Rightarrow> Some (idct blk used_col, rl))"

text \<open>A macroblock of six blocks, the two colour blocks first, and a single block.\<close>

definition rl2blk :: "rl_object \<Rightarrow> (nat \<Rightarrow> u16) \<Rightarrow> table \<Rightarrow> table \<Rightarrow> u32 \<Rightarrow> (block \<times> u32) option" where
  "rl2blk m st iq_y iq_uv rl =
     fold (\<lambda>i r. case r of None \<Rightarrow> None | Some (blk, rl) \<Rightarrow>
        (case decode_block m st (if i < 2 then iq_uv else iq_y) rl of None \<Rightarrow> None
         | Some (b, rl) \<Rightarrow> Some (\<lambda>k. if 64 * i \<le> k \<and> k < 64 * i + 64 then b (k - 64 * i) else blk k, rl)))
       [0..<6] (Some (\<lambda>_. 0, rl))"

definition rl2blk_mono :: "rl_object \<Rightarrow> (nat \<Rightarrow> u16) \<Rightarrow> table \<Rightarrow> u32 \<Rightarrow> (block \<times> u32) option" where
  "rl2blk_mono m st iq_y rl = decode_block m st iq_y rl"

section \<open>Pixels\<close>

definition clamp_to :: "int \<Rightarrow> u32 \<Rightarrow> u32" where
  "clamp_to m v = (if sint v < 0 then 0 else if sint v > m then word_of_int m else v)"

definition mono_level :: "bool \<Rightarrow> u32 \<Rightarrow> u32" where
  "mono_level signed_out x =
     (let v = SCALER x 10 in clamp_to 255 (if \<not> signed_out then v + 128 else v))"

definition y_to_mono8 :: "block \<Rightarrow> bool \<Rightarrow> u8 list" where
  "y_to_mono8 blk signed_out = map (\<lambda>i. ucast (mono_level signed_out (blk i))) [0..<64]"

definition y_to_mono4 :: "block \<Rightarrow> bool \<Rightarrow> u8 list" where
  "y_to_mono4 blk signed_out =
     map (\<lambda>i. ucast ((drop_bit 4 (mono_level signed_out (blk (2 * i))) AND 0x0F)
        OR (mono_level signed_out (blk (2 * i + 1)) AND 0xF0))) [0..<32]"

definition MULR :: "u32 \<Rightarrow> u32" where "MULR a = 1434 * a"
definition MULB :: "u32 \<Rightarrow> u32" where "MULB a = 1807 * a"
definition MULG2 :: "u32 \<Rightarrow> u32 \<Rightarrow> u32" where "MULG2 a b = - 351 * a - 728 * b"
definition MULY :: "u32 \<Rightarrow> u32" where "MULY a = push_bit 10 a"

definition clamp5 :: "u32 \<Rightarrow> u32" where "clamp5 v = clamp_to 31 (v + 16)"
definition clamp8 :: "u32 \<Rightarrow> u32" where "clamp8 v = clamp_to 255 (v + 128)"

definition CLAMP_SCALE5 :: "u32 \<Rightarrow> u32" where "CLAMP_SCALE5 a = clamp5 (SCALER a 23)"
definition CLAMP_SCALE8 :: "u32 \<Rightarrow> u32" where "CLAMP_SCALE8 a = clamp8 (SCALER a 20)"

definition MAKERGB15 :: "u32 \<Rightarrow> u32 \<Rightarrow> u32 \<Rightarrow> u32 \<Rightarrow> u16" where
  "MAKERGB15 r g b a = ucast (a OR push_bit 10 b OR push_bit 5 g OR r)"

definition pixel15 :: "u32 \<Rightarrow> u32 \<Rightarrow> u32 \<Rightarrow> u32 \<Rightarrow> u16" where
  "pixel15 stp y cb cr =
     MAKERGB15 (CLAMP_SCALE5 (MULY y + MULR cr)) (CLAMP_SCALE5 (MULY y + MULG2 cb cr)) (CLAMP_SCALE5 (MULY y + MULB cb)) stp"

definition pixel24 :: "u32 \<Rightarrow> u32 \<Rightarrow> u32 \<Rightarrow> u8 list" where
  "pixel24 y cb cr =
     [ucast (CLAMP_SCALE8 (MULY y + MULR cr)), ucast (CLAMP_SCALE8 (MULY y + MULG2 cb cr)), ucast (CLAMP_SCALE8 (MULY y + MULB cb))]"

text \<open>
  The loops over the image, two rows and two columns at a time: a list of the pixels in the order they are stored, each with
  its place in the image, its luminance and its colour in the six blocks. The pointers of the loops are written out.
\<close>

definition pixel_stores :: "nat \<Rightarrow> nat \<Rightarrow> (nat \<times> nat \<times> nat) list" where
  "pixel_stores y x =
     (let p = 32 * (y div 2) + 2 * x; Cr = 8 * (y div 2) + x;
          Y = 128 + 16 * (y div 2) + (if 8 \<le> y then 64 else 0) + 2 * x
      in [(p, Y, Cr), (p + 1, Y + 1, Cr), (p + 16, Y + 8, Cr), (p + 17, Y + 9, Cr),
          (p + 8, Y + 64, Cr + 4), (p + 9, Y + 65, Cr + 4), (p + 24, Y + 72, Cr + 4), (p + 25, Y + 73, Cr + 4)])"

definition image_stores :: "(nat \<times> nat \<times> nat) list" where
  "image_stores = concat (map (\<lambda>y. concat (map (pixel_stores y) [0..<4])) [0, 2, 4, 6, 8, 10, 12, 14])"

definition yuv2rgb15 :: "u32 \<Rightarrow> block \<Rightarrow> nat \<Rightarrow> u16" where
  "yuv2rgb15 command blk =
     (let stp = (if command AND 0x02000000 \<noteq> 0 then 0x8000 else 0)
      in fold (\<lambda>(p, y, c) img. img(p := pixel15 stp (blk y) (blk (64 + c)) (blk c))) image_stores (\<lambda>_. 0))"

definition yuv2rgb24 :: "block \<Rightarrow> nat \<Rightarrow> u8" where
  "yuv2rgb24 blk =
     fold (\<lambda>(p, y, c) img. let v = pixel24 (blk y) (blk (64 + c)) (blk c)
       in img(3 * p := v ! 0, 3 * p + 1 := v ! 1, 3 * p + 2 := v ! 2)) image_stores (\<lambda>_. 0)"

text \<open>From raster order to the four blocks in turn, and halfwords as bytes.\<close>

definition raster_to_block_15 :: "(nat \<Rightarrow> u16) \<Rightarrow> nat \<Rightarrow> u16" where
  "raster_to_block_15 tmp =
     (let quarter = (\<lambda>r c. concat (map (\<lambda>y. map (\<lambda>x. tmp ((y + r) * 16 + c + x)) [0..<8]) [0..<8]));
          dst = quarter 0 0 @ quarter 0 8 @ quarter 8 0 @ quarter 8 8
      in (\<lambda>k. dst ! k))"

definition halfword_bytes :: "(nat \<Rightarrow> u16) \<Rightarrow> u8 list" where
  "halfword_bytes img = concat (map (\<lambda>k. [ucast (img k), ucast (drop_bit 8 (img k))]) [0..<256])"

definition block_bytes :: "nat \<Rightarrow> nat" where
  "block_bytes depth = (if depth = 0 then 32 else if depth = 1 then 64 else if depth = 2 then 768 else 512)"


section \<open>State\<close>

datatype rl_source = RL_NULL | IN_RAM | IN_BUF

datatype mdec_fifo_state = MDEC_STATE_IDLE | MDEC_STATE_RECV_QUANT | MDEC_STATE_RECV_SCALE | MDEC_STATE_RECV_DATA

record mdec_state =
  reg0 :: u32
  reg1 :: u32
  rl_source :: rl_source
  rl_pos :: u32
  rl_end :: u32
  block_buffer_pos :: "nat option"
  block_buffer :: "nat \<Rightarrow> u8"
  pending_adr :: u32
  pending_bcr :: u32
  pending_chcr :: u32
  out_pos :: nat
  out_end :: nat
  remaining_words :: nat
  fifo_state :: mdec_fifo_state
  fifo_remaining :: int
  qt_buffer :: "nat \<Rightarrow> u8"
  qt_pos :: nat
  qt_has_uv :: bool
  scale_staging :: "nat \<Rightarrow> u16"
  scale_pos :: nat
  iq_y :: table
  iq_uv :: table
  aan_only :: table
  scale_table :: "nat \<Rightarrow> u16"
  mdec_in_buf :: "nat \<Rightarrow> u16"
  mdec_in_write_idx :: nat

record vmachine = amachine +
  mdec :: mdec_state

definition upd_mdec :: "(mdec_state \<Rightarrow> mdec_state) \<Rightarrow> 'a vmachine_scheme \<Rightarrow> 'a vmachine_scheme" where
  "upd_mdec f s = s\<lparr>mdec := f (mdec s)\<rparr>"

definition MDEC_IN_BUF_SIZE :: nat where "MDEC_IN_BUF_SIZE = 8192"
definition MDEC_FIFO_THRESHOLD :: nat where "MDEC_FIFO_THRESHOLD = 64"
definition MDEC1_BUSY :: u32 where "MDEC1_BUSY = 0x20000000"
definition MDEC1_STP :: u32 where "MDEC1_STP = 0x00800000"

definition MDEC_Init :: "'a vmachine_scheme \<Rightarrow> 'a vmachine_scheme" where
  "MDEC_Init = upd_mdec (\<lambda>m. m\<lparr>reg0 := 0, reg1 := 0, rl_source := RL_NULL, rl_pos := 0, rl_end := 0, block_buffer_pos := None,
     block_buffer := (\<lambda>_. 0), pending_adr := 0, pending_bcr := 0, pending_chcr := 0, out_pos := 0, out_end := 0,
     remaining_words := 0, fifo_state := MDEC_STATE_IDLE, fifo_remaining := 0, qt_buffer := (\<lambda>_. 0), qt_pos := 0,
     qt_has_uv := False, scale_staging := (\<lambda>_. 0), scale_pos := 0, iq_y := (\<lambda>_. 0), iq_uv := (\<lambda>_. 0),
     aan_only := aan_only_init\<rparr>)"

section \<open>Commands\<close>

text \<open>A parameter word in each of the receiving states.\<close>

definition mdec_receive_data :: "u32 \<Rightarrow> mdec_state \<Rightarrow> mdec_state" where
  "mdec_receive_data data m =
     (let i = mdec_in_write_idx m;
          m1 = (if i + 2 \<le> MDEC_IN_BUF_SIZE
                then m\<lparr>mdec_in_buf := (mdec_in_buf m)(i := ucast data, i + 1 := ucast (drop_bit 16 data)),
                       mdec_in_write_idx := i + 2, rl_end := of_nat (2 * (i + 2))\<rparr> else m)
      in if remaining_words m1 > 0
         then let m2 = m1\<lparr>remaining_words := remaining_words m1 - 1\<rparr>
              in if remaining_words m2 = 0 then m2\<lparr>fifo_state := MDEC_STATE_IDLE\<rparr> else m2
         else m1)"

definition mdec_receive_quant :: "u32 \<Rightarrow> mdec_state \<Rightarrow> mdec_state" where
  "mdec_receive_quant data m =
     (let p = qt_pos m;
          m1 = (if p + 4 \<le> 128
                then m\<lparr>qt_buffer := (qt_buffer m)(p := ucast data, p + 1 := ucast (drop_bit 8 data),
                         p + 2 := ucast (drop_bit 16 data), p + 3 := ucast (drop_bit 24 data)), qt_pos := p + 4\<rparr> else m);
          m2 = m1\<lparr>fifo_remaining := fifo_remaining m1 - 1\<rparr>
      in if fifo_remaining m2 \<le> 0
         then m2\<lparr>iq_y := iqtab_init (qt_buffer m2),
                 iq_uv := iqtab_init (if qt_has_uv m2 then (\<lambda>i. qt_buffer m2 (64 + i)) else qt_buffer m2),
                 fifo_state := MDEC_STATE_IDLE\<rparr>
         else m2)"

definition mdec_receive_scale :: "u32 \<Rightarrow> mdec_state \<Rightarrow> mdec_state" where
  "mdec_receive_scale data m =
     (let p = scale_pos m;
          m1 = (if p + 2 \<le> 64
                then m\<lparr>scale_staging := (scale_staging m)(p := ucast data, p + 1 := ucast (drop_bit 16 data)),
                       scale_pos := p + 2\<rparr> else m);
          m2 = m1\<lparr>fifo_remaining := fifo_remaining m1 - 1\<rparr>
      in if fifo_remaining m2 \<le> 0
         then m2\<lparr>scale_table := (\<lambda>i. if i < 64 then scale_staging m2 i else scale_table m2 i), fifo_state := MDEC_STATE_IDLE\<rparr>
         else m2)"

definition mdec_new_command :: "u32 \<Rightarrow> mdec_state \<Rightarrow> mdec_state" where
  "mdec_new_command data m0 =
     (let m = m0\<lparr>reg0 := data\<rparr>; command = drop_bit 29 data AND 7
      in if command = 1
         then let n = unat (data AND 0xFFFF)
              in m\<lparr>reg1 := reg1 m OR MDEC1_BUSY, remaining_words := (if n = 0 then 0x10000 else n), out_pos := 0, out_end := 0,
                   mdec_in_write_idx := 0, rl_source := IN_BUF, rl_pos := 0, rl_end := 0, fifo_state := MDEC_STATE_RECV_DATA\<rparr>
         else if command = 2
         then m\<lparr>fifo_state := MDEC_STATE_RECV_QUANT, qt_has_uv := bit data 0, fifo_remaining := (if bit data 0 then 32 else 16),
                qt_pos := 0\<rparr>
         else if command = 3 then m\<lparr>fifo_state := MDEC_STATE_RECV_SCALE, fifo_remaining := 32, scale_pos := 0\<rparr>
         else m)"

definition MDEC_WriteCommand :: "u32 \<Rightarrow> 'a vmachine_scheme \<Rightarrow> 'a vmachine_scheme" where
  "MDEC_WriteCommand data = upd_mdec (\<lambda>m. case fifo_state m of
       MDEC_STATE_RECV_DATA \<Rightarrow> mdec_receive_data data m
     | MDEC_STATE_RECV_QUANT \<Rightarrow> mdec_receive_quant data m
     | MDEC_STATE_RECV_SCALE \<Rightarrow> mdec_receive_scale data m
     | MDEC_STATE_IDLE \<Rightarrow> mdec_new_command data m)"

definition MDEC_WriteControl :: "u32 \<Rightarrow> 'a vmachine_scheme \<Rightarrow> 'a vmachine_scheme" where
  "MDEC_WriteControl data s =
     (if data AND 0x80000000 \<noteq> 0
      then upd_mdec (\<lambda>m. m\<lparr>reg0 := 0, reg1 := 0, rl_source := RL_NULL, rl_pos := 0, rl_end := 0, pending_adr := 0,
             block_buffer_pos := None, out_pos := 0, out_end := 0, remaining_words := 0, fifo_state := MDEC_STATE_IDLE,
             mdec_in_write_idx := 0\<rparr>) s
      else s)"

section \<open>Output through the register\<close>

definition mdec_depth :: "mdec_state \<Rightarrow> nat" where "mdec_depth m = unat (drop_bit 27 (reg0 m) AND 3)"
definition mdec_signed :: "mdec_state \<Rightarrow> bool" where "mdec_signed m = bit (reg0 m) 26"

definition mdec_has_input :: "mdec_state \<Rightarrow> bool" where
  "mdec_has_input m \<longleftrightarrow> rl_source m \<noteq> RL_NULL \<and> rl_pos m < rl_end m"

definition mdec_object :: "'a vmachine_scheme \<Rightarrow> rl_object" where
  "mdec_object s = (if rl_source (mdec s) = IN_RAM then RL_RAM (psx_ram s) else RL_BUF (mdec_in_buf (mdec s)))"

text \<open>The next macroblock, as the bytes of its image in raster order, and the stream after it.\<close>

definition mdec_macroblock :: "'a vmachine_scheme \<Rightarrow> (u8 list \<times> u32) option" where
  "mdec_macroblock s =
     (let m = mdec s; depth = mdec_depth m
      in if depth \<le> 1
         then case rl2blk_mono (mdec_object s) (scale_table m) (iq_y m) (rl_pos m) of None \<Rightarrow> None
              | Some (blk, rl) \<Rightarrow> Some (if depth = 0 then y_to_mono4 blk (mdec_signed m) else y_to_mono8 blk (mdec_signed m), rl)
         else case rl2blk (mdec_object s) (scale_table m) (iq_y m) (iq_uv m) (rl_pos m) of None \<Rightarrow> None
              | Some (blk, rl) \<Rightarrow>
                  Some (if depth = 2 then map (yuv2rgb24 blk) [0..<768] else halfword_bytes (yuv2rgb15 (reg0 m) blk), rl))"

definition put_bytes :: "u8 list \<Rightarrow> (nat \<Rightarrow> u8) \<Rightarrow> nat \<Rightarrow> u8" where
  "put_bytes bs buf = (\<lambda>i. if i < length bs then bs ! i else buf i)"

definition buffer_halfword :: "u8 list \<Rightarrow> nat \<Rightarrow> u16" where
  "buffer_halfword bs k = ucast (bs ! (2 * k)) OR push_bit 8 (ucast (bs ! (2 * k + 1)))"

definition mdec_decode_out_block :: "'a vmachine_scheme \<Rightarrow> 'a vmachine_scheme option" where
  "mdec_decode_out_block s =
     (if \<not> mdec_has_input (mdec s) then Some (upd_mdec (\<lambda>m. m\<lparr>out_pos := 0, out_end := 0\<rparr>) s)
      else case mdec_macroblock s of None \<Rightarrow> None
      | Some (bs, rl) \<Rightarrow>
          let bs = (if mdec_depth (mdec s) = 3 then halfword_bytes (raster_to_block_15 (buffer_halfword bs)) else bs)
          in Some (upd_mdec (\<lambda>m. m\<lparr>rl_pos := rl, block_buffer := put_bytes bs (block_buffer m),
                     out_end := block_bytes (mdec_depth m), out_pos := 0\<rparr>) s))"

definition buffer_word :: "(nat \<Rightarrow> u8) \<Rightarrow> nat \<Rightarrow> u32" where
  "buffer_word buf p = ucast (buf p) OR push_bit 8 (ucast (buf (p + 1))) OR push_bit 16 (ucast (buf (p + 2)))
     OR push_bit 24 (ucast (buf (p + 3)))"

definition mdec_take_word :: "'a vmachine_scheme \<Rightarrow> u32 \<times> 'a vmachine_scheme" where
  "mdec_take_word s =
     (if out_end (mdec s) \<le> out_pos (mdec s) then (0, s)
      else (buffer_word (block_buffer (mdec s)) (out_pos (mdec s)),
            upd_mdec (\<lambda>m. let m1 = m\<lparr>out_pos := out_pos m + 4\<rparr>
               in if out_end m1 \<le> out_pos m1 \<and> \<not> mdec_has_input m1 then m1\<lparr>reg1 := reg1 m1 AND NOT MDEC1_BUSY\<rparr> else m1) s))"

definition MDEC_ReadData :: "'a vmachine_scheme \<Rightarrow> (u32 \<times> 'a vmachine_scheme) option" where
  "MDEC_ReadData s =
     (if out_end (mdec s) \<le> out_pos (mdec s)
      then if mdec_has_input (mdec s) then map_option mdec_take_word (mdec_decode_out_block s) else Some (0, s)
      else Some (mdec_take_word s))"

definition mdec_try_decode :: "'a vmachine_scheme \<Rightarrow> 'a vmachine_scheme option" where
  "mdec_try_decode s =
     (let m = mdec s
      in if fifo_state m \<noteq> MDEC_STATE_RECV_DATA then Some s
         else if out_pos m < out_end m then Some s
         else if \<not> mdec_has_input m then Some s
         else if unat (rl_end m - rl_pos m) div 2 < MDEC_FIFO_THRESHOLD \<and> remaining_words m > 0 then Some s
         else mdec_decode_out_block s)"

definition mdec_status :: "mdec_state \<Rightarrow> u32" where
  "mdec_status m =
     (let v = reg1 m AND NOT 0xFFFF;
          has_output = (out_pos m < out_end m \<or> mdec_has_input m);
          v = (if has_output then v AND NOT 0x80000000 else v OR 0x80000000);
          v = (if out_pos m < out_end m then v OR 0x40000000 else v AND NOT 0x40000000);
          v = (if v AND MDEC1_BUSY \<noteq> 0 then v OR 0x18000000 else v AND NOT 0x18000000);
          v = (v AND NOT 0x07800000) OR push_bit 25 (drop_bit 27 (reg0 m) AND 3)
                OR push_bit 24 (drop_bit 26 (reg0 m) AND 1) OR push_bit 23 (drop_bit 25 (reg0 m) AND 1)
      in if remaining_words m > 0 then v OR (of_nat (remaining_words m - 1) AND 0xFFFF) else v OR 0xFFFF)"

definition MDEC_ReadStatus :: "'a vmachine_scheme \<Rightarrow> (u32 \<times> 'a vmachine_scheme) option" where
  "MDEC_ReadStatus s = map_option (\<lambda>t. (mdec_status (mdec t), t)) (mdec_try_decode s)"

section \<open>The output channel\<close>

text \<open>The whole macroblocks of a transfer, written behind one another.\<close>

definition mdec_total_words :: "u32 \<Rightarrow> u32" where
  "mdec_total_words bc =
     (let sz = bc AND 0xFFFF; count = drop_bit 16 bc AND 0xFFFF in (if sz = 0 then 1 else sz) * (if count = 0 then 1 else count))"

text \<open>Bytes written to main memory; outside the array the effect is undefined.\<close>

definition ram_put :: "u32 \<Rightarrow> u8 list \<Rightarrow> 'a vmachine_scheme \<Rightarrow> 'a vmachine_scheme option" where
  "ram_put img bs s =
     (if unat img + length bs \<le> unat PSX_RAM_SIZE then Some (s\<lparr>psx_ram := store_bytes (psx_ram s) img bs\<rparr>) else None)"

lemma ram_put_mdec: "ram_put img bs s = Some t \<Longrightarrow> mdec t = mdec s"
  by (auto simp: ram_put_def split: if_splits)

lemma block_bytes_pos: "0 < block_bytes d"
  by (simp add: block_bytes_def)

function dma1_blocks :: "u32 \<Rightarrow> nat \<Rightarrow> 'a vmachine_scheme \<Rightarrow> (u32 \<times> nat \<times> 'a vmachine_scheme) option" where
  "dma1_blocks img sz s =
     (if block_bytes (mdec_depth (mdec s)) \<le> sz \<and> rl_pos (mdec s) < rl_end (mdec s)
      then case mdec_macroblock s of None \<Rightarrow> None
        | Some (bs, rl) \<Rightarrow> (case ram_put img bs (upd_mdec (\<lambda>m. m\<lparr>rl_pos := rl\<rparr>) s) of None \<Rightarrow> None
            | Some t \<Rightarrow> dma1_blocks (img + of_nat (block_bytes (mdec_depth (mdec s)))) (sz - block_bytes (mdec_depth (mdec s))) t)
      else Some (img, sz, s))"
  by auto

termination
  by (relation "measure (\<lambda>(img, sz, s). sz)") (auto intro: diff_less order_less_le_trans [OF block_bytes_pos] simp: block_bytes_pos)

declare dma1_blocks.simps [simp del]

text \<open>What is left of a block decoded for the previous transfer.\<close>

definition dma1_flush :: "u32 \<Rightarrow> nat \<Rightarrow> 'a vmachine_scheme \<Rightarrow> (u32 \<times> nat \<times> 'a vmachine_scheme) option" where
  "dma1_flush img sz s =
     (case block_buffer_pos (mdec s) of None \<Rightarrow> Some (img, sz, s)
      | Some p \<Rightarrow>
          let n = unat (word_of_int (int (block_bytes (mdec_depth (mdec s))) - int p) :: u32); n = (if n > sz then sz else n)
          in if 768 < p + n then None
             else map_option (\<lambda>t. (img + of_nat n, sz - n, upd_mdec (\<lambda>m. m\<lparr>block_buffer_pos := None\<rparr>) t))
               (ram_put img (map (block_buffer (mdec s)) [p..<p + n]) s))"

definition dma1_partial :: "u32 \<Rightarrow> nat \<Rightarrow> 'a vmachine_scheme \<Rightarrow> 'a vmachine_scheme option" where
  "dma1_partial img sz s =
     (if sz \<noteq> 0 \<and> rl_pos (mdec s) < rl_end (mdec s)
      then case mdec_macroblock s of None \<Rightarrow> None
        | Some (bs, rl) \<Rightarrow> ram_put img (map (put_bytes bs (block_buffer (mdec s))) [0..<sz])
            (upd_mdec (\<lambda>m. m\<lparr>rl_pos := rl, block_buffer := put_bytes bs (block_buffer m), block_buffer_pos := Some sz\<rparr>) s)
      else Some s)"

text \<open>The pages of the output: their numbers are passed where addresses are expected.\<close>

definition dma1_invalidate :: "u32 \<Rightarrow> u32 \<Rightarrow> 'a vmachine_scheme \<Rightarrow> 'a vmachine_scheme" where
  "dma1_invalidate adr bytes =
     fold (\<lambda>p s. if of_nat p \<le> drop_bit 12 (adr + bytes - 1) then jit_invalidate_page (of_nat p) s else s)
       [unat (drop_bit 12 adr)..<512]"

definition MDEC_DMA1 :: "u32 \<Rightarrow> u32 \<Rightarrow> u32 \<Rightarrow> 'a vmachine_scheme \<Rightarrow> 'a vmachine_scheme option" where
  "MDEC_DMA1 ma bc cc s =
     (if cc \<noteq> 0x01000200 then Some s
      else if reg1 (mdec s) AND MDEC1_BUSY = 0 \<or> \<not> mdec_has_input (mdec s)
      then Some (upd_mdec (\<lambda>m. m\<lparr>pending_adr := ma, pending_bcr := bc, pending_chcr := cc\<rparr>) s)
      else let adr = ma AND 0x1FFFFC; bytes = mdec_total_words bc * 4
      in if adr + bytes > PSX_RAM_SIZE then Some s
      else case dma1_flush adr (unat bytes) s of None \<Rightarrow> None
      | Some (img, sz, s1) \<Rightarrow>
      case dma1_blocks img sz s1 of None \<Rightarrow> None
      | Some (img, sz, s2) \<Rightarrow>
      map_option (\<lambda>s3. let s4 = dma1_invalidate adr bytes s3
          in if \<not> mdec_has_input (mdec s4) then upd_mdec (\<lambda>m. m\<lparr>reg1 := reg1 m AND NOT MDEC1_BUSY\<rparr>) s4 else s4)
        (dma1_partial img sz s2))"

section \<open>The input channel\<close>

definition dma0_decode :: "u32 \<Rightarrow> u32 \<Rightarrow> 'a vmachine_scheme \<Rightarrow> 'a vmachine_scheme option" where
  "dma0_decode adr bytes s =
     (let s1 = upd_mdec (\<lambda>m. m\<lparr>reg1 := reg1 m OR MDEC1_BUSY, rl_source := IN_RAM, rl_pos := adr, rl_end := adr + bytes,
            fifo_state := MDEC_STATE_IDLE, out_pos := 0, out_end := 0\<rparr>) s
      in if adr + bytes \<le> adr then Some s1
         else map_option (upd_mdec (\<lambda>m. m\<lparr>pending_adr := 0\<rparr>))
           (if pending_adr (mdec s1) \<noteq> 0
            then MDEC_DMA1 (pending_adr (mdec s1)) (pending_bcr (mdec s1)) (pending_chcr (mdec s1)) s1 else Some s1))"

definition MDEC_DMA0 :: "u32 \<Rightarrow> u32 \<Rightarrow> u32 \<Rightarrow> 'a vmachine_scheme \<Rightarrow> 'a vmachine_scheme option" where
  "MDEC_DMA0 ma bc cc s =
     (let words = mdec_total_words bc; bytes = words * 4
      in if cc \<noteq> 0x01000201 then Some s
      else let s1 = upd_mdec (\<lambda>m. m\<lparr>reg1 := reg1 m OR MDEC1_STP\<rparr>) s; adr = ma AND 0x1FFFFC;
               command = drop_bit 29 (reg0 (mdec s)) AND 7; qt = (\<lambda>i. psx_ram s (adr + of_nat i))
      in if adr + bytes > PSX_RAM_SIZE then Some s1
      else if command = 1 then dma0_decode adr bytes s1
      else if command = 2
      then if PSX_RAM_SIZE < adr + (if words > 16 then 128 else 64) then None
           else Some (upd_mdec (\<lambda>m. m\<lparr>iq_y := iqtab_init qt, iq_uv := iqtab_init (if words > 16 then (\<lambda>i. qt (64 + i)) else qt)\<rparr>) s1)
      else if command = 3
      then if PSX_RAM_SIZE < adr + 128 then None
           else Some (upd_mdec (\<lambda>m. m\<lparr>scale_table := (\<lambda>k. if k < 64
                  then load16 (psx_ram s) (adr + 2 * of_nat (k mod 8 * 8 + k div 8)) else scale_table m k)\<rparr>) s1)
      else Some s1)"

text \<open>
  The devices of the bus with the motion decoder in place. What a read outside the array of the stream does is not
  defined by the language: it is the parameter \<open>wild\<close>.
\<close>

definition defined_or :: "('s \<Rightarrow> 's) \<Rightarrow> ('s \<Rightarrow> 's option) \<Rightarrow> 's \<Rightarrow> 's" where
  "defined_or wild f s = (case f s of None \<Rightarrow> wild s | Some t \<Rightarrow> t)"

definition defined_value_or :: "('s \<Rightarrow> 's) \<Rightarrow> ('s \<Rightarrow> (u32 \<times> 's) option) \<Rightarrow> 's \<Rightarrow> u32 \<times> 's" where
  "defined_value_or wild f s = (case f s of None \<Rightarrow> (0, wild s) | Some r \<Rightarrow> r)"

definition with_mdec :: "('a vmachine_scheme \<Rightarrow> 'a vmachine_scheme) \<Rightarrow> 'a vmachine_scheme devices \<Rightarrow> 'a vmachine_scheme devices" where
  "with_mdec wild d = d\<lparr>
     MDEC_DMA0 := (\<lambda>ma bc cc. defined_or wild (MDEC_DMA0 ma bc cc)), MDEC_DMA1 := (\<lambda>ma bc cc. defined_or wild (MDEC_DMA1 ma bc cc)),
     MDEC_ReadData := defined_value_or wild MDEC_ReadData, MDEC_ReadStatus := defined_value_or wild MDEC_ReadStatus,
     MDEC_WriteCommand := MDEC_WriteCommand, MDEC_WriteControl := MDEC_WriteControl\<rparr>"

end
