(* ===== verification/Mdec_Laws.thy ===== *)
theory Mdec_Laws
  imports Mdec
begin

text \<open>
  The laws of the motion decoder: the short cuts of the fast transform, the round trip of run-length coded blocks, the
  place of every pixel, the two ways of uploading tables, the status register, the invariant of the registers, what
  transfers may change, and the contract of the bus.
\<close>

section \<open>The fast transform\<close>

text \<open>The transform without its short cuts.\<close>

definition full_columns :: "block \<Rightarrow> block" where
  "full_columns blk = (\<lambda>k. aan_pass (\<lambda>j. blk (k mod 8 + 8 * j)) ! (k div 8))"

definition full_rows :: "block \<Rightarrow> block" where
  "full_rows blk = (\<lambda>k. aan_pass (\<lambda>j. blk (8 * (k div 8) + j)) ! (k mod 8))"

definition full_idct :: "block \<Rightarrow> block" where
  "full_idct blk = full_rows (full_columns blk)"

text \<open>A column whose bit is clear has nothing below its first row.\<close>

definition columns_used :: "u32 \<Rightarrow> block \<Rightarrow> bool" where
  "columns_used used blk \<longleftrightarrow> (\<forall>i<8. \<not> bit used i \<longrightarrow> (\<forall>j\<in>{1..<8}. blk (i + 8 * j) = 0)) \<and> (\<forall>i\<ge>8. \<not> bit used i)"

lemma aan_pass_length [simp]: "length (aan_pass p) = 8"
  by (simp add: aan_pass_def Let_def)

lemma replicate_8: "replicate 8 x = [x, x, x, x, x, x, x, x]"
  by (simp add: numeral_eq_Suc)

lemma aan_pass_first_only:
  assumes "\<And>j. 1 \<le> j \<Longrightarrow> j < 8 \<Longrightarrow> p j = 0"
  shows "aan_pass p = replicate 8 (p 0)"
proof -
  have "p 1 = 0" "p 2 = 0" "p 3 = 0" "p 4 = 0" "p 5 = 0" "p 6 = 0" "p 7 = 0" by (rule assms; simp)+
  then show ?thesis unfolding aan_pass_def MULS_def Let_def replicate_8 by simp
qed

lemma aan_pass_cong:
  assumes "\<And>j. j < 8 \<Longrightarrow> p j = q j"
  shows "aan_pass p = aan_pass q"
proof -
  have "p 0 = q 0" "p 1 = q 1" "p 2 = q 2" "p 3 = q 3" "p 4 = q 4" "p 5 = q 5" "p 6 = q 6" "p 7 = q 7" by (rule assms; simp)+
  then show ?thesis unfolding aan_pass_def Let_def by (simp only:)
qed

lemma bit_or_single: "n < 32 \<Longrightarrow> bit (u OR push_bit n 1 :: u32) i \<longleftrightarrow> bit u i \<or> i = n"
  unfolding bit_or_iff bit_push_bit_iff bit_1_iff by auto

lemma column_index:
  fixes i j :: nat
  assumes "i < 8" "j < 8"
  shows "(i + 8 * j) mod 8 = i" "(i + 8 * j) div 8 = j" "i + 8 * j < 64" "(8 * i + j) mod 8 = j" "(8 * i + j) div 8 = i" "8 * i + j < 64"
  using assms by simp_all

text \<open>The columns before \<open>n\<close> are transformed, and a bit is set for each column that has anything in it.\<close>

lemma fold_columns:
  assumes "columns_used used blk" "n \<le> 8"
  shows "\<exists>u. fold idct_column [0..<n] (blk, used) = ((\<lambda>k. if k < 64 \<and> k mod 8 < n then full_columns blk k else blk k), u) \<and>
    (\<forall>i. bit u i \<longleftrightarrow> bit used i \<or> i < n \<and> blk i \<noteq> 0)"
  using assms(2)
proof (induction n)
  case 0
  then show ?case by simp
next
  case (Suc n)
  then obtain u where u: "fold idct_column [0..<n] (blk, used) = ((\<lambda>k. if k < 64 \<and> k mod 8 < n then full_columns blk k else blk k), u)"
    "\<And>i. bit u i \<longleftrightarrow> bit used i \<or> i < n \<and> blk i \<noteq> 0" by auto
  define c where "c = (\<lambda>k. if k < 64 \<and> k mod 8 < n then full_columns blk k else blk k)"
  have n: "n < 8" using Suc.prems by simp
  have old: "c (n + 8 * j) = blk (n + 8 * j)" if "j < 8" for j using n that by (simp add: c_def)
  have old0: "c n = blk n" using old [of 0] by simp
  have next_c: "put_column n v c = (\<lambda>k. if k < 64 \<and> k mod 8 < Suc n then full_columns blk k else blk k)"
    if "\<And>j. j < 8 \<Longrightarrow> v j = aan_pass (\<lambda>j. blk (n + 8 * j)) ! j" for v
    unfolding put_column_def c_def by (rule ext) (auto simp: that full_columns_def less_Suc_eq)
  have zero: "aan_pass (\<lambda>j. blk (n + 8 * j)) = replicate 8 (blk n)" if "\<not> bit u n"
    using aan_pass_first_only [of "\<lambda>j. blk (n + 8 * j)"] assms(1) that n u(2) [of n] by (auto simp: columns_used_def)
  show ?case
  proof (cases "bit u n")
    case True
    have "idct_column n (c, u) = (put_column n (\<lambda>j. aan_pass (\<lambda>j. c (n + 8 * j)) ! j) c, u)"
      using True by (simp add: idct_column_def)
    moreover have "aan_pass (\<lambda>j. c (n + 8 * j)) = aan_pass (\<lambda>j. blk (n + 8 * j))" by (rule aan_pass_cong) (simp add: old)
    moreover have "bit u i \<longleftrightarrow> bit used i \<or> i < Suc n \<and> blk i \<noteq> 0" for i using True u(2) by (auto simp: less_Suc_eq)
    ultimately show ?thesis using u(1) next_c by (simp add: c_def [symmetric])
  next
    case False
    show ?thesis
    proof (cases "blk n = 0")
      case True
      have "idct_column n (c, u) = (c, u)" using False True by (simp add: idct_column_def old0)
      moreover have "c k = 0" if "k < 64" "k mod 8 = n" for k
      proof -
        have "k = n + 8 * (k div 8)" "k div 8 < 8" using that by auto
        then have "blk k = 0" using assms(1) False True n u(2) [of n] unfolding columns_used_def
          by (cases "k div 8 = 0") (auto, metis One_nat_def Suc_leI atLeastLessThan_iff)
        then show ?thesis using that by (simp add: c_def)
      qed
      then have "c = put_column n (\<lambda>j. 0) c" by (auto simp: put_column_def)
      moreover have "put_column n (\<lambda>j. 0) c = (\<lambda>k. if k < 64 \<and> k mod 8 < Suc n then full_columns blk k else blk k)"
        using zero [OF False] True by (intro next_c) simp
      moreover have "bit u i \<longleftrightarrow> bit used i \<or> i < Suc n \<and> blk i \<noteq> 0" for i using True u(2) by (auto simp: less_Suc_eq)
      ultimately show ?thesis using u(1) by (simp add: c_def [symmetric])
    next
      case nz: False
      have "idct_column n (c, u) = (put_column n (\<lambda>_. blk n) c, u OR push_bit n 1)"
        using False nz by (simp add: idct_column_def old0)
      moreover have "put_column n (\<lambda>_. blk n) c = (\<lambda>k. if k < 64 \<and> k mod 8 < Suc n then full_columns blk k else blk k)"
        using zero [OF False] by (intro next_c) simp
      moreover have "bit (u OR push_bit n 1) i \<longleftrightarrow> bit used i \<or> i < Suc n \<and> blk i \<noteq> 0" for i
      proof -
        have "bit (u OR push_bit n 1) i \<longleftrightarrow> bit u i \<or> i = n" by (rule bit_or_single) (use n in simp)
        then show ?thesis unfolding u(2) using nz by (auto simp: less_Suc_eq)
      qed
      ultimately show ?thesis using u(1) by (simp add: c_def [symmetric])
    qed
  qed
qed

lemma fold_rows:
  assumes "\<And>b b'. (\<And>j. j < 8 \<Longrightarrow> b j = b' j) \<Longrightarrow> f b = f b'" "n \<le> 8"
  shows "fold (\<lambda>i b. put_row i (f (\<lambda>j. b (8 * i + j))) b) [0..<n] blk =
    (\<lambda>k. if k < 64 \<and> k div 8 < n then f (\<lambda>j. blk (8 * (k div 8) + j)) (k mod 8) else blk k)"
  using assms(2)
proof (induction n)
  case 0
  then show ?case by simp
next
  case (Suc n)
  then have "fold (\<lambda>i b. put_row i (f (\<lambda>j. b (8 * i + j))) b) [0..<n] blk =
    (\<lambda>k. if k < 64 \<and> k div 8 < n then f (\<lambda>j. blk (8 * (k div 8) + j)) (k mod 8) else blk k)" by simp
  moreover have "f (\<lambda>j. if 8 * n + j < 64 \<and> (8 * n + j) div 8 < n then f (\<lambda>l. blk (8 * ((8 * n + j) div 8) + l)) ((8 * n + j) mod 8) else blk (8 * n + j)) = f (\<lambda>j. blk (8 * n + j))"
    by (rule assms(1)) (use Suc.prems in simp)
  ultimately show ?case by (simp add: put_row_def fun_eq_iff) (auto simp: less_Suc_eq)
qed


lemma full_rows_first:
  assumes "\<And>j. 1 \<le> j \<Longrightarrow> j < 8 \<Longrightarrow> c (8 * (k div 8) + j) = 0"
  shows "full_rows c k = c (8 * (k div 8))"
  using aan_pass_first_only [of "\<lambda>j. c (8 * (k div 8) + j)"] assms by (simp add: full_rows_def)

lemma idct_columns:
  assumes cu: "columns_used used blk" and k: "k < 64"
  shows "idct blk used k = full_idct blk k"
proof -
  have kd: "k div 8 < 8" using k by presburger
  obtain u where u: "fold idct_column [0..<8] (blk, used) = ((\<lambda>k. if k < 64 \<and> k mod 8 < 8 then full_columns blk k else blk k), u)"
    "\<And>i. bit u i \<longleftrightarrow> bit used i \<or> i < 8 \<and> blk i \<noteq> 0" using fold_columns [OF cu, of 8] by auto
  define c where "c = (\<lambda>k. if k < 64 \<and> k mod 8 < 8 then full_columns blk k else blk k)"
  have c: "c (8 * (k div 8) + j) = full_columns blk (8 * (k div 8) + j)" if "j < 8" for j
  proof -
    have "8 * (k div 8) + j < 64" using k that by presburger
    then show ?thesis by (simp add: c_def)
  qed
  have "used \<noteq> - 1" using cu unfolding columns_used_def by (auto intro!: exI [of _ 8])
  then have idct: "idct blk used = (if u = 1 then fold (\<lambda>i b. put_row i (\<lambda>_. b (8 * i)) b) [0..<8] c
       else fold (\<lambda>i b. put_row i (\<lambda>j. aan_pass (\<lambda>j. b (8 * i + j)) ! j) b) [0..<8] c)"
    using u(1) by (simp add: idct_def c_def)
  show ?thesis
  proof (cases "u = 1")
    case True
    have zero: "c (8 * (k div 8) + j) = 0" if "1 \<le> j" "j < 8" for j
    proof -
      have "\<not> bit u j" using that unfolding True by (simp add: bit_1_iff)
      then have "blk j = 0" "\<forall>i\<in>{1..<8}. blk (j + 8 * i) = 0" using u(2) cu that unfolding columns_used_def by auto
      then have "aan_pass (\<lambda>i. blk (j + 8 * i)) = replicate 8 0"
        using aan_pass_first_only [of "\<lambda>i. blk (j + 8 * i)"] by auto
      then show ?thesis using c [OF that(2)] k that by (simp add: full_columns_def)
    qed
    have "fold (\<lambda>i b. put_row i (\<lambda>_. b (8 * i)) b) [0..<8] c k = c (8 * (k div 8))"
      using fold_rows [of "\<lambda>b j. b 0" 8 c] k kd by simp
    moreover have "full_rows (full_columns blk) k = full_columns blk (8 * (k div 8))"
      using zero c by (intro full_rows_first) simp
    ultimately show ?thesis using True c [of 0] by (simp add: idct full_idct_def)
  next
    case False
    have f: "(\<lambda>j. aan_pass b ! j) = (\<lambda>j. aan_pass b' ! j)" if "\<And>j. j < 8 \<Longrightarrow> b j = b' j" for b b'
      using aan_pass_cong [of b b'] that by simp
    have "fold (\<lambda>i b. put_row i (\<lambda>j. aan_pass (\<lambda>j. b (8 * i + j)) ! j) b) [0..<8] c k =
        aan_pass (\<lambda>j. c (8 * (k div 8) + j)) ! (k mod 8)"
      using fold_rows [of "\<lambda>b j. aan_pass b ! j" 8 c, OF f] k kd by simp
    moreover have "aan_pass (\<lambda>j. c (8 * (k div 8) + j)) = aan_pass (\<lambda>j. full_columns blk (8 * (k div 8) + j))"
      by (rule aan_pass_cong) (rule c)
    ultimately show ?thesis using False by (simp add: idct full_idct_def full_rows_def)
  qed
qed

lemma idct_constant:
  assumes z: "\<forall>k. 1 \<le> k \<and> k < 64 \<longrightarrow> blk k = 0" and k: "k < 64"
  shows "idct blk (- 1) k = full_idct blk k"
proof -
  have col: "full_columns blk m = (if m mod 8 = 0 then blk 0 else 0)" if "m < 64" for m
  proof -
    have "aan_pass (\<lambda>j. blk (m mod 8 + 8 * j)) = replicate 8 (blk (m mod 8))"
      using z aan_pass_first_only [of "\<lambda>j. blk (m mod 8 + 8 * j)"] by auto
    then show ?thesis using z that by (auto simp: full_columns_def)
  qed
  have "full_rows (full_columns blk) k = full_columns blk (8 * (k div 8))"
  proof (rule full_rows_first)
    fix j :: nat assume j: "1 \<le> j" "j < 8"
    then have "8 * (k div 8) + j < 64" using k by presburger
    then show "full_columns blk (8 * (k div 8) + j) = 0" using j by (simp add: col)
  qed
  moreover have "8 * (k div 8) < 64" using k by presburger
  ultimately show ?thesis using k by (simp add: full_idct_def idct_def col)
qed

text \<open>
  C12. The short cuts of the fast transform do not change the result. If every column with something below its first
  row is marked, skipping the unmarked columns and filling rows from their first value gives the full two-pass
  transform, and so does filling the block when only its first value is not zero.
\<close>

theorem mdec_fast_transform:
  "(columns_used used blk \<longrightarrow> (\<forall>k<64. idct blk used k = full_idct blk k)) \<and>
   ((\<forall>k. 1 \<le> k \<and> k < 64 \<longrightarrow> blk k = 0) \<longrightarrow> (\<forall>k<64. idct blk (- 1) k = full_idct blk k))"
  using idct_columns idct_constant by blast

section \<open>The compressed stream\<close>

text \<open>The columns the decoder marks are the ones it fills.\<close>

lemma zscan_lt: "k < 64 \<Longrightarrow> zscan ! k < 64"
proof -
  have "\<forall>z\<in>set zscan. z < 64" by (simp add: zscan_def)
  moreover assume "k < 64"
  then have "zscan ! k \<in> set zscan" by (intro nth_mem) (simp add: zscan_def)
  ultimately show ?thesis by blast
qed

lemma zscan_distinct: "distinct zscan" "length zscan = 64"
  by (simp_all add: zscan_def)

lemma zscan_inj: "i < 64 \<Longrightarrow> j < 64 \<Longrightarrow> zscan ! i = zscan ! j \<longleftrightarrow> i = j"
  using zscan_distinct by (simp add: nth_eq_iff_index_eq)

lemma zscan_surj: "z < 64 \<Longrightarrow> \<exists>k<64. zscan ! k = z"
proof -
  have "set zscan = {..<64}"
    using zscan_distinct zscan_lt by (intro card_subset_eq) (auto simp: distinct_card in_set_conv_nth)
  moreover assume "z < 64"
  ultimately have "z \<in> set zscan" by simp
  then show ?thesis by (auto simp: in_set_conv_nth zscan_distinct)
qed

lemma columns_used_store:
  assumes "columns_used used blk" "z < 64"
  shows "columns_used (if z > 7 then used OR push_bit (z mod 8) 1 else used) (blk(z := v))"
proof -
  have b: "bit (used OR push_bit (z mod 8) 1) i \<longleftrightarrow> bit used i \<or> i = z mod 8" for i by (rule bit_or_single) simp
  show ?thesis
  proof (cases "z > 7")
    case True
    then show ?thesis using assms unfolding columns_used_def by (auto simp only: if_True b fun_upd_def) (auto split: if_splits)
  next
    case False
    then show ?thesis using assms unfolding columns_used_def by (auto split: if_splits)
  qed
qed

definition store_coefficient :: "table \<Rightarrow> u32 \<Rightarrow> nat \<Rightarrow> u16 \<Rightarrow> block \<Rightarrow> block" where
  "store_coefficient iqtab q k hw blk = (if k < 64 then blk(zscan ! k := SCALER (RLE_VAL hw * iqtab k * q) 12) else blk)"

definition mark_column :: "nat \<Rightarrow> u32 \<Rightarrow> u32" where
  "mark_column k used = (if k < 64 \<and> zscan ! k > 7 then used OR push_bit (zscan ! k mod 8) 1 else used)"

lemma coefficients_end: "63 \<le> k \<Longrightarrow> coefficients m iqtab q k (blk, used, rl) = Some (blk, used, rl)"
  by (simp add: coefficients.simps)

lemma coefficients_step:
  "k < 63 \<Longrightarrow> rl_fetch m rl = Some hw \<Longrightarrow> coefficients m iqtab q k (blk, used, rl) =
     coefficients m iqtab q (k + RLE_RUN hw + 1)
       (store_coefficient iqtab q (k + RLE_RUN hw + 1) hw blk, mark_column (k + RLE_RUN hw + 1) used, rl + 2)"
  by (subst coefficients.simps) (simp add: store_coefficient_def mark_column_def Let_def)

lemma coefficients_overrun: "k < 63 \<Longrightarrow> rl_fetch m rl = None \<Longrightarrow> coefficients m iqtab q k (blk, used, rl) = None"
  by (subst coefficients.simps) simp

lemma columns_used_step:
  "columns_used used blk \<Longrightarrow> columns_used (mark_column k used) (store_coefficient iqtab q k hw blk)"
  using columns_used_store [OF _ zscan_lt] by (auto simp: mark_column_def store_coefficient_def)

lemma coefficients_used:
  "coefficients m iqtab q k (blk, used, rl) = Some (blk', used', rl') \<Longrightarrow> columns_used used blk \<Longrightarrow> columns_used used' blk'"
proof (induction "63 - k" arbitrary: k blk used rl rule: less_induct)
  case less
  show ?case
  proof (cases "k < 63")
    case False
    then show ?thesis using less.prems by (simp add: coefficients_end)
  next
    case True
    then obtain hw where "rl_fetch m rl = Some hw"
      using less.prems(1) coefficients_overrun [OF True] by (cases "rl_fetch m rl") fastforce+
    then have "coefficients m iqtab q (k + RLE_RUN hw + 1)
       (store_coefficient iqtab q (k + RLE_RUN hw + 1) hw blk, mark_column (k + RLE_RUN hw + 1) used, rl + 2) = Some (blk', used', rl')"
      using less.prems(1) coefficients_step [OF True] by simp
    from less.hyps [OF _ this] columns_used_step [OF less.prems(2)] True show ?thesis by simp
  qed
qed

text \<open>
  The encoder: a first halfword with the quantiser scale and the first level, then a halfword for every level that is
  not zero with the number of zeros before it, then the end code. Levels are 10-bit values.
\<close>

definition rle_halfword :: "nat \<Rightarrow> u16 \<Rightarrow> u16" where
  "rle_halfword run v = push_bit 10 (of_nat run) OR (v AND 0x3FF)"

fun rle_levels :: "(nat \<Rightarrow> u16) \<Rightarrow> nat \<Rightarrow> nat list \<Rightarrow> u16 list" where
  "rle_levels lv run [] = [0xFE00]"
| "rle_levels lv run (p # ps) =
     (if lv p AND 0x3FF = 0 then rle_levels lv (run + 1) ps else rle_halfword run (lv p) # rle_levels lv 0 ps)"

definition rle_encode :: "nat \<Rightarrow> (nat \<Rightarrow> u16) \<Rightarrow> u16 list" where
  "rle_encode q lv = rle_halfword q (lv 0) # rle_levels lv 0 [1..<64]"

lemma rle_halfword_fields:
  assumes "run < 64"
  shows "RLE_RUN (rle_halfword run v) = run" "RLE_VAL (rle_halfword run v) = RLE_VAL v"
proof -
  have "bit (push_bit 10 (of_nat run) OR (v AND 0x3FF) :: u16) n \<longleftrightarrow> 10 \<le> n \<and> n < 16 \<and> bit run (n - 10) \<or> n < 10 \<and> bit v n" for n
    using bit_mask_iff [where 'a = u16, of 10 n]
    by (auto simp: bit_or_iff bit_and_iff bit_push_bit_iff bit_of_nat_iff mask_eq_exp_minus_1 possible_bit_word simp del: bit_numeral_word_iff)
  then have b: "bit (rle_halfword run v) n \<longleftrightarrow> 10 \<le> n \<and> n < 16 \<and> bit run (n - 10) \<or> n < 10 \<and> bit v n" for n
    by (simp add: rle_halfword_def)
  have "drop_bit 10 (rle_halfword run v) = of_nat run"
  proof (rule bit_word_eqI)
    fix n assume "n < LENGTH(16)"
    have "n < 6" if "bit run n"
    proof (rule ccontr)
      assume "\<not> n < 6"
      then have "(2 :: nat) ^ 6 \<le> 2 ^ n" by (intro power_increasing) simp_all
      then have "run div 2 ^ n = 0" using assms by (intro div_less) simp
      then show False using that by (simp add: bit_iff_odd)
    qed
    then show "bit (drop_bit 10 (rle_halfword run v)) n \<longleftrightarrow> bit (of_nat run :: u16) n"
      using \<open>n < LENGTH(16)\<close> by (auto simp: bit_drop_bit_eq b bit_of_nat_iff possible_bit_word)
  qed
  then show "RLE_RUN (rle_halfword run v) = run" using assms by (simp add: RLE_RUN_def unat_of_nat)
  have "push_bit 22 (ucast (rle_halfword run v) :: u32) = push_bit 22 (ucast v)"
    by (rule bit_word_eqI) (auto simp: bit_push_bit_iff bit_ucast_iff b possible_bit_word)
  then show "RLE_VAL (rle_halfword run v) = RLE_VAL v" by (simp add: RLE_VAL_def)
qed

definition stream_at :: "rl_object \<Rightarrow> u32 \<Rightarrow> u16 list \<Rightarrow> bool" where
  "stream_at m rl hs \<longleftrightarrow> (\<forall>i<length hs. rl_fetch m (rl + 2 * of_nat i) = Some (hs ! i))"

lemma stream_at_Nil [simp]: "stream_at m rl []"
  by (simp add: stream_at_def)

lemma stream_at_Cons [simp]: "stream_at m rl (h # hs) \<longleftrightarrow> rl_fetch m rl = Some h \<and> stream_at m (rl + 2) hs"
proof -
  have shift: "rl + 2 * of_nat (Suc i) = rl + 2 + 2 * of_nat i" for i by simp
  have "stream_at m rl (h # hs) \<longleftrightarrow> (\<forall>i<Suc (length hs). rl_fetch m (rl + 2 * of_nat i) = Some ((h # hs) ! i))"
    by (simp add: stream_at_def)
  also have "\<dots> \<longleftrightarrow> rl_fetch m rl = Some h \<and> (\<forall>i<length hs. rl_fetch m (rl + 2 * of_nat (Suc i)) = Some (hs ! i))"
    unfolding All_less_Suc2 by simp
  finally show ?thesis unfolding shift stream_at_def .
qed

text \<open>The coefficient a level stands for.\<close>

definition coefficient :: "table \<Rightarrow> u32 \<Rightarrow> (nat \<Rightarrow> u16) \<Rightarrow> nat \<Rightarrow> u32" where
  "coefficient iqtab q lv k =
     (if k = 0 then SCALER (RLE_VAL (lv 0) * iqtab 0) 9 else SCALER (RLE_VAL (lv k) * iqtab k * q) 12)"

lemma level_zero:
  assumes "v AND 0x3FF = 0"
  shows "RLE_VAL v = 0"
proof -
  have "bit v n \<longrightarrow> 10 \<le> n" for n
    using arg_cong [OF assms, of "\<lambda>w. bit w n"] bit_mask_iff [where 'a = u16, of 10 n] bit_imp_le_length [of v n]
    by (auto simp: bit_and_iff mask_eq_exp_minus_1 possible_bit_word simp del: bit_numeral_word_iff)
  then have low: "\<not> bit v (n - 22)" if "22 \<le> n" "n < 32" for n using that by (metis diff_is_0_eq less_diff_conv2 linorder_not_less numeral_plus_numeral semiring_norm(2,3,4,6,7,8,9,10))
  have "push_bit 22 (ucast v :: u32) = 0"
    by (rule bit_word_eqI) (auto simp: bit_push_bit_iff bit_ucast_iff low)
  then show ?thesis by (simp add: RLE_VAL_def)
qed

lemma scaled_zero: "SCALER 0 12 = 0"
  by code_simp

text \<open>The end code is not consumed if the last level is in the last place.\<close>

definition levels_end :: "(nat \<Rightarrow> u16) \<Rightarrow> nat \<Rightarrow> nat \<Rightarrow> u32 \<Rightarrow> u32" where
  "levels_end lv run p rl =
     rl + 2 * of_nat (length (rle_levels lv run [p..<64]) - (if if p = 64 then run = 0 else lv 63 AND 0x3FF \<noteq> 0 then 1 else 0))"

definition decodes_levels :: "rl_object \<Rightarrow> table \<Rightarrow> u32 \<Rightarrow> (nat \<Rightarrow> u16) \<Rightarrow> nat \<Rightarrow> (block \<times> u32 \<times> u32) option \<Rightarrow> block \<Rightarrow> u32 \<Rightarrow> bool" where
  "decodes_levels m iqtab q lv p r blk rl' \<longleftrightarrow>
     (\<exists>blk' used'. r = Some (blk', used', rl') \<and>
        (\<forall>j<64. blk' (zscan ! j) = (if p \<le> j \<and> lv j AND 0x3FF \<noteq> 0 then SCALER (RLE_VAL (lv j) * iqtab j * q) 12 else blk (zscan ! j))))"

lemma levels_end_zero:
  assumes "p < 64" "lv p AND 0x3FF = 0"
  shows "levels_end lv run p rl = levels_end lv (run + 1) (Suc p) rl"
proof -
  have "[p..<64] = p # [Suc p..<64]" using assms(1) by (rule upt_conv_Cons)
  moreover have "p = 63" if "Suc p = 64" using that by simp
  ultimately show ?thesis using assms by (auto simp: levels_end_def)
qed

lemma rle_levels_nonempty: "0 < length (rle_levels lv run ps)"
  by (induction ps arbitrary: run) simp_all

lemma levels_end_nonzero:
  assumes "p < 64" "lv p AND 0x3FF \<noteq> 0"
  shows "levels_end lv run p rl = levels_end lv 0 (Suc p) (rl + 2)"
proof -
  have u: "[p..<64] = p # [Suc p..<64]" using assms(1) by (rule upt_conv_Cons)
  have "p = 63" if "Suc p = 64" using that by simp
  then have e: "(if Suc p = 64 then 0 = (0 :: nat) else lv 63 AND 0x3FF \<noteq> 0) = (lv 63 AND 0x3FF \<noteq> 0)" using assms(2) by auto
  have "of_nat n = (1 + of_nat (n - Suc 0) :: u32)" if "0 < n" for n :: nat
    using that by (cases n) simp_all
  from this [of "length (rle_levels lv 0 [Suc p..<64])", OF rle_levels_nonempty]
  have l: "2 * of_nat (length (rle_levels lv 0 [Suc p..<64])) = (2 + 2 * of_nat (length (rle_levels lv 0 [Suc p..<64]) - Suc 0) :: u32)"
    by simp
  show ?thesis using assms unfolding levels_end_def e u by (simp add: l)
qed

lemma coefficients_encoded:
  assumes "k + run + 1 = p" "p \<le> 64" "stream_at m rl (rle_levels lv run [p..<64])"
  shows "decodes_levels m iqtab q lv p (coefficients m iqtab q k (blk, used, rl)) blk (levels_end lv run p rl)"
  using assms
proof (induction "64 - p" arbitrary: p k run blk used rl rule: less_induct)
  case less
  show ?case
  proof (cases "p = 64")
    case True
    then have s: "rl_fetch m rl = Some 0xFE00" using less.prems(3) by simp
    show ?thesis
    proof (cases "run = 0")
      case run: True
      then show ?thesis using less.prems(1) True by (simp add: coefficients_end decodes_levels_def levels_end_def)
    next
      case False
      then have k: "k < 63" using less.prems(1) True by simp
      have r: "RLE_RUN 0xFE00 = 63" by (simp add: RLE_RUN_def)
      have "coefficients m iqtab q k (blk, used, rl) = Some (blk, used, rl + 2)"
        unfolding coefficients_step [OF k s] by (simp add: r coefficients_end store_coefficient_def mark_column_def)
      then show ?thesis using True False by (simp add: decodes_levels_def levels_end_def)
    qed
  next
    case False
    then have p: "p < 64" using less.prems(2) by simp
    then have upt: "[p..<64] = p # [Suc p..<64]" by (rule upt_conv_Cons)
    show ?thesis
    proof (cases "lv p AND 0x3FF = 0")
      case True
      have s: "stream_at m rl (rle_levels lv (run + 1) [Suc p..<64])" using less.prems(3) upt True by simp
      have k: "k + (run + 1) + 1 = Suc p" using less.prems(1) by simp
      have "decodes_levels m iqtab q lv (Suc p) (coefficients m iqtab q k (blk, used, rl)) blk (levels_end lv run p rl)"
        unfolding levels_end_zero [of p lv, OF p True] using p by (intro less.hyps k s) simp_all
      moreover have "Suc p \<le> j \<and> lv j AND 0x3FF \<noteq> 0 \<longleftrightarrow> p \<le> j \<and> lv j AND 0x3FF \<noteq> 0" for j
        using True by (cases "j = p") auto
      ultimately show ?thesis unfolding decodes_levels_def by simp
    next
      case nz: False
      define hw where "hw = rle_halfword run (lv p)"
      have run: "run < 64" "k < 63" using less.prems(1) p by simp_all
      have hw: "RLE_RUN hw = run" "RLE_VAL hw = RLE_VAL (lv p)" using rle_halfword_fields [OF run(1)] by (simp_all add: hw_def)
      have s: "rl_fetch m rl = Some hw" "stream_at m (rl + 2) (rle_levels lv 0 [Suc p..<64])"
        using less.prems(3) upt nz by (simp_all add: hw_def)
      have step: "coefficients m iqtab q k (blk, used, rl) =
          coefficients m iqtab q p (store_coefficient iqtab q p hw blk, mark_column p used, rl + 2)"
        using coefficients_step [OF run(2) s(1)] less.prems(1) by (simp add: hw)
      have "decodes_levels m iqtab q lv (Suc p) (coefficients m iqtab q k (blk, used, rl))
          (store_coefficient iqtab q p hw blk) (levels_end lv run p rl)"
        unfolding step levels_end_nonzero [of p lv, OF p nz] using p by (intro less.hyps s) simp_all
      moreover have "(if Suc p \<le> j \<and> lv j AND 0x3FF \<noteq> 0 then SCALER (RLE_VAL (lv j) * iqtab j * q) 12
            else store_coefficient iqtab q p hw blk (zscan ! j)) =
          (if p \<le> j \<and> lv j AND 0x3FF \<noteq> 0 then SCALER (RLE_VAL (lv j) * iqtab j * q) 12 else blk (zscan ! j))"
        if j: "j < 64" for j
        using nz zscan_inj [OF j p] p by (cases "j = p") (auto simp: store_coefficient_def hw Suc_le_eq)
      ultimately show ?thesis unfolding decodes_levels_def by simp
    qed
  qed
qed


lemma decode_encoded:
  assumes "0 < q" "q < 64" "rle_halfword q (lv 0) \<noteq> 0xFE00" "stream_at m rl (rle_encode q lv)"
  shows "\<exists>blk b. decode_block m st iqtab rl =
      Some (b, rl + 2 * of_nat (length (rle_encode q lv) - (if lv 63 AND 0x3FF \<noteq> 0 then 1 else 0))) \<and>
    (\<forall>k<64. blk (zscan ! k) = coefficient iqtab (of_nat q) lv k) \<and> (\<forall>k<64. b k = full_idct blk k)"
proof -
  define hw where "hw = rle_halfword q (lv 0)"
  have hw: "RLE_RUN hw = q" "RLE_VAL hw = RLE_VAL (lv 0)" using rle_halfword_fields [OF assms(2)] by (simp_all add: hw_def)
  have s: "rl_fetch m rl = Some hw" "stream_at m (rl + 2) (rle_levels lv 0 [1..<64])"
    using assms(4) unfolding rle_encode_def stream_at_Cons by (simp_all add: hw_def)
  have pad: "skip_padding m rl = Some rl" using s(1) assms(3) by (subst skip_padding.simps) (simp add: hw_def)
  define b0 where "b0 = (\<lambda>_ :: nat. 0 :: u32)(0 := SCALER (RLE_VAL (lv 0) * iqtab 0) 9)"
  have "decodes_levels m iqtab (of_nat q) lv 1 (coefficients m iqtab (of_nat q) 0 (b0, 0, rl + 2)) b0 (levels_end lv 0 1 (rl + 2))"
    by (rule coefficients_encoded) (use s(2) in simp_all)
  then obtain blk used where d: "coefficients m iqtab (of_nat q) 0 (b0, 0, rl + 2) = Some (blk, used, levels_end lv 0 1 (rl + 2))"
    "\<And>j. j < 64 \<Longrightarrow> blk (zscan ! j) = (if 1 \<le> j \<and> lv j AND 0x3FF \<noteq> 0 then SCALER (RLE_VAL (lv j) * iqtab j * of_nat q) 12 else b0 (zscan ! j))"
    unfolding decodes_levels_def by blast
  have z0: "zscan ! 0 = 0" by (simp add: zscan_def)
  have coef: "blk (zscan ! k) = coefficient iqtab (of_nat q) lv k" if k: "k < 64" for k
    using d(2) [OF k] zscan_inj [OF k, of 0] z0 level_zero [of "lv k"] scaled_zero
    by (auto simp: coefficient_def b0_def)
  have "columns_used used blk"
    by (rule coefficients_used [OF d(1)]) (simp add: columns_used_def b0_def)
  then have idct: "\<forall>k<64. idct blk used k = full_idct blk k" using idct_columns by blast
  define L where "L = length (rle_levels lv 0 [1..<64])"
  have "0 < L" unfolding L_def by (rule rle_levels_nonempty)
  then have "of_nat L = (1 + of_nat (L - Suc 0) :: u32)" by (cases L) simp_all
  then have l: "(2 :: u32) + 2 * of_nat (L - Suc 0) = 2 * of_nat L" by simp
  have e: "levels_end lv 0 1 (rl + 2) = rl + 2 * of_nat (length (rle_encode q lv) - (if lv 63 AND 0x3FF \<noteq> 0 then 1 else 0))"
    using l unfolding levels_end_def rle_encode_def list.size L_def [symmetric] by (simp add: algebra_simps)
  have "decode_block m st iqtab rl = Some (idct blk used, levels_end lv 0 1 (rl + 2))"
    using assms(1) d(1) by (simp add: decode_block_def pad s(1) hw Let_def b0_def)
  then show ?thesis using coef idct unfolding e by blast
qed


section \<open>Pixels\<close>

text \<open>Where the luminance and the colour of a pixel of the image lie in the six blocks.\<close>

definition luma_index :: "nat \<Rightarrow> nat" where
  "luma_index p = (let r = p div 16; c = p mod 16 in 128 + 64 * (2 * (r div 8) + c div 8) + 8 * (r mod 8) + c mod 8)"

definition chroma_index :: "nat \<Rightarrow> nat" where
  "chroma_index p = 8 * (p div 16 div 2) + p mod 16 div 2"

lemma set_image_stores: "t \<in> set image_stores \<longleftrightarrow> (\<exists>h<8. \<exists>x<4. t \<in> set (pixel_stores (2 * h) x))"
proof -
  have "[0, 2, 4, 6, 8, 10, 12, 14] = map (\<lambda>h. 2 * h) [0 ..< 8 :: nat]" by (simp add: upt_rec)
  then show ?thesis unfolding image_stores_def by (auto simp: Bex_def)
qed

lemma small_cases:
  "(h :: nat) < 8 \<Longrightarrow> h = 0 \<or> h = 1 \<or> h = 2 \<or> h = 3 \<or> h = 4 \<or> h = 5 \<or> h = 6 \<or> h = 7" "(x :: nat) < 4 \<Longrightarrow> x = 0 \<or> x = 1 \<or> x = 2 \<or> x = 3"
  by linarith+

lemma image_stores_indices: "t \<in> set image_stores \<Longrightarrow> snd t = (luma_index (fst t), chroma_index (fst t)) \<and> fst t < 256"
  unfolding set_image_stores
  by (elim exE conjE, drule small_cases(1), drule small_cases(2), elim disjE;
      auto simp: pixel_stores_def luma_index_def chroma_index_def Let_def)

lemma image_stores_complete: "p < 256 \<Longrightarrow> p \<in> fst ` set image_stores"
proof -
  assume p: "p < 256"
  define h where "h = p div 32"
  define x where "x = p mod 8 div 2"
  have hx: "h < 8" "x < 4"
    using p less_mult_imp_div_less [of p 8 32] less_mult_imp_div_less [of "p mod 8" 4 2] by (simp_all add: h_def x_def)
  define e where "e = p div 8 mod 4"
  define o1 where "o1 = p mod 2"
  have "p = 8 * (4 * (p div 8 div 4) + p div 8 mod 4) + (2 * (p mod 8 div 2) + p mod 8 mod 2)"
    by (simp only: mult_div_mod_eq)
  then have p': "p = 32 * h + 8 * e + 2 * x + o1"
    unfolding h_def x_def e_def o1_def by (simp add: div_mult2_eq [symmetric] mod_mod_cancel algebra_simps)
  have "e = 0 \<or> e = 1 \<or> e = 2 \<or> e = 3" "o1 = 0 \<or> o1 = 1" unfolding e_def o1_def by presburger+
  then have "p \<in> fst ` set (pixel_stores (2 * h) x)"
    unfolding p' by (elim disjE) (simp_all add: pixel_stores_def Let_def)
  then show ?thesis using hx set_image_stores by blast
qed

lemma image_stores_places: "fst ` set image_stores = {..<256}"
  using image_stores_complete image_stores_indices by auto

lemma fold_stores:
  assumes "\<forall>t\<in>set xs. v t = w (a t)"
  shows "fold (\<lambda>t img. img(a t := v t)) xs img k = (if k \<in> a ` set xs then w k else img k)"
  using assms by (induction xs arbitrary: img) auto

lemma fold_triple_stores:
  assumes "\<forall>t\<in>set xs. \<forall>j<3. v t ! j = w (3 * a t + j)"
  shows "fold (\<lambda>t img. img(3 * a t := v t ! 0, 3 * a t + 1 := v t ! 1, 3 * a t + 2 := v t ! 2)) xs img k =
    (if k div 3 \<in> a ` set xs then w k else img k)"
  using assms
proof (induction xs arbitrary: img)
  case Nil
  then show ?case by simp
next
  case (Cons t xs)
  have v: "v t ! 0 = w (3 * a t)" "v t ! 1 = w (3 * a t + 1)" "v t ! 2 = w (3 * a t + 2)"
    using Cons.prems by (auto dest: spec [of _ "0 :: nat"] spec [of _ "1 :: nat"] spec [of _ "2 :: nat"])
  define i1 where "i1 = img(3 * a t := v t ! 0, 3 * a t + 1 := v t ! 1, 3 * a t + 2 := v t ! 2)"
  have "k = 3 * a t \<or> k = 3 * a t + 1 \<or> k = 3 * a t + 2 \<longleftrightarrow> k div 3 = a t" by auto
  then have i1: "i1 k = (if k div 3 = a t then w k else img k)" unfolding i1_def v by auto
  have "fold (\<lambda>t img. img(3 * a t := v t ! 0, 3 * a t + 1 := v t ! 1, 3 * a t + 2 := v t ! 2)) xs i1 k =
    (if k div 3 \<in> a ` set xs then w k else i1 k)"
    by (rule Cons.IH) (use Cons.prems in simp)
  then show ?case unfolding fold_Cons comp_apply i1_def [symmetric] using i1 by auto
qed

text \<open>Rows of equal length behind one another.\<close>

lemma concat_rows_nth:
  assumes "\<And>y. y < n \<Longrightarrow> length (f y) = w" "y < n" "x < w"
  shows "concat (map f [0..<n]) ! (w * y + x) = f y ! x"
  using assms
proof (induction n)
  case (Suc n)
  have len: "length (concat (map f [0..<n])) = w * n"
  proof -
    have "map (length \<circ> f) [0..<n] = map (\<lambda>_. w) [0..<n]" using Suc.prems(1) by (intro map_cong) simp_all
    then show ?thesis by (simp only: length_concat map_map) (simp add: sum_list_triv)
  qed
  show ?case
  proof (cases "y = n")
    case True
    then show ?thesis using len by (simp add: nth_append)
  next
    case False
    then have y: "y < n" using Suc.prems(2) by simp
    then have "w * y + x < w * n"
      using Suc.prems(3) by (metis add.commute mult.commute mult_Suc_right nat_add_left_cancel_less less_le_trans Suc_leI mult_le_mono2)
    then show ?thesis using Suc y len by (simp add: nth_append)
  qed
qed simp

text \<open>
  C13. The image of a macroblock. The loops, which fill four pixels of each half per step through moving pointers, store at every
  place of the 16 by 16 image the pixel of its own luminance sample (of the block for its quarter) and of the colour
  samples shared by two by two pixels, in both formats; and the reordering for register reads puts the four quarters of
  the image behind one another, each in rows.
\<close>

theorem mdec_image:
  "(\<forall>p<256. yuv2rgb15 cmd blk p = pixel15 (if cmd AND 0x02000000 \<noteq> 0 then 0x8000 else 0)
       (blk (luma_index p)) (blk (64 + chroma_index p)) (blk (chroma_index p))) \<and>
   (\<forall>p<256. \<forall>j<3. yuv2rgb24 blk (3 * p + j) = pixel24 (blk (luma_index p)) (blk (64 + chroma_index p)) (blk (chroma_index p)) ! j) \<and>
   (\<forall>b<4. \<forall>y<8. \<forall>x<8. raster_to_block_15 img (64 * b + 8 * y + x) = img (16 * (8 * (b div 2) + y) + 8 * (b mod 2) + x))"
proof -
  have st: "snd t = (luma_index (fst t), chroma_index (fst t))" if "t \<in> set image_stores" for t
    using image_stores_indices [OF that] by simp
  have 1: "yuv2rgb15 cmd blk p = pixel15 (if cmd AND 0x02000000 \<noteq> 0 then 0x8000 else 0)
       (blk (luma_index p)) (blk (64 + chroma_index p)) (blk (chroma_index p))" if "p < 256" for p
    unfolding yuv2rgb15_def Let_def case_prod_unfold
    by (subst fold_stores [where w = "\<lambda>p. pixel15 (if cmd AND 0x02000000 \<noteq> 0 then 0x8000 else 0)
       (blk (luma_index p)) (blk (64 + chroma_index p)) (blk (chroma_index p))"])
      (use that in \<open>simp_all add: st image_stores_places\<close>)
  define w where "w = (\<lambda>k. pixel24 (blk (luma_index (k div 3))) (blk (64 + chroma_index (k div 3))) (blk (chroma_index (k div 3))) ! (k mod 3))"
  have 2: "yuv2rgb24 blk (3 * p + j) = pixel24 (blk (luma_index p)) (blk (64 + chroma_index p)) (blk (chroma_index p)) ! j"
    if "p < 256" "j < 3" for p j
  proof -
    have "yuv2rgb24 blk (3 * p + j) = (if (3 * p + j) div 3 \<in> fst ` set image_stores then w (3 * p + j) else 0)"
      unfolding yuv2rgb24_def Let_def case_prod_unfold
      by (rule fold_triple_stores) (simp add: st w_def)
    then show ?thesis using that by (simp add: image_stores_places w_def)
  qed
  define quarter where "quarter = (\<lambda>r c. concat (map (\<lambda>y. map (\<lambda>x. img ((y + r) * 16 + c + x)) [0..<8]) [0..<8]))"
  have q: "quarter r c ! (8 * y + x) = img ((y + r) * 16 + c + x)" if "y < 8" "x < 8" for r c y x
    using concat_rows_nth [of 8 "\<lambda>y. map (\<lambda>x. img ((y + r) * 16 + c + x)) [0..<8]" 8 y x] that by (simp add: quarter_def)
  have len: "length (quarter r c) = 64" for r c
    by (simp add: quarter_def length_concat comp_def sum_list_triv)
  have r: "raster_to_block_15 img = (!) (quarter 0 0 @ quarter 0 8 @ quarter 8 0 @ quarter 8 8)"
    by (simp add: raster_to_block_15_def Let_def quarter_def)
  have 3: "raster_to_block_15 img (64 * b + 8 * y + x) = img (16 * (8 * (b div 2) + y) + 8 * (b mod 2) + x)"
    if "b < 4" "y < 8" "x < 8" for b y x
  proof -
    have "8 * y + x < 64" using that by simp
    moreover have "b = 0 \<or> b = 1 \<or> b = 2 \<or> b = 3" using that by auto
    ultimately show ?thesis
      using q [OF that(2,3)] by (elim disjE) (simp_all add: r nth_append len add.assoc algebra_simps)
  qed
  show ?thesis using 1 2 3 by blast
qed

section \<open>What the decoder leaves alone\<close>

text \<open>
  A view of the machine that shows neither the decoder's registers, nor main memory, nor the page generations of the
  recompiler: no operation of the decoder changes it.
\<close>

locale decoder_view =
  fixes view :: "'a vmachine_scheme \<Rightarrow> 'v"
  assumes upd_view: "view (upd_mdec g s) = view s"
    and ram_view: "view (s\<lparr>psx_ram := m\<rparr>) = view s"
    and page_view: "view (jit_invalidate_page p s) = view s"
begin

lemma ram_put_view: "ram_put img bs s = Some t \<Longrightarrow> view t = view s"
  by (auto simp: ram_put_def ram_view split: if_splits)

lemma command_view: "view (MDEC_WriteCommand v s) = view s" "view (MDEC_WriteControl v s) = view s"
  by (simp_all add: MDEC_WriteCommand_def MDEC_WriteControl_def upd_view)

lemma out_block_view: "mdec_decode_out_block s = Some t \<Longrightarrow> view t = view s"
  by (auto simp: mdec_decode_out_block_def Let_def upd_view split: if_splits option.splits prod.splits)

lemma take_word_view: "view (snd (mdec_take_word s)) = view s"
  by (simp add: mdec_take_word_def upd_view)

lemma read_view:
  assumes "MDEC_ReadData s = Some (v, t)"
  shows "view t = view s"
proof (cases "out_end (mdec s) \<le> out_pos (mdec s) \<and> mdec_has_input (mdec s)")
  case True
  then obtain u where "mdec_decode_out_block s = Some u" "(v, t) = mdec_take_word u"
    using assms by (auto simp: MDEC_ReadData_def)
  then show ?thesis using take_word_view [of u] out_block_view by (metis snd_conv)
next
  case False
  then have "(v, t) = mdec_take_word s \<or> t = s" using assms by (auto simp: MDEC_ReadData_def split: if_splits)
  then show ?thesis using take_word_view [of s] by (metis snd_conv)
qed

lemma status_view: "MDEC_ReadStatus s = Some (v, t) \<Longrightarrow> view t = view s"
  by (auto simp: MDEC_ReadStatus_def mdec_try_decode_def Let_def dest: out_block_view split: if_splits)

lemma blocks_view: "dma1_blocks img sz s = Some (img', sz', t) \<Longrightarrow> view t = view s"
proof (induction img sz s rule: dma1_blocks.induct)
  case (1 img sz s)
  show ?case
  proof (cases "block_bytes (mdec_depth (mdec s)) \<le> sz \<and> rl_pos (mdec s) < rl_end (mdec s)")
    case True
    then obtain bs rl u where b: "mdec_macroblock s = Some (bs, rl)" "ram_put img bs (upd_mdec (\<lambda>m. m\<lparr>rl_pos := rl\<rparr>) s) = Some u"
      "dma1_blocks (img + of_nat (block_bytes (mdec_depth (mdec s)))) (sz - block_bytes (mdec_depth (mdec s))) u = Some (img', sz', t)"
      using "1.prems" by (subst (asm) dma1_blocks.simps) (auto split: option.splits prod.splits)
    from "1.IH" [OF True b(1) refl b(2) b(3)] ram_put_view [OF b(2)] show ?thesis by (simp add: upd_view)
  next
    case False
    then show ?thesis using "1.prems" by (subst (asm) dma1_blocks.simps) auto
  qed
qed

lemma flush_view: "dma1_flush img sz s = Some (img', sz', t) \<Longrightarrow> view t = view s"
  by (auto simp: dma1_flush_def Let_def upd_view dest: ram_put_view split: option.splits if_splits)

lemma partial_view: "dma1_partial img sz s = Some t \<Longrightarrow> view t = view s"
  by (auto simp: dma1_partial_def upd_view dest!: ram_put_view split: option.splits if_splits prod.splits)

lemma invalidate_view: "view (dma1_invalidate a n s) = view s"
proof -
  have "view (fold (\<lambda>p s. if of_nat p \<le> drop_bit 12 (a + n - 1) then jit_invalidate_page (of_nat p) s else s) ps s) = view s" for ps
    by (induction ps arbitrary: s) (simp_all add: page_view)
  then show ?thesis by (simp add: dma1_invalidate_def)
qed

lemma dma1_view: "MDEC_DMA1 ma bc cc s = Some t \<Longrightarrow> view t = view s"
  by (auto simp: MDEC_DMA1_def Let_def upd_view invalidate_view dest!: flush_view blocks_view partial_view
      split: if_splits option.splits prod.splits)

lemma dma0_view: "MDEC_DMA0 ma bc cc s = Some t \<Longrightarrow> view t = view s"
  by (auto simp: MDEC_DMA0_def dma0_decode_def Let_def upd_view dest!: dma1_view split: if_splits)

lemma installed:
  assumes "devices_keep view d" "\<And>s. view (wild s) = view s"
  shows "devices_keep view (with_mdec wild d)"
proof -
  have "view (defined_or wild f s) = view s" if "\<And>t. f s = Some t \<Longrightarrow> view t = view s" for f s
    using that assms(2) by (simp add: defined_or_def split: option.split)
  moreover have "view (snd (defined_value_or wild f s)) = view s" if "\<And>v t. f s = Some (v, t) \<Longrightarrow> view t = view s" for f s
    using that assms(2) by (auto simp: defined_value_or_def split: option.split)
  ultimately show ?thesis
    using assms(1) by (simp add: devices_keep_def with_mdec_def dma0_view dma1_view read_view status_view command_view)
qed

end

interpretation mdec_bus: decoder_view "\<lambda>s :: 'a vmachine_scheme. bus_view s"
  by unfold_locales (simp_all add: upd_mdec_def bus_view_def jit_invalidate_page_def Let_def)

interpretation mdec_dma: decoder_view "\<lambda>s :: 'a vmachine_scheme. dma s"
  by unfold_locales (simp_all add: upd_mdec_def jit_invalidate_page_def Let_def)

interpretation mdec_spu: decoder_view "\<lambda>s :: 'a vmachine_scheme. spu s"
  by unfold_locales (simp_all add: upd_mdec_def jit_invalidate_page_def Let_def)

text \<open>
  The decoder keeps the contract of the bus. With the motion decoder in place of the devices' parameters, the devices
  leave the processor's registers, the branch state, the cycle counter and the DMA registers alone, provided that the
  other devices do and that a read outside the stream's array, which the language does not define, does too.
\<close>

theorem mdec_keeps_bus_contract:
  fixes d :: "'a vmachine_scheme devices"
  assumes "bus_devices d" "devices_keep dma d" "\<And>s. bus_view (wild s) = bus_view s" "\<And>s. dma (wild s) = dma s"
  shows "bus_devices (with_mdec wild d) \<and> devices_keep dma (with_mdec wild d)"
  using assms mdec_bus.installed [of d wild] mdec_dma.installed [of d wild] by (simp add: bus_devices_def)

section \<open>Where the output goes\<close>

lemma mdec_depth_le: "mdec_depth m \<le> 3"
proof -
  have "drop_bit 27 (reg0 m) AND 3 \<le> 3" by (rule word_and_le1)
  then show ?thesis by (simp add: mdec_depth_def word_le_nat_alt)
qed

lemma halfword_bytes_length: "length (halfword_bytes img) = 512"
  by (simp add: halfword_bytes_def length_concat comp_def sum_list_triv)

lemma macroblock_length: "mdec_macroblock s = Some (bs, rl) \<Longrightarrow> length bs = block_bytes (mdec_depth (mdec s))"
  using mdec_depth_le [of "mdec s"]
  by (auto simp: mdec_macroblock_def Let_def block_bytes_def y_to_mono4_def y_to_mono8_def halfword_bytes_length
      split: option.splits if_splits prod.splits)

text \<open>Memory outside the bytes from \<open>lo\<close> to \<open>hi\<close> is the same.\<close>

definition ram_same_outside :: "nat \<Rightarrow> nat \<Rightarrow> bytes \<Rightarrow> bytes \<Rightarrow> bool" where
  "ram_same_outside l h m m' \<longleftrightarrow> (\<forall>a. unat a < l \<or> h \<le> unat a \<longrightarrow> m' a = m a)"

lemma ram_same_refl: "ram_same_outside l h m m"
  by (simp add: ram_same_outside_def)

lemma ram_same_trans:
  "ram_same_outside l k m m' \<Longrightarrow> ram_same_outside k h m' m'' \<Longrightarrow> l \<le> k \<Longrightarrow> k \<le> h \<Longrightarrow> ram_same_outside l h m m''"
  by (simp add: ram_same_outside_def)

lemma ram_same_mono: "ram_same_outside l k m m' \<Longrightarrow> k \<le> h \<Longrightarrow> ram_same_outside l h m m'"
  by (simp add: ram_same_outside_def)

lemma ram_put_same:
  assumes "ram_put img bs s = Some t"
  shows "ram_same_outside (unat img) (unat img + length bs) (psx_ram s) (psx_ram t)"
  using assms store_bytes_other [of img bs _ "psx_ram s"]
  by (auto simp: ram_put_def ram_same_outside_def PSX_RAM_SIZE_def split: if_splits)

lemma img_advance: "unat img + n \<le> 0x200000 \<Longrightarrow> unat (img + of_nat n :: u32) = unat img + n"
  by (simp add: unat_word_ariths unat_of_nat)

lemma blocks_same:
  "dma1_blocks img sz s = Some (img', sz', t) \<Longrightarrow> unat img + sz \<le> 0x200000 \<Longrightarrow>
    unat img' + sz' = unat img + sz \<and> unat img \<le> unat img' \<and> mdec_depth (mdec t) = mdec_depth (mdec s) \<and>
    ram_same_outside (unat img) (unat img') (psx_ram s) (psx_ram t)"
proof (induction img sz s rule: dma1_blocks.induct)
  case (1 img sz s)
  define n where "n = block_bytes (mdec_depth (mdec s))"
  show ?case
  proof (cases "n \<le> sz \<and> rl_pos (mdec s) < rl_end (mdec s)")
    case True
    then obtain bs rl u where b: "mdec_macroblock s = Some (bs, rl)" "ram_put img bs (upd_mdec (\<lambda>m. m\<lparr>rl_pos := rl\<rparr>) s) = Some u"
      "dma1_blocks (img + of_nat n) (sz - n) u = Some (img', sz', t)"
      using "1.prems"(1) unfolding n_def by (subst (asm) dma1_blocks.simps) (auto split: option.splits prod.splits)
    have i: "unat (img + of_nat n) = unat img + n" using img_advance True "1.prems"(2) by simp
    have u: "mdec_depth (mdec u) = mdec_depth (mdec s)" using ram_put_mdec [OF b(2)] by (simp add: upd_mdec_def mdec_depth_def)
    have same: "ram_same_outside (unat img) (unat (img + of_nat n)) (psx_ram s) (psx_ram u)"
      using ram_put_same [OF b(2)] macroblock_length [OF b(1)] unfolding i by (simp add: n_def upd_mdec_def)
    from "1.IH" [OF True [unfolded n_def] b(1) refl b(2), folded n_def, OF b(3)] True "1.prems"(2) i
    have "unat img' + sz' = unat (img + of_nat n) + (sz - n) \<and> unat (img + of_nat n) \<le> unat img' \<and> mdec_depth (mdec t) = mdec_depth (mdec u) \<and>
      ram_same_outside (unat (img + of_nat n)) (unat img') (psx_ram u) (psx_ram t)" by simp
    then show ?thesis using ram_same_trans [OF same] i u True by auto
  next
    case False
    then have "img' = img" "sz' = sz" "t = s"
      using "1.prems"(1) unfolding n_def by (subst (asm) dma1_blocks.simps, auto)+
    then show ?thesis using False by (auto simp: ram_same_refl n_def)
  qed
qed

lemma flush_same:
  assumes "dma1_flush img sz s = Some (img', sz', t)" "unat img + sz \<le> 0x200000"
  shows "unat img' + sz' = unat img + sz \<and> unat img \<le> unat img' \<and> ram_same_outside (unat img) (unat img') (psx_ram s) (psx_ram t)"
proof (cases "block_buffer_pos (mdec s)")
  case None
  then show ?thesis using assms(1) by (auto simp: dma1_flush_def ram_same_refl)
next
  case (Some p)
  define n0 where "n0 = unat (word_of_int (int (block_bytes (mdec_depth (mdec s))) - int p) :: u32)"
  define n where "n = (if n0 > sz then sz else n0)"
  obtain u where u: "ram_put img (map (block_buffer (mdec s)) [p..<p + n]) s = Some u" "img' = img + of_nat n" "sz' = sz - n"
    "t = upd_mdec (\<lambda>m. m\<lparr>block_buffer_pos := None\<rparr>) u"
    using assms(1) Some by (auto simp: dma1_flush_def Let_def n_def n0_def split: if_splits)
  have "n \<le> sz" by (simp add: n_def)
  then show ?thesis using ram_put_same [OF u(1)] img_advance [of img n] assms(2) by (simp add: u(2-4) upd_mdec_def)
qed

lemma partial_same:
  assumes "dma1_partial img sz s = Some t"
  shows "ram_same_outside (unat img) (unat img + sz) (psx_ram s) (psx_ram t)"
  using assms by (auto simp: dma1_partial_def ram_same_refl upd_mdec_def dest!: ram_put_same split: if_splits option.splits prod.splits)

lemma invalidate_ram: "psx_ram (dma1_invalidate a n s) = psx_ram s" "mdec (dma1_invalidate a n s) = mdec s"
proof -
  have "psx_ram (fold (\<lambda>p s. if of_nat p \<le> drop_bit 12 (a + n - 1) then jit_invalidate_page (of_nat p) s else s) ps s) = psx_ram s \<and>
    mdec (fold (\<lambda>p s. if of_nat p \<le> drop_bit 12 (a + n - 1) then jit_invalidate_page (of_nat p) s else s) ps s) = mdec s" for ps
    by (induction ps arbitrary: s) (simp_all add: jit_invalidate_page_def Let_def)
  then show "psx_ram (dma1_invalidate a n s) = psx_ram s" "mdec (dma1_invalidate a n s) = mdec s"
    by (simp_all add: dma1_invalidate_def)
qed

lemma map_option_cases:
  "(case x of None \<Rightarrow> None | Some (a, b, c) \<Rightarrow> (case g a b c of None \<Rightarrow> None | Some (p, q, r) \<Rightarrow> map_option h (k p q r))) =
   map_option h (case x of None \<Rightarrow> None | Some (a, b, c) \<Rightarrow> (case g a b c of None \<Rightarrow> None | Some (p, q, r) \<Rightarrow> k p q r))"
  by (simp split: option.split)

lemma MDEC_DMA1_result:
  fixes s t :: "'a vmachine_scheme"
  assumes "MDEC_DMA1 ma bc cc s = Some t"
  obtains (idle) "t = s \<or> t = upd_mdec (\<lambda>m. m\<lparr>pending_adr := ma, pending_bcr := bc, pending_chcr := cc\<rparr>) s"
  | (transfer) img sz s1 img' sz' s2 s3 r where "reg1 (mdec s) AND MDEC1_BUSY \<noteq> 0"
      "dma1_flush (ma AND 0x1FFFFC) (unat (mdec_total_words bc * 4)) s = Some (img, sz, s1)"
      "dma1_blocks img sz s1 = Some (img', sz', s2)" "dma1_partial img' sz' s2 = Some s3"
      "psx_ram t = psx_ram s3" "mdec t = (mdec s3)\<lparr>reg1 := r\<rparr>"
proof -
  define skip where "skip \<longleftrightarrow> cc \<noteq> 0x01000200 \<or> reg1 (mdec s) AND MDEC1_BUSY = 0 \<or> \<not> mdec_has_input (mdec s) \<or>
    (ma AND 0x1FFFFC) + mdec_total_words bc * 4 > PSX_RAM_SIZE"
  show ?thesis
  proof (cases skip)
    case True
    then have "t = s \<or> t = upd_mdec (\<lambda>m. m\<lparr>pending_adr := ma, pending_bcr := bc, pending_chcr := cc\<rparr>) s"
      using assms unfolding skip_def MDEC_DMA1_def Let_def by (simp split: if_splits)
    then show ?thesis by (rule idle)
  next
    case False
    define run where "run = (case dma1_flush (ma AND 0x1FFFFC) (unat (mdec_total_words bc * 4)) s of None \<Rightarrow> None
      | Some (img, sz, s1) \<Rightarrow> case dma1_blocks img sz s1 of None \<Rightarrow> None | Some (img, sz, s2) \<Rightarrow> dma1_partial img sz s2)"
    have c: "(cc \<noteq> 0x01000200) = False" "(reg1 (mdec s) AND MDEC1_BUSY = 0 \<or> \<not> mdec_has_input (mdec s)) = False"
      "((ma AND 0x1FFFFC) + mdec_total_words bc * 4 > PSX_RAM_SIZE) = False"
      using False unfolding skip_def by blast+
    define h :: "'a vmachine_scheme \<Rightarrow> 'a vmachine_scheme" where "h = (\<lambda>s3. let s4 = dma1_invalidate (ma AND 0x1FFFFC) (mdec_total_words bc * 4) s3
          in if \<not> mdec_has_input (mdec s4) then upd_mdec (\<lambda>m. m\<lparr>reg1 := reg1 m AND NOT MDEC1_BUSY\<rparr>) s4 else s4)"
    have "map_option h run = Some t"
      using assms unfolding MDEC_DMA1_def Let_def c if_False map_option_cases run_def h_def .
    then obtain s3 where r: "run = Some s3" "t = h s3" by (cases run) auto
    have s3: "psx_ram t = psx_ram s3" "\<exists>r. mdec t = (mdec s3)\<lparr>reg1 := r\<rparr>"
    proof -
      have same: "mdec s3 = (mdec s3)\<lparr>reg1 := reg1 (mdec s3)\<rparr>" by simp
      show "psx_ram t = psx_ram s3" unfolding r(2) h_def Let_def by (simp add: upd_mdec_def invalidate_ram)
      show "\<exists>r. mdec t = (mdec s3)\<lparr>reg1 := r\<rparr>"
      proof (cases "mdec_has_input (mdec s3)")
        case True
        then have "mdec t = mdec s3" unfolding r(2) h_def Let_def by (simp add: invalidate_ram)
        then show ?thesis using same by metis
      next
        case False
        then have "mdec t = (mdec s3)\<lparr>reg1 := reg1 (mdec s3) AND NOT MDEC1_BUSY\<rparr>"
          unfolding r(2) h_def Let_def by (simp add: upd_mdec_def invalidate_ram)
        then show ?thesis by blast
      qed
    qed
    have busy: "reg1 (mdec s) AND MDEC1_BUSY \<noteq> 0" using False unfolding skip_def by blast
    obtain img sz s1 where f: "dma1_flush (ma AND 0x1FFFFC) (unat (mdec_total_words bc * 4)) s = Some (img, sz, s1)"
      using r(1) unfolding run_def by (cases "dma1_flush (ma AND 0x1FFFFC) (unat (mdec_total_words bc * 4)) s") auto
    obtain img' sz' s2 where b: "dma1_blocks img sz s1 = Some (img', sz', s2)"
      using r(1) unfolding run_def f by (cases "dma1_blocks img sz s1") auto
    have "dma1_partial img' sz' s2 = Some s3" using r(1) unfolding run_def f by (simp add: b)
    then show ?thesis using transfer [OF busy f b _ s3(1)] s3(2) by blast
  qed
qed

text \<open>
  C15. Decoded images stay in their buffer. A transfer of the output channel whose length does not wrap changes main memory only
  between its address and its end, whatever the stream holds; and afterwards the decoder is busy only if it was
  and data remain.
\<close>

theorem mdec_output_confined:
  assumes "MDEC_DMA1 ma bc cc s = Some t" "unat (ma AND 0x1FFFFC) + unat (mdec_total_words bc * 4) \<le> 0x200000"
  shows "ram_same_outside (unat (ma AND 0x1FFFFC)) (unat (ma AND 0x1FFFFC) + unat (mdec_total_words bc * 4)) (psx_ram s) (psx_ram t) \<and>
    (reg1 (mdec t) AND MDEC1_BUSY \<noteq> 0 \<longrightarrow> reg1 (mdec s) AND MDEC1_BUSY \<noteq> 0)"
proof -
  define adr where "adr = ma AND 0x1FFFFC"
  define n where "n = mdec_total_words bc * 4"
  from assms(1) have "ram_same_outside (unat adr) (unat adr + unat n) (psx_ram s) (psx_ram t) \<and>
    (reg1 (mdec t) AND MDEC1_BUSY \<noteq> 0 \<longrightarrow> reg1 (mdec s) AND MDEC1_BUSY \<noteq> 0)"
  proof (cases rule: MDEC_DMA1_result)
    case idle
    then show ?thesis by (auto simp: ram_same_refl upd_mdec_def)
  next
    case (transfer img sz s1 img' sz' s2 s3 r)
    note 2 = transfer [folded adr_def n_def]
    have f: "unat img + sz = unat adr + unat n \<and> unat adr \<le> unat img \<and> ram_same_outside (unat adr) (unat img) (psx_ram s) (psx_ram s1)"
      using flush_same [OF 2(2)] assms(2) by (simp add: adr_def n_def)
    have b: "unat img' + sz' = unat img + sz \<and> unat img \<le> unat img' \<and> ram_same_outside (unat img) (unat img') (psx_ram s1) (psx_ram s2)"
      using blocks_same [OF 2(3)] f assms(2) by (simp add: adr_def n_def)
    have "ram_same_outside (unat adr) (unat img') (psx_ram s) (psx_ram s2)"
      using ram_same_trans [of "unat adr" "unat img" "psx_ram s" "psx_ram s1" "unat img'" "psx_ram s2"] f b by blast
    then have "ram_same_outside (unat adr) (unat img' + sz') (psx_ram s) (psx_ram s3)"
      using ram_same_trans [of "unat adr" "unat img'" "psx_ram s" "psx_ram s2" "unat img' + sz'" "psx_ram s3"] f b partial_same [OF 2(4)]
      by linarith
    then show ?thesis using 2(1,5) f b by simp
  qed
  then show ?thesis by (simp add: adr_def n_def)
qed

section \<open>Uploading the tables\<close>

definition mdec_command :: "u32 \<Rightarrow> mdec_state \<Rightarrow> mdec_state" where
  "mdec_command data m = (case fifo_state m of
       MDEC_STATE_RECV_DATA \<Rightarrow> mdec_receive_data data m
     | MDEC_STATE_RECV_QUANT \<Rightarrow> mdec_receive_quant data m
     | MDEC_STATE_RECV_SCALE \<Rightarrow> mdec_receive_scale data m
     | MDEC_STATE_IDLE \<Rightarrow> mdec_new_command data m)"

lemma mdec_upd [simp]: "mdec (upd_mdec f s) = f (mdec s)" "psx_ram (upd_mdec f s) = psx_ram s"
  by (simp_all add: upd_mdec_def)

lemma mdec_write_command: "mdec (MDEC_WriteCommand c s) = mdec_command c (mdec s)" "psx_ram (MDEC_WriteCommand c s) = psx_ram s"
  by (simp_all add: MDEC_WriteCommand_def mdec_command_def)

lemma mdec_write_commands: "mdec (fold MDEC_WriteCommand ws s) = fold mdec_command ws (mdec s)"
  by (induction ws arbitrary: s) (simp_all add: mdec_write_command)

text \<open>The bytes and the halfwords of the words written to the register.\<close>

definition word_byte :: "u32 list \<Rightarrow> nat \<Rightarrow> u8" where
  "word_byte ws i = ucast (drop_bit (8 * (i mod 4)) (ws ! (i div 4)))"

definition word_half :: "u32 list \<Rightarrow> nat \<Rightarrow> u16" where
  "word_half ws i = ucast (drop_bit (16 * (i mod 2)) (ws ! (i div 2)))"

lemma word_byte_snoc:
  "i < 4 * length ws \<Longrightarrow> word_byte (ws @ [w]) i = word_byte ws i"
  "j < 4 \<Longrightarrow> word_byte (ws @ [w]) (4 * length ws + j) = ucast (drop_bit (8 * j) w)"
  by (simp_all add: word_byte_def nth_append) (simp add: less_mult_imp_div_less mult.commute)

lemma word_half_snoc:
  "i < 2 * length ws \<Longrightarrow> word_half (ws @ [w]) i = word_half ws i"
  "j < 2 \<Longrightarrow> word_half (ws @ [w]) (2 * length ws + j) = ucast (drop_bit (16 * j) w)"
  by (simp_all add: word_half_def nth_append) (simp add: less_mult_imp_div_less mult.commute)

lemma store_word_bytes:
  fixes buf :: "nat \<Rightarrow> u8"
  shows "(\<lambda>i. if i < 4 * length ws then word_byte ws i else buf i)(4 * length ws := ucast w,
      4 * length ws + 1 := ucast (drop_bit 8 w), 4 * length ws + 2 := ucast (drop_bit 16 w), 4 * length ws + 3 := ucast (drop_bit 24 w)) =
    (\<lambda>i. if i < 4 * length (ws @ [w]) then word_byte (ws @ [w]) i else buf i)" (is "?l = ?r")
proof (rule ext)
  fix i
  consider "i < 4 * length ws" | j where "j < 4" "i = 4 * length ws + j" | "4 * length ws + 4 \<le> i"
    by (metis add.commute le_add_diff_inverse less_diff_conv2 linorder_not_less)
  then show "?l i = ?r i"
  proof cases
    case 1
    then show ?thesis by (simp add: word_byte_snoc)
  next
    case 2
    then have "j = 0 \<or> j = 1 \<or> j = 2 \<or> j = 3" by auto
    then show ?thesis using word_byte_snoc(2) [OF 2(1), of ws w] 2 by (elim disjE) simp_all
  next
    case 3
    then show ?thesis by simp
  qed
qed

lemma store_word_halves:
  fixes buf :: "nat \<Rightarrow> u16"
  shows "(\<lambda>i. if i < 2 * length ws then word_half ws i else buf i)(2 * length ws := ucast w, 2 * length ws + 1 := ucast (drop_bit 16 w)) =
    (\<lambda>i. if i < 2 * length (ws @ [w]) then word_half (ws @ [w]) i else buf i)"
  using word_half_snoc(2) [of 0 ws w] word_half_snoc(2) [of 1 ws w]
  by (auto simp: fun_eq_iff word_half_snoc(1) less_Suc_eq)

lemma quant_prefix:
  assumes "fifo_state m = MDEC_STATE_RECV_QUANT" "qt_pos m = 0" "fifo_remaining m = int n" "length ws < n" "n \<le> 32"
  shows "fold mdec_command ws m = m\<lparr>qt_buffer := (\<lambda>i. if i < 4 * length ws then word_byte ws i else qt_buffer m i),
    qt_pos := 4 * length ws, fifo_remaining := int n - int (length ws)\<rparr>"
  using assms(4)
proof (induction ws rule: rev_induct)
  case Nil
  then show ?case using assms by simp
next
  case (snoc w ws)
  have "fold mdec_command ws m = m\<lparr>qt_buffer := (\<lambda>i. if i < 4 * length ws then word_byte ws i else qt_buffer m i),
    qt_pos := 4 * length ws, fifo_remaining := int n - int (length ws)\<rparr>" using snoc by simp
  then show ?case
    unfolding fold_append comp_apply store_word_bytes [symmetric]
    using assms snoc.prems by (simp add: mdec_command_def mdec_receive_quant_def Let_def)
qed

lemma scale_prefix:
  assumes "fifo_state m = MDEC_STATE_RECV_SCALE" "scale_pos m = 0" "fifo_remaining m = 32" "length ws < 32"
  shows "fold mdec_command ws m = m\<lparr>scale_staging := (\<lambda>i. if i < 2 * length ws then word_half ws i else scale_staging m i),
    scale_pos := 2 * length ws, fifo_remaining := 32 - int (length ws)\<rparr>"
  using assms(4)
proof (induction ws rule: rev_induct)
  case Nil
  then show ?case using assms by simp
next
  case (snoc w ws)
  have "fold mdec_command ws m = m\<lparr>scale_staging := (\<lambda>i. if i < 2 * length ws then word_half ws i else scale_staging m i),
    scale_pos := 2 * length ws, fifo_remaining := 32 - int (length ws)\<rparr>" using snoc by simp
  then show ?case
    unfolding fold_append comp_apply store_word_halves [symmetric]
    using assms snoc.prems by (simp add: mdec_command_def mdec_receive_scale_def Let_def)
qed


lemma iqtab_init_cong: "(\<And>i. i < 64 \<Longrightarrow> q i = q' i) \<Longrightarrow> iqtab_init q = iqtab_init q'"
  by (simp add: iqtab_init_def fun_eq_iff)

lemma quant_upload:
  assumes "fifo_state m = MDEC_STATE_RECV_QUANT" "qt_pos m = 0" "fifo_remaining m = int (length ws)"
    and "length ws = (if qt_has_uv m then 32 else 16)"
  shows "let t = fold mdec_command ws m in fifo_state t = MDEC_STATE_IDLE \<and> iq_y t = iqtab_init (word_byte ws) \<and>
    iq_uv t = iqtab_init (if qt_has_uv m then (\<lambda>i. word_byte ws (64 + i)) else word_byte ws)"
proof -
  obtain us w where ws: "ws = us @ [w]" using assms(4) by (cases ws rule: rev_cases) (auto split: if_splits)
  have n: "length us = (if qt_has_uv m then 31 else 15)" using assms(4) ws by (auto split: if_splits)
  have p: "fold mdec_command us m = m\<lparr>qt_buffer := (\<lambda>i. if i < 4 * length us then word_byte us i else qt_buffer m i),
    qt_pos := 4 * length us, fifo_remaining := 1\<rparr>"
    using quant_prefix [of m "Suc (length us)" us] assms(1,2,3) n ws by simp
  define b where "b = (\<lambda>i. if i < 4 * length ws then word_byte ws i else qt_buffer m i)"
  define mb where "mb = m\<lparr>qt_buffer := b, qt_pos := 4 * length ws, fifo_remaining := 0\<rparr>"
  have room: "4 * length us + 4 \<le> 128" using n by simp
  have step: "fold mdec_command ws m = mb\<lparr>iq_y := iqtab_init b, iq_uv := iqtab_init (if qt_has_uv m then (\<lambda>i. b (64 + i)) else b),
      fifo_state := MDEC_STATE_IDLE\<rparr>"
    unfolding mb_def b_def ws store_word_bytes [symmetric]
    using assms(1) room by (simp add: p mdec_command_def mdec_receive_quant_def Let_def)
  have "iqtab_init b = iqtab_init (word_byte ws)" "qt_has_uv m \<Longrightarrow> iqtab_init (\<lambda>i. b (64 + i)) = iqtab_init (\<lambda>i. word_byte ws (64 + i))"
    by (rule iqtab_init_cong, use assms(4) in \<open>auto simp: b_def split: if_splits\<close>)+
  then show ?thesis unfolding step by (simp add: Let_def)
qed

lemma scale_upload:
  assumes "fifo_state m = MDEC_STATE_RECV_SCALE" "scale_pos m = 0" "fifo_remaining m = 32" "length ws = 32"
  shows "let t = fold mdec_command ws m in fifo_state t = MDEC_STATE_IDLE \<and> (\<forall>k<64. scale_table t k = word_half ws k)"
proof -
  obtain us w where ws: "ws = us @ [w]" using assms(4) by (cases ws rule: rev_cases) auto
  have n: "length us = 31" using assms(4) ws by simp
  have p: "fold mdec_command us m = m\<lparr>scale_staging := (\<lambda>i. if i < 2 * length us then word_half us i else scale_staging m i),
    scale_pos := 2 * length us, fifo_remaining := 1\<rparr>"
    using scale_prefix [of m us] assms n by simp
  have room: "2 * length us + 2 \<le> 64" using n by simp
  have last_word: "fifo_state (mdec_receive_scale w (m\<lparr>scale_staging := f, scale_pos := k, fifo_remaining := 1\<rparr>)) = MDEC_STATE_IDLE"
      "\<And>i. i < 64 \<Longrightarrow> scale_table (mdec_receive_scale w (m\<lparr>scale_staging := f, scale_pos := k, fifo_remaining := 1\<rparr>)) i =
        (f(k := ucast w, k + 1 := ucast (drop_bit 16 w))) i" if "k + 2 \<le> 64" for f k
    using that by (simp_all add: mdec_receive_scale_def Let_def)
  have "fold mdec_command ws m = mdec_receive_scale w (m\<lparr>scale_staging := (\<lambda>i. if i < 2 * length us then word_half us i else scale_staging m i),
      scale_pos := 2 * length us, fifo_remaining := 1\<rparr>)"
    unfolding ws fold_append comp_apply p using assms(1) by (simp add: mdec_command_def)
  note run = this
  have "scale_table (fold mdec_command ws m) i = word_half ws i" if i: "i < 64" for i
  proof -
    have "scale_table (fold mdec_command ws m) i = ((\<lambda>i. if i < 2 * length us then word_half us i else scale_staging m i)
        (2 * length us := ucast w, 2 * length us + 1 := ucast (drop_bit 16 w))) i"
      unfolding run by (rule last_word(2) [OF room i])
    also have "\<dots> = word_half ws i" unfolding store_word_halves ws [symmetric] using i assms(4) by simp
    finally show ?thesis .
  qed
  then show ?thesis using last_word(1) [OF room] run by (simp add: Let_def)
qed

text \<open>
  Tables uploaded through the command register. From an idle decoder, the quantiser command with its 16 or 32 words sets both
  tables from the bytes written (the second half for colour, or the same table for both), the scale command with its 32
  words sets the matrix from the halfwords in the order written, and the decoder is idle again.
\<close>

theorem mdec_register_upload:
  assumes "fifo_state (mdec s) = MDEC_STATE_IDLE"
  shows "(drop_bit 29 c AND 7 = 2 \<and> length ws = (if bit c 0 then 32 else 16) \<longrightarrow>
      (let m = mdec (fold MDEC_WriteCommand ws (MDEC_WriteCommand c s))
       in fifo_state m = MDEC_STATE_IDLE \<and> iq_y m = iqtab_init (word_byte ws) \<and>
          iq_uv m = iqtab_init (if bit c 0 then (\<lambda>i. word_byte ws (64 + i)) else word_byte ws))) \<and>
    (drop_bit 29 c AND 7 = 3 \<and> length ws = 32 \<longrightarrow>
      (let m = mdec (fold MDEC_WriteCommand ws (MDEC_WriteCommand c s))
       in fifo_state m = MDEC_STATE_IDLE \<and> (\<forall>k<64. scale_table m k = word_half ws k)))"
proof -
  define m where "m = mdec_command c (mdec s)"
  have run: "mdec (fold MDEC_WriteCommand ws (MDEC_WriteCommand c s)) = fold mdec_command ws m"
    by (simp add: mdec_write_commands mdec_write_command m_def)
  have m: "m = mdec_new_command c (mdec s)" using assms by (simp add: m_def mdec_command_def)
  have q: "fifo_state m = MDEC_STATE_RECV_QUANT" "qt_pos m = 0" "qt_has_uv m = bit c 0" "fifo_remaining m = (if bit c 0 then 32 else 16)"
    if "drop_bit 29 c AND 7 = 2" using that by (simp_all add: m mdec_new_command_def Let_def)
  have z: "fifo_state m = MDEC_STATE_RECV_SCALE" "scale_pos m = 0" "fifo_remaining m = 32"
    if "drop_bit 29 c AND 7 = 3" using that by (simp_all add: m mdec_new_command_def Let_def)
  show ?thesis
    unfolding run using quant_upload [of m ws] scale_upload [of m ws] q z by (auto split: if_splits)
qed

text \<open>
  C14. Tables uploaded by DMA. After the command word has been written to the register, the input channel sets the tables from
  memory, but the scale matrix is stored transposed, unlike through the register; and the decoder still waits for the
  parameter words, so that the next command written to the register is taken for one of them and lost.
\<close>

theorem mdec_dma_upload:
  assumes "fifo_state (mdec s) = MDEC_STATE_IDLE" "MDEC_DMA0 ma bc 0x01000201 (MDEC_WriteCommand c s) = Some t"
    and "adr = ma AND 0x1FFFFC" "adr + mdec_total_words bc * 4 \<le> PSX_RAM_SIZE"
  shows "(drop_bit 29 c AND 7 = 2 \<longrightarrow> iq_y (mdec t) = iqtab_init (\<lambda>i. psx_ram s (adr + of_nat i)) \<and>
      iq_uv (mdec t) = iqtab_init (\<lambda>i. psx_ram s (adr + of_nat (if mdec_total_words bc > 16 then 64 + i else i))) \<and>
      reg0 (mdec (MDEC_WriteCommand c' t)) = c) \<and>
    (drop_bit 29 c AND 7 = 3 \<longrightarrow> (\<forall>x<8. \<forall>y<8. scale_table (mdec t) (8 * y + x) = load16 (psx_ram s) (adr + 2 * of_nat (8 * x + y))) \<and>
      reg0 (mdec (MDEC_WriteCommand c' t)) = c)"
proof -
  define m where "m = mdec_new_command c (mdec s)"
  have m: "mdec (MDEC_WriteCommand c s) = m" using assms(1) by (simp add: mdec_write_command mdec_command_def m_def)
  have r0: "reg0 m = c" by (simp add: m_def mdec_new_command_def Let_def)
  have fit: "(adr + mdec_total_words bc * 4 > PSX_RAM_SIZE) = False" using assms(4) by (simp add: not_less)
  have lost: "reg0 (mdec (MDEC_WriteCommand c' t)) = reg0 (mdec t)"
    if "fifo_state (mdec t) = MDEC_STATE_RECV_QUANT \<or> fifo_state (mdec t) = MDEC_STATE_RECV_SCALE"
    using that by (auto simp: mdec_write_command mdec_command_def mdec_receive_quant_def mdec_receive_scale_def Let_def)
  have 2: "iq_y (mdec t) = iqtab_init (\<lambda>i. psx_ram s (adr + of_nat i)) \<and>
      iq_uv (mdec t) = iqtab_init (\<lambda>i. psx_ram s (adr + of_nat (if mdec_total_words bc > 16 then 64 + i else i))) \<and>
      reg0 (mdec (MDEC_WriteCommand c' t)) = c" if k: "drop_bit 29 c AND 7 = 2"
  proof -
    have w: "fifo_state m = MDEC_STATE_RECV_QUANT" using k by (simp add: m_def mdec_new_command_def Let_def)
    have "mdec t = m\<lparr>reg1 := reg1 m OR MDEC1_STP, iq_y := iqtab_init (\<lambda>i. psx_ram s (adr + of_nat i)),
        iq_uv := iqtab_init (if mdec_total_words bc > 16 then (\<lambda>i. psx_ram s (adr + of_nat (64 + i))) else (\<lambda>i. psx_ram s (adr + of_nat i)))\<rparr>"
      using assms(2) unfolding MDEC_DMA0_def Let_def assms(3) [symmetric] fit m r0 mdec_write_command(2) k by (auto simp: m cong: if_cong split: if_splits)
    then show ?thesis using lost w r0 by (auto cong: if_cong)
  qed
  have 3: "(\<forall>x<8. \<forall>y<8. scale_table (mdec t) (8 * y + x) = load16 (psx_ram s) (adr + 2 * of_nat (8 * x + y))) \<and>
      reg0 (mdec (MDEC_WriteCommand c' t)) = c" if k: "drop_bit 29 c AND 7 = 3"
  proof -
    have w: "fifo_state m = MDEC_STATE_RECV_SCALE" using k by (simp add: m_def mdec_new_command_def Let_def)
    have t: "mdec t = m\<lparr>reg1 := reg1 m OR MDEC1_STP, scale_table := (\<lambda>k. if k < 64
          then load16 (psx_ram s) (adr + 2 * of_nat (k mod 8 * 8 + k div 8)) else scale_table m k)\<rparr>"
      using assms(2) unfolding MDEC_DMA0_def Let_def assms(3) [symmetric] fit m r0 mdec_write_command(2) k by (auto simp: m cong: if_cong split: if_splits)
    then show ?thesis using lost w r0 by (auto simp: mult.commute)
  qed
  show ?thesis using 2 3 by blast
qed

section \<open>The invariant of the registers\<close>

definition mdec_ok :: "mdec_state \<Rightarrow> bool" where
  "mdec_ok m \<longleftrightarrow> out_pos m \<le> out_end m \<and> out_end m \<le> 768 \<and> 4 dvd out_pos m \<and> 4 dvd out_end m \<and>
     even (mdec_in_write_idx m) \<and> mdec_in_write_idx m \<le> MDEC_IN_BUF_SIZE \<and> remaining_words m \<le> 0x10000 \<and>
     (rl_source m = IN_RAM \<longrightarrow> rl_end m \<le> PSX_RAM_SIZE) \<and>
     (\<forall>p. block_buffer_pos m = Some p \<longrightarrow> p < 768) \<and>
     (case fifo_state m of
        MDEC_STATE_IDLE \<Rightarrow> True
      | MDEC_STATE_RECV_QUANT \<Rightarrow> 1 \<le> fifo_remaining m \<and> int (qt_pos m) + 4 * fifo_remaining m = (if qt_has_uv m then 128 else 64)
      | MDEC_STATE_RECV_SCALE \<Rightarrow> 1 \<le> fifo_remaining m \<and> int (scale_pos m) + 2 * fifo_remaining m = 64
      | MDEC_STATE_RECV_DATA \<Rightarrow> rl_source m = IN_BUF \<and> rl_end m = of_nat (2 * mdec_in_write_idx m))"

lemma even_plus_2_le: "even n \<Longrightarrow> \<not> n + 2 \<le> 8192 \<Longrightarrow> n \<le> 8192 \<Longrightarrow> n = (8192 :: nat)"
  by presburger

lemma command_ok:
  assumes "mdec_ok m"
  shows "mdec_ok (mdec_command c m)"
proof (cases "fifo_state m")
  case MDEC_STATE_IDLE
  have "unat (c AND 0xFFFF) \<le> 0x10000" using word_and_le1 [of c "0xFFFF"] by (simp add: word_le_nat_alt)
  then show ?thesis
    using assms MDEC_STATE_IDLE by (auto simp: mdec_ok_def mdec_command_def mdec_new_command_def MDEC_IN_BUF_SIZE_def Let_def)
next
  case MDEC_STATE_RECV_QUANT
  then have "qt_pos m + 4 \<le> 128" using assms by (simp add: mdec_ok_def split: if_splits)
  then show ?thesis
    using assms MDEC_STATE_RECV_QUANT by (auto simp: mdec_ok_def mdec_command_def mdec_receive_quant_def Let_def)
next
  case MDEC_STATE_RECV_SCALE
  then have "scale_pos m + 2 \<le> 64" using assms by (simp add: mdec_ok_def)
  then show ?thesis
    using assms MDEC_STATE_RECV_SCALE by (auto simp: mdec_ok_def mdec_command_def mdec_receive_scale_def Let_def)
next
  case MDEC_STATE_RECV_DATA
  then show ?thesis
    using assms by (auto simp: mdec_ok_def mdec_command_def mdec_receive_data_def MDEC_IN_BUF_SIZE_def Let_def)
qed

lemma control_ok: "mdec_ok (mdec s) \<Longrightarrow> mdec_ok (mdec (MDEC_WriteControl c s))"
  by (simp add: MDEC_WriteControl_def mdec_ok_def MDEC_IN_BUF_SIZE_def)

lemma block_bytes_mult: "block_bytes d \<le> 768" "4 dvd block_bytes d"
  by (simp_all add: block_bytes_def)

lemma out_block_registers:
  assumes "mdec_decode_out_block s = Some t"
  shows "\<exists>rl b e. mdec t = (mdec s)\<lparr>rl_pos := rl, block_buffer := b, out_end := e, out_pos := 0\<rparr> \<and> (e = 0 \<or> e = block_bytes (mdec_depth (mdec s)))"
proof (cases "mdec_has_input (mdec s)")
  case True
  then obtain bs rl where r: "mdec_macroblock s = Some (bs, rl)"
    using assms by (cases "mdec_macroblock s") (auto simp: mdec_decode_out_block_def)
  have "mdec t = (mdec s)\<lparr>rl_pos := rl, block_buffer := put_bytes (if mdec_depth (mdec s) = 3
      then halfword_bytes (raster_to_block_15 (buffer_halfword bs)) else bs) (block_buffer (mdec s)),
      out_end := block_bytes (mdec_depth (mdec s)), out_pos := 0\<rparr>"
    using assms True unfolding mdec_decode_out_block_def by (auto simp: r Let_def)
  then show ?thesis by blast
next
  case False
  then have "mdec t = (mdec s)\<lparr>out_pos := 0, out_end := 0\<rparr>" using assms by (auto simp: mdec_decode_out_block_def)
  also have "\<dots> = (mdec s)\<lparr>rl_pos := rl_pos (mdec s), block_buffer := block_buffer (mdec s), out_end := 0, out_pos := 0\<rparr>"
    by (cases "mdec s") simp
  finally show ?thesis by blast
qed

lemma out_block_ok:
  assumes "mdec_ok (mdec s)" "mdec_decode_out_block s = Some t"
  shows "mdec_ok (mdec t)"
proof -
  obtain rl b e where t: "mdec t = (mdec s)\<lparr>rl_pos := rl, block_buffer := b, out_end := e, out_pos := 0\<rparr>" and
    "e = 0 \<or> e = block_bytes (mdec_depth (mdec s))" using out_block_registers [OF assms(2)] by blast
  then have "e \<le> 768" "4 dvd e" using block_bytes_mult by auto
  then show ?thesis using assms(1) unfolding t by (simp add: mdec_ok_def cong: mdec_fifo_state.case_cong)
qed

lemma take_word_ok: "mdec_ok (mdec s) \<Longrightarrow> mdec_ok (mdec (snd (mdec_take_word s)))"
proof -
  have "p + 4 \<le> e" if "4 dvd p" "4 dvd e" "p < e" for p e :: nat using that by presburger
  then show "mdec_ok (mdec s) \<Longrightarrow> mdec_ok (mdec (snd (mdec_take_word s)))"
    by (auto simp: mdec_take_word_def mdec_ok_def Let_def not_le split: mdec_fifo_state.splits)
qed

lemma read_ok:
  assumes "mdec_ok (mdec s)" "MDEC_ReadData s = Some (v, t)"
  shows "mdec_ok (mdec t)"
proof (cases "out_end (mdec s) \<le> out_pos (mdec s) \<and> mdec_has_input (mdec s)")
  case True
  then obtain u where "mdec_decode_out_block s = Some u" "(v, t) = mdec_take_word u"
    using assms(2) by (auto simp: MDEC_ReadData_def)
  then show ?thesis using take_word_ok [of u] out_block_ok [OF assms(1)] by (metis snd_conv)
next
  case False
  then have "(v, t) = mdec_take_word s \<or> t = s" using assms(2) by (auto simp: MDEC_ReadData_def split: if_splits)
  then show ?thesis using take_word_ok [OF assms(1)] assms(1) by (metis snd_conv)
qed

lemma status_ok: "mdec_ok (mdec s) \<Longrightarrow> MDEC_ReadStatus s = Some (v, t) \<Longrightarrow> mdec_ok (mdec t)"
  by (auto simp: MDEC_ReadStatus_def mdec_try_decode_def Let_def dest: out_block_ok split: if_splits)

text \<open>What a transfer of the output channel does to the registers.\<close>

lemma blocks_registers:
  "dma1_blocks img sz s = Some (img', sz', t) \<Longrightarrow> (\<exists>rl. mdec t = (mdec s)\<lparr>rl_pos := rl\<rparr>) \<and>
    (rl_pos (mdec t) < rl_end (mdec t) \<longrightarrow> sz' < block_bytes (mdec_depth (mdec t)))"
proof (induction img sz s rule: dma1_blocks.induct)
  case (1 img sz s)
  define n where "n = block_bytes (mdec_depth (mdec s))"
  show ?case
  proof (cases "n \<le> sz \<and> rl_pos (mdec s) < rl_end (mdec s)")
    case True
    then obtain bs rl u where b: "mdec_macroblock s = Some (bs, rl)" "ram_put img bs (upd_mdec (\<lambda>m. m\<lparr>rl_pos := rl\<rparr>) s) = Some u"
      "dma1_blocks (img + of_nat n) (sz - n) u = Some (img', sz', t)"
      using "1.prems"(1) unfolding n_def by (subst (asm) dma1_blocks.simps) (auto split: option.splits prod.splits)
    have "mdec u = (mdec s)\<lparr>rl_pos := rl\<rparr>" using ram_put_mdec [OF b(2)] by simp
    with "1.IH" [OF True [unfolded n_def] b(1) refl b(2), folded n_def, OF b(3)] show ?thesis by auto
  next
    case False
    then have t: "sz' = sz" "t = s"
      using "1.prems"(1) unfolding n_def by (subst (asm) dma1_blocks.simps, auto)+
    have "mdec s = (mdec s)\<lparr>rl_pos := rl_pos (mdec s)\<rparr>" by simp
    then have "\<exists>rl. mdec t = (mdec s)\<lparr>rl_pos := rl\<rparr>" unfolding t by metis
    then show ?thesis using False unfolding t n_def by auto
  qed
qed

lemma ok_rl [simp]: "mdec_ok (m\<lparr>rl_pos := rl\<rparr>) = mdec_ok m" "mdec_ok (m\<lparr>reg1 := r\<rparr>) = mdec_ok m"
    "mdec_ok (m\<lparr>block_buffer := b\<rparr>) = mdec_ok m" "mdec_ok (m\<lparr>pending_adr := p\<rparr>) = mdec_ok m" "mdec_ok (m\<lparr>pending_bcr := q\<rparr>) = mdec_ok m"
    "mdec_ok (m\<lparr>pending_chcr := k\<rparr>) = mdec_ok m" "mdec_ok (m\<lparr>iq_y := t1\<rparr>) = mdec_ok m" "mdec_ok (m\<lparr>iq_uv := t2\<rparr>) = mdec_ok m"
    "mdec_ok (m\<lparr>scale_table := st\<rparr>) = mdec_ok m"
  by (simp_all add: mdec_ok_def cong: mdec_fifo_state.case_cong)

lemma dma1_flush_ok: "mdec_ok (mdec s) \<Longrightarrow> dma1_flush img sz s = Some (img', sz', t) \<Longrightarrow> mdec_ok (mdec t)"
  by (auto simp: dma1_flush_def Let_def dest!: ram_put_mdec split: option.splits if_splits)
    (auto simp: mdec_ok_def split: mdec_fifo_state.splits)

lemma partial_ok:
  assumes "mdec_ok (mdec s)" "dma1_partial img sz s = Some t" "rl_pos (mdec s) < rl_end (mdec s) \<longrightarrow> sz < block_bytes (mdec_depth (mdec s))"
  shows "mdec_ok (mdec t)"
proof (cases "sz \<noteq> 0 \<and> rl_pos (mdec s) < rl_end (mdec s)")
  case True
  then obtain bs rl where "mdec t = (mdec s)\<lparr>rl_pos := rl, block_buffer := put_bytes bs (block_buffer (mdec s)), block_buffer_pos := Some sz\<rparr>"
    using assms(2) by (auto simp: dma1_partial_def dest!: ram_put_mdec split: option.splits prod.splits)
  moreover have "sz < 768" using True assms(3) block_bytes_mult(1) [of "mdec_depth (mdec s)"] by simp
  ultimately show ?thesis using assms(1) by (auto simp: mdec_ok_def split: mdec_fifo_state.splits)
next
  case False
  then have "t = s" using assms(2) by (auto simp: dma1_partial_def)
  then show ?thesis using assms(1) by simp
qed


lemma transfer_ok:
  assumes "mdec_ok (mdec s)" "dma1_flush adr n s = Some (img, sz, s1)" "dma1_blocks img sz s1 = Some (img', sz', s2)"
    "dma1_partial img' sz' s2 = Some s3"
  shows "mdec_ok (mdec s3)"
proof -
  obtain rl where "mdec s2 = (mdec s1)\<lparr>rl_pos := rl\<rparr>" "rl_pos (mdec s2) < rl_end (mdec s2) \<longrightarrow> sz' < block_bytes (mdec_depth (mdec s2))"
    using blocks_registers [OF assms(3)] by blast
  then show ?thesis using partial_ok [OF _ assms(4)] dma1_flush_ok [OF assms(1,2)] by simp
qed

lemma dma1_ok:
  assumes "mdec_ok (mdec s)" "MDEC_DMA1 ma bc cc s = Some t"
  shows "mdec_ok (mdec t)"
  using assms(2)
proof (cases rule: MDEC_DMA1_result)
  case idle
  then show ?thesis using assms(1) by auto
next
  case (transfer img sz s1 img' sz' s2 s3 r)
  then show ?thesis using transfer_ok [OF assms(1) transfer(2-4)] by auto
qed

lemma dma0_ok:
  assumes "mdec_ok (mdec s)" "MDEC_DMA0 ma bc cc s = Some t"
  shows "mdec_ok (mdec t)"
proof -
  define adr where "adr = ma AND 0x1FFFFC"
  define bytes where "bytes = mdec_total_words bc * 4"
  have d: "mdec_ok (mdec u)" if fit: "\<not> adr + bytes > PSX_RAM_SIZE" and v: "mdec_ok (mdec v)" and u: "dma0_decode adr bytes v = Some u" for u v
  proof -
    define w where "w = upd_mdec (\<lambda>m. m\<lparr>reg1 := reg1 m OR MDEC1_BUSY, rl_source := IN_RAM, rl_pos := adr, rl_end := adr + bytes,
            fifo_state := MDEC_STATE_IDLE, out_pos := 0, out_end := 0\<rparr>) v"
    have w: "mdec_ok (mdec w)" using v fit by (auto simp: w_def mdec_ok_def not_less)
    consider "u = w" | x where "MDEC_DMA1 (pending_adr (mdec w)) (pending_bcr (mdec w)) (pending_chcr (mdec w)) w = Some x"
        "u = upd_mdec (\<lambda>m. m\<lparr>pending_adr := 0\<rparr>) x"
      | "u = upd_mdec (\<lambda>m. m\<lparr>pending_adr := 0\<rparr>) w"
      using u unfolding dma0_decode_def Let_def w_def [symmetric] by (auto split: if_splits)
    then show ?thesis using w dma1_ok by cases auto
  qed
  have v: "mdec_ok (mdec (upd_mdec (\<lambda>m. m\<lparr>reg1 := reg1 m OR MDEC1_STP\<rparr>) s))" using assms(1) by simp
  show ?thesis
    using assms d [OF _ v] unfolding MDEC_DMA0_def Let_def adr_def bytes_def by (auto split: if_splits)
qed

text \<open>
  C16. The invariant of the decoder. Every register access and transfer that returns keeps the output window inside its buffer and
  on word boundaries, the input buffer and its end pointer in step, room in the staging buffers for every word still expected, the
  stream end inside main memory, and a partial block inside the block buffer; and the reset state has these properties.
\<close>

theorem mdec_invariant:
  fixes s :: "'a vmachine_scheme"
  shows "(mdec_ok (mdec s) \<longrightarrow> mdec_ok (mdec (MDEC_WriteCommand v s)) \<and> mdec_ok (mdec (MDEC_WriteControl v s)) \<and>
      (\<forall>x t. MDEC_ReadData s = Some (x, t) \<or> MDEC_ReadStatus s = Some (x, t) \<longrightarrow> mdec_ok (mdec t)) \<and>
      (\<forall>t. MDEC_DMA0 ma bc cc s = Some t \<or> MDEC_DMA1 ma bc cc s = Some t \<longrightarrow> mdec_ok (mdec t))) \<and>
    (mdec_in_write_idx (mdec s) = 0 \<longrightarrow> mdec_ok (mdec (MDEC_Init s)))"
proof (intro conjI impI allI)
  assume ok: "mdec_ok (mdec s)"
  show "mdec_ok (mdec (MDEC_WriteCommand v s))" using command_ok [OF ok] by (simp add: mdec_write_command)
  show "mdec_ok (mdec (MDEC_WriteControl v s))" by (rule control_ok [OF ok])
  fix x t
  show "MDEC_ReadData s = Some (x, t) \<or> MDEC_ReadStatus s = Some (x, t) \<Longrightarrow> mdec_ok (mdec t)"
    by (elim disjE) (rule read_ok [OF ok], assumption, rule status_ok [OF ok], assumption)
  show "MDEC_DMA0 ma bc cc s = Some t \<or> MDEC_DMA1 ma bc cc s = Some t \<Longrightarrow> mdec_ok (mdec t)"
    by (elim disjE) (rule dma0_ok [OF ok], assumption, rule dma1_ok [OF ok], assumption)
next
  assume "mdec_in_write_idx (mdec s) = 0"
  then show "mdec_ok (mdec (MDEC_Init s))" by (simp add: MDEC_Init_def mdec_ok_def)
qed

section \<open>The status register\<close>

lemma busy_bit: "x AND MDEC1_BUSY = 0 \<longleftrightarrow> \<not> bit x 29" for x :: u32
proof -
  have e: "MDEC1_BUSY = push_bit 29 1" by (simp add: MDEC1_BUSY_def)
  have b: "bit MDEC1_BUSY n \<longleftrightarrow> n = 29" for n unfolding e bit_push_bit_iff bit_1_iff by auto
  show ?thesis
  proof
    assume "x AND MDEC1_BUSY = 0"
    then have "\<not> bit (x AND MDEC1_BUSY) 29" by simp
    then show "\<not> bit x 29" by (simp add: bit_and_iff b)
  next
    assume "\<not> bit x 29"
    then show "x AND MDEC1_BUSY = 0" by (intro bit_word_eqI) (auto simp: bit_and_iff b)
  qed
qed

text \<open>
  The status register. Bit 31 says that there is neither output nor input, bit 30 that output waits, bits 29, 28 and 27
  that the decoder is busy, bits 26 to 23 repeat the format of the last command, and the low half counts the parameter words still
  to come, less one.
\<close>

theorem mdec_status_register:
  "(bit (mdec_status m) 31 \<longleftrightarrow> \<not> (out_pos m < out_end m \<or> mdec_has_input m)) \<and> (bit (mdec_status m) 30 \<longleftrightarrow> out_pos m < out_end m) \<and>
   (bit (mdec_status m) 29 \<longleftrightarrow> bit (reg1 m) 29) \<and> (bit (mdec_status m) 28 \<longleftrightarrow> bit (reg1 m) 29) \<and> (bit (mdec_status m) 27 \<longleftrightarrow> bit (reg1 m) 29) \<and>
   (bit (mdec_status m) 26 \<longleftrightarrow> bit (reg0 m) 28) \<and> (bit (mdec_status m) 25 \<longleftrightarrow> bit (reg0 m) 27) \<and>
   (bit (mdec_status m) 24 \<longleftrightarrow> bit (reg0 m) 26) \<and> (bit (mdec_status m) 23 \<longleftrightarrow> bit (reg0 m) 25) \<and>
   mdec_status m AND 0xFFFF = (if remaining_words m = 0 then 0xFFFF else of_nat (remaining_words m - 1) AND 0xFFFF)"
proof -
  define v1 where "v1 = (if out_pos m < out_end m \<or> mdec_has_input m then (reg1 m AND NOT 0xFFFF) AND NOT 0x80000000
      else (reg1 m AND NOT 0xFFFF) OR 0x80000000)"
  define v2 where "v2 = (if out_pos m < out_end m then v1 OR 0x40000000 else v1 AND NOT 0x40000000)"
  define v3 where "v3 = (if v2 AND MDEC1_BUSY \<noteq> 0 then v2 OR 0x18000000 else v2 AND NOT 0x18000000)"
  define v4 where "v4 = (v3 AND NOT 0x07800000) OR push_bit 25 (drop_bit 27 (reg0 m) AND 3)
                OR push_bit 24 (drop_bit 26 (reg0 m) AND 1) OR push_bit 23 (drop_bit 25 (reg0 m) AND 1)"
  define low where "low = (if remaining_words m > 0 then of_nat (remaining_words m - 1) AND 0xFFFF else (0xFFFF :: u32))"
  have v: "mdec_status m = v4 OR low"
    unfolding mdec_status_def Let_def v1_def [symmetric] v2_def [symmetric] v3_def [symmetric] v4_def [symmetric] low_def by simp
  have low: "\<not> bit low n" if "16 \<le> n" for n
  proof -
    have "\<not> bit (0xFFFF :: u32) n"
      using that bit_mask_iff [where 'a = u32, of 16 n] by (auto simp: mask_eq_exp_minus_1 simp del: bit_numeral_word_iff)
    then show ?thesis by (simp add: low_def bit_and_iff del: bit_numeral_word_iff)
  qed
  have b1: "bit v1 31 = (\<not> (out_pos m < out_end m \<or> mdec_has_input m))" "bit v1 29 = bit (reg1 m) 29"
    by (simp_all add: v1_def bit_simps)
  have b2: "bit v2 31 = bit v1 31" "bit v2 30 = (out_pos m < out_end m)" "bit v2 29 = bit v1 29"
    by (simp_all add: v2_def bit_simps)
  have b3: "bit v3 31 = bit v2 31" "bit v3 30 = bit v2 30" "bit v3 29 = bit v2 29" "bit v3 28 = bit v2 29" "bit v3 27 = bit v2 29"
    by (simp_all add: v3_def busy_bit bit_simps)
  have b4: "bit v4 31 = bit v3 31" "bit v4 30 = bit v3 30" "bit v4 29 = bit v3 29" "bit v4 28 = bit v3 28" "bit v4 27 = bit v3 27"
    "bit v4 26 = bit (reg0 m) 28" "bit v4 25 = bit (reg0 m) 27" "bit v4 24 = bit (reg0 m) 26" "bit v4 23 = bit (reg0 m) 25"
    by (simp_all add: v4_def bit_simps)
  have z1: "list_all (\<lambda>n. \<not> bit v1 n) [0..<16]" by (simp add: v1_def upt_rec bit_simps)
  then have z2: "list_all (\<lambda>n. \<not> bit v2 n) [0..<16]" by (simp add: v2_def upt_rec bit_simps)
  then have z3: "list_all (\<lambda>n. \<not> bit v3 n) [0..<16]" by (simp add: v3_def upt_rec bit_simps)
  then have "list_all (\<lambda>n. \<not> bit v4 n) [0..<16]" by (simp add: v4_def upt_rec bit_simps)
  then have v4: "\<not> bit v4 n" if "n < 16" for n using that by (simp add: list_all_iff)
  have mask: "bit (0xFFFF :: u32) n \<longleftrightarrow> n < 16" for n
    using bit_mask_iff [where 'a = u32, of 16 n] by (auto simp: mask_eq_exp_minus_1 simp del: bit_numeral_word_iff)
  have low': "n < 16" if "bit low n" for n using low that by (meson not_less)
  have "mdec_status m AND 0xFFFF = low"
    unfolding v by (rule bit_word_eqI) (use low' v4 in \<open>auto simp: bit_and_iff bit_or_iff mask not_less simp del: bit_numeral_word_iff\<close>)
  then show ?thesis
    unfolding v by (simp add: bit_or_iff low b4 b3 b2 b1) (simp add: low_def)
qed

section \<open>The properties at concrete inputs\<close>

text \<open>A machine whose memory holds one empty block at address 0x1000, and whose decoder is in the given state.\<close>

definition mdec_zero :: mdec_state where
  "mdec_zero = \<lparr>reg0 = 0, reg1 = 0, rl_source = RL_NULL, rl_pos = 0, rl_end = 0, block_buffer_pos = None,
     block_buffer = (\<lambda>_. 0), pending_adr = 0, pending_bcr = 0, pending_chcr = 0, out_pos = 0, out_end = 0,
     remaining_words = 0, fifo_state = MDEC_STATE_IDLE, fifo_remaining = 0, qt_buffer = (\<lambda>_. 0), qt_pos = 0,
     qt_has_uv = False, scale_staging = (\<lambda>_. 0), scale_pos = 0, iq_y = (\<lambda>_. 0), iq_uv = (\<lambda>_. 0),
     aan_only = aan_only_init, scale_table = (\<lambda>_. 0), mdec_in_buf = (\<lambda>_. 0), mdec_in_write_idx = 0\<rparr>"

definition empty_block_ram :: bytes where
  "empty_block_ram = (\<lambda>_. 0)(0x1001 := 0x04, 0x1003 := 0xFE)"

definition video_machine :: "mdec_state \<Rightarrow> vmachine" where
  "video_machine m = (machine_with \<lparr>branch_target = 0, branch_state = 0, binary_loaded = False,
     spu = spu (sound_machine voice_zero False), mdec = m\<rparr>)\<lparr>psx_ram := empty_block_ram\<rparr>"

lemma video_machine_simps [simp]: "mdec (video_machine m) = m" "psx_ram (video_machine m) = empty_block_ram"
  by (simp_all add: video_machine_def machine_with_def dmachine_with_def cmachine_with_def smachine_with_def tmachine_with_def)

lemma mdec_zero_ok: "mdec_ok mdec_zero"
  by (simp add: mdec_ok_def mdec_zero_def)

lemma empty_block: "rle_encode 1 (\<lambda>_. 0) = [0x0400, 0xFE00]"
  by (simp add: rle_encode_def rle_halfword_def upt_rec)

lemma empty_block_stream: "stream_at (RL_RAM empty_block_ram) 0x1000 (rle_encode 1 (\<lambda>_. 0))"
  unfolding empty_block by (simp add: rl_fetch_def rl_limit_def empty_block_ram_def load16_def)


definition busy_decoder :: mdec_state where
  "busy_decoder = mdec_zero\<lparr>reg0 := 0x28000000, reg1 := MDEC1_BUSY, rl_source := IN_RAM, rl_pos := 0x1000, rl_end := 0x1004\<rparr>"

lemma busy_decoder_macroblock: "\<exists>bs. mdec_macroblock (video_machine busy_decoder) = Some (bs, 0x1004)"
proof -
  have "rle_halfword 1 0 \<noteq> 0xFE00" by (simp add: rle_halfword_def)
  then obtain b where b: "decode_block (RL_RAM empty_block_ram) (\<lambda>_. 0) (\<lambda>_. 0) 0x1000 = Some (b, 0x1004)"
    using decode_encoded [of 1 "\<lambda>_. 0" "RL_RAM empty_block_ram" "0x1000" "\<lambda>_. 0" "\<lambda>_. 0", OF _ _ _ empty_block_stream]
    by (auto simp: empty_block [simplified])
  show ?thesis
    by (simp add: mdec_macroblock_def mdec_object_def rl2blk_mono_def busy_decoder_def mdec_zero_def mdec_depth_def b Let_def)
qed

theorem mdec_image_witness:
  "yuv2rgb15 0 (\<lambda>_. 0) 37 = 0x4210 \<and> raster_to_block_15 (\<lambda>p. of_nat p) 65 = 9"
proof -
  have "pixel15 0 0 0 0 = 0x4210"
    by (simp add: pixel15_def MAKERGB15_def CLAMP_SCALE5_def clamp5_def clamp_to_def SCALER_def MULY_def MULR_def MULB_def MULG2_def)
  moreover have "\<forall>p<256. yuv2rgb15 0 (\<lambda>_. 0) p = pixel15 0 0 0 0"
      "\<forall>b<4. \<forall>y<8. \<forall>x<8. raster_to_block_15 (\<lambda>p. of_nat p) (64 * b + 8 * y + x) = of_nat (16 * (8 * (b div 2) + y) + 8 * (b mod 2) + x)"
    using mdec_image [of 0 "\<lambda>_. 0" "\<lambda>p. of_nat p"] by auto
  from this(1) [rule_format, of 37] this(2) [rule_format, of 1 0 1]
  have "yuv2rgb15 0 (\<lambda>_. 0) 37 = pixel15 0 0 0 0" "raster_to_block_15 (\<lambda>p. of_nat p) 65 = 9" by simp_all
  ultimately show ?thesis by simp
qed

theorem mdec_fast_transform_witness: "idct (\<lambda>_. 0) 0 5 = full_idct (\<lambda>_. 0) 5"
  using mdec_fast_transform [of 0 "\<lambda>_. 0"] by (simp add: columns_used_def)

theorem mdec_invariant_witness: "mdec_ok (mdec (MDEC_WriteCommand 0x30000020 (video_machine mdec_zero)))"
  using mdec_invariant [of "video_machine mdec_zero" "0x30000020"] mdec_zero_ok by simp

theorem mdec_keeps_bus_contract_witness:
  "bus_devices (with_mdec (\<lambda>s. s) (idle_devices :: vmachine devices)) \<and> devices_keep dma (with_mdec (\<lambda>s. s) (idle_devices :: vmachine devices))"
  by (rule mdec_keeps_bus_contract) (simp_all add: bus_devices_def idle_devices_keep)

lemma busy_decoder_transfer: "\<exists>t. MDEC_DMA1 0x2000 0x00010010 0x01000200 (video_machine busy_decoder) = Some t"
proof -
  obtain bs where bs: "mdec_macroblock (video_machine busy_decoder) = Some (bs, 0x1004)" using busy_decoder_macroblock by blast
  have depth: "mdec_depth busy_decoder = 1" by (simp add: mdec_depth_def busy_decoder_def)
  have len: "length bs = 64" using macroblock_length [OF bs] by (simp add: depth block_bytes_def)
  obtain u where u: "ram_put 0x2000 bs (upd_mdec (\<lambda>m. m\<lparr>rl_pos := 0x1004\<rparr>) (video_machine busy_decoder)) = Some u"
    by (simp add: ram_put_def len PSX_RAM_SIZE_def)
  have ud: "mdec u = busy_decoder\<lparr>rl_pos := 0x1004\<rparr>" using ram_put_mdec [OF u] by simp
  have words: "mdec_total_words 0x00010010 = 16" by (simp add: mdec_total_words_def Let_def)
  have flush: "dma1_flush 0x2000 64 (video_machine busy_decoder) = Some (0x2000, 64, video_machine busy_decoder)"
    by (simp add: dma1_flush_def busy_decoder_def mdec_zero_def)
  have stop: "dma1_blocks 0x2040 0 u = Some (0x2040, 0, u)"
    using block_bytes_pos [of "mdec_depth (mdec u)"] by (subst dma1_blocks.simps) simp
  have blocks: "dma1_blocks 0x2000 64 (video_machine busy_decoder) = Some (0x2040, 0, u)"
    by (subst dma1_blocks.simps) (simp add: depth block_bytes_def bs u stop, simp add: busy_decoder_def)
  have "dma1_partial 0x2040 0 u = Some u" by (simp add: dma1_partial_def)
  then show ?thesis
    by (simp add: MDEC_DMA1_def words flush blocks Let_def PSX_RAM_SIZE_def)
qed

theorem mdec_output_confined_witness:
  "\<exists>t. MDEC_DMA1 0x2000 0x00010010 0x01000200 (video_machine busy_decoder) = Some t \<and> psx_ram t 0x3000 = 0"
proof -
  obtain t where t: "MDEC_DMA1 0x2000 0x00010010 0x01000200 (video_machine busy_decoder) = Some t" using busy_decoder_transfer by blast
  have "mdec_total_words 0x00010010 = 16" by (simp add: mdec_total_words_def Let_def)
  then have "psx_ram t 0x3000 = psx_ram (video_machine busy_decoder) 0x3000"
    using mdec_output_confined [OF t] by (simp add: ram_same_outside_def)
  then show ?thesis using t by (simp add: empty_block_ram_def)
qed

theorem mdec_register_upload_witness:
  "iq_y (mdec (fold MDEC_WriteCommand (replicate 16 0x01010101) (MDEC_WriteCommand 0x40000000 (video_machine mdec_zero)))) =
     iqtab_init (word_byte (replicate 16 0x01010101))"
  using mdec_register_upload [of "video_machine mdec_zero" "0x40000000" "replicate 16 0x01010101"]
  by (simp add: mdec_zero_def Let_def)

theorem mdec_dma_upload_witness:
  "\<exists>t. MDEC_DMA0 0x1000 0x00010010 0x01000201 (MDEC_WriteCommand 0x40000000 (video_machine mdec_zero)) = Some t \<and>
     reg0 (mdec (MDEC_WriteCommand 0x60000000 t)) = 0x40000000"
proof -
  have w: "mdec_total_words 0x00010010 = 16" by (simp add: mdec_total_words_def Let_def)
  have m: "reg0 (mdec (MDEC_WriteCommand 0x40000000 (video_machine mdec_zero))) = 0x40000000"
    by (simp add: mdec_write_command mdec_command_def mdec_zero_def mdec_new_command_def Let_def)
  have "\<exists>t. MDEC_DMA0 0x1000 0x00010010 0x01000201 (MDEC_WriteCommand 0x40000000 (video_machine mdec_zero)) = Some t"
    unfolding MDEC_DMA0_def m w by (simp add: Let_def PSX_RAM_SIZE_def)
  then obtain t where t: "MDEC_DMA0 0x1000 0x00010010 0x01000201 (MDEC_WriteCommand 0x40000000 (video_machine mdec_zero)) = Some t" by blast
  show ?thesis
    using t mdec_dma_upload [of "video_machine mdec_zero" "0x1000" "0x00010010" "0x40000000" t "0x1000"]
    by (simp add: w PSX_RAM_SIZE_def) (simp add: mdec_zero_def)
qed

end
