(* ===== verification/Spec2Isabelle.thy ===== *)
theory Spec2Isabelle
  imports Interpreter_Laws Mdec_Laws
begin

text \<open>
  SuperPSX, a PlayStation emulator in C: a verification library of its hardware model.

  \<^bold>\<open>The program.\<close> One machine state is shared by all parts. The instruction interpreter (\<^verbatim>\<open>src/interpreter.c\<close>)
  fetches and executes MIPS instructions; its loads and stores go through the memory map (\<^verbatim>\<open>src/memory.c\<close>), which sends
  the hardware window to the register decoder (\<^verbatim>\<open>src/hardware.c\<close>) and on to the devices. Devices act later by putting an
  event and its deadline in a slot of the scheduler (\<^verbatim>\<open>src/scheduler.c\<close>, \<^verbatim>\<open>include/scheduler.h\<close>), raise a line of the
  interrupt controller (\<^verbatim>\<open>src/cpu.c\<close>), and move data to and from main memory through the DMA channels
  (\<^verbatim>\<open>src/dma.c\<close>). Every run of the interpreter ends when the cycle counter reaches the earliest deadline.

  \<^bold>\<open>The model.\<close> The state is a record that grows by one field group for every part, in the order the theories
  import each other, so an operation of a part is polymorphic in whatever is added later. Each C function is a definition of the same
  name; inner blocks that a statement needs have a name of their own, given in the manifest with their lines.

  \<^item> \<open>Psx_Prelude\<close>: word types, signed views, little-endian access to host arrays, generic lemmas.
  \<^item> \<open>Scheduler\<close>: the event slots, \<open>Sched_Add\<close>, \<open>Sched_Remove\<close>, \<open>Sched_Tick\<close>; refinement of a finite map and its minimum.
  \<^item> \<open>Cpu\<close>: processor registers, exceptions, interrupt delivery, trapping arithmetic, division.
  \<^item> \<open>Memory_Card\<close>: the byte protocol of the two cards and their host files.
  \<^item> \<open>Timers\<close>: three counters that are caught up lazily, and the events they schedule.
  \<^item> \<open>Sio\<close>: the serial port with pads and cards, through its registers.
  \<^item> \<open>Disc_Image\<close>, \<open>Cdrom\<close>: the mounted image; the drive's command queue, responses, sector events, data FIFO.
  \<^item> \<open>Dma\<close>: the channels, their interrupt register, deferred completion, the ordering-table and sector transfers.
  \<^item> \<open>Bus\<close>, \<open>Bus_Frame\<close>: address translation, hardware registers, unaligned access; what the bus leaves unchanged.
  \<^item> \<open>Gte\<close>, \<open>Gte_Division\<close>, \<open>Gte_Laws\<close>: the geometry coprocessor, every command and register.
  \<^item> \<open>Interpreter\<close>, \<open>Interpreter_Laws\<close>: every instruction, delay slots, traps, cycle costs, the run loop.
  \<^item> \<open>Spu\<close>, \<open>Spu_Laws\<close>: the sound processor.
\<close>

end
